(* ===== verification/Prelude.thy ===== *)
theory Prelude
  imports Main
begin

text \<open>
  Shared material of the development: Go's error values, 64-bit integer range,
  the decimal conversions \<open>strconv.Itoa\<close> and \<open>strconv.Atoi\<close>, \<open>strings.Split\<close> on one
  separator, and the list lemmas the components use.  The collection
  \<open>colon_simps\<close> holds the facts that separate colon-delimited names.
\<close>

named_theorems colon_simps
named_theorems prog_simps

section \<open>Errors\<close>

text \<open>
  A Go \<open>error\<close> is a value.  \<open>Errorf m\<close> is \<open>fmt.Errorf\<close> without a wrapped error,
  \<open>Wrapf m e\<close> is \<open>fmt.Errorf("m: %w", e)\<close>; the other constructors are the errors the
  client libraries report.
\<close>

datatype goerr =
    Errorf string
  | Wrapf string goerr
  | NetworkErr          \<comment> \<open>the call failed on the wire\<close>
  | RedisNil            \<comment> \<open>\<open>redis.Nil\<close>: no such key or member\<close>
  | RedisErr string     \<comment> \<open>an error reply of the Redis server\<close>
  | NoRows              \<comment> \<open>\<open>pgx.ErrNoRows\<close>\<close>
  | PgErr               \<comment> \<open>PostgreSQL rejected the statement\<close>
  | ParseErr            \<comment> \<open>\<open>strconv.Atoi\<close> or \<open>uuid.Parse\<close> failed\<close>

type_synonym 'a res = "goerr + 'a"

section \<open>Integers and their decimal form\<close>

definition in64 :: "int \<Rightarrow> bool" where
  "in64 i \<longleftrightarrow> - (2 ^ 63) \<le> i \<and> i < 2 ^ 63"

definition in32 :: "int \<Rightarrow> bool" where
  "in32 i \<longleftrightarrow> - (2 ^ 31) \<le> i \<and> i < 2 ^ 31"

lemma in32_in64: "in32 i \<Longrightarrow> in64 i"
  by (simp add: in32_def in64_def)

text \<open>Arithmetic on \<open>int64\<close> wraps around.\<close>

definition wrap64 :: "int \<Rightarrow> int" where
  "wrap64 i = (i + 2 ^ 63) mod 2 ^ 64 - 2 ^ 63"

lemma wrap64_id: "in64 i \<Longrightarrow> wrap64 i = i"
  by (simp add: wrap64_def in64_def)

definition digit :: "nat \<Rightarrow> char" where
  "digit d = char_of (48 + d)"

fun show_nat :: "nat \<Rightarrow> string" where
  "show_nat n = (if n < 10 then [digit n] else show_nat (n div 10) @ [digit (n mod 10)])"

declare show_nat.simps [simp del]

definition Itoa :: "int \<Rightarrow> string" where
  "Itoa i = (if i < 0 then CHR ''-'' # show_nat (nat (- i)) else show_nat (nat i))"

fun parse_digits :: "string \<Rightarrow> nat \<Rightarrow> nat option" where
  "parse_digits [] acc = Some acc"
| "parse_digits (c # cs) acc =
     (let d = of_char c :: nat
      in if 48 \<le> d \<and> d \<le> 57 then parse_digits cs (acc * 10 + (d - 48)) else None)"

text \<open>\<open>strconv.Atoi\<close>: an optional sign, at least one digit, and the value fits in 64 bits.\<close>

definition Atoi :: "string \<Rightarrow> int option" where
  "Atoi s =
     (let (neg, ds) = (case s of [] \<Rightarrow> (False, [])
                       | c # cs \<Rightarrow> if c = CHR ''-'' then (True, cs)
                                   else if c = CHR ''+'' then (False, cs) else (False, s))
      in if ds = [] then None
         else case parse_digits ds 0 of None \<Rightarrow> None
              | Some n \<Rightarrow> let i = (if neg then - int n else int n)
                          in if in64 i then Some i else None)"

lemma of_char_digit [simp]: "d < 10 \<Longrightarrow> (of_char (digit d) :: nat) = 48 + d"
  by (simp add: digit_def)

lemma parse_digits_append:
  "parse_digits (xs @ ys) acc =
     (case parse_digits xs acc of None \<Rightarrow> None | Some a \<Rightarrow> parse_digits ys a)"
  by (induction xs arbitrary: acc) (auto simp: Let_def)

lemma parse_digits_show_nat: "parse_digits (show_nat n) 0 = Some n"
proof (induction n rule: show_nat.induct)
  case (1 n)
  show ?case
  proof (cases "n < 10")
    case True
    then show ?thesis by (subst show_nat.simps) simp
  next
    case False
    then show ?thesis using "1.IH" by (subst show_nat.simps) (simp add: parse_digits_append)
  qed
qed

lemma show_nat_nonempty [simp]: "show_nat n \<noteq> []"
  by (subst show_nat.simps) simp

lemma digit_range: "c \<in> set (show_nat n) \<Longrightarrow> 48 \<le> (of_char c :: nat) \<and> (of_char c :: nat) \<le> 57"
proof (induction n rule: show_nat.induct)
  case (1 n)
  then show ?case by (subst (asm) show_nat.simps) (auto split: if_splits)
qed

lemma hd_show_nat: "hd (show_nat n) \<noteq> CHR ''-''" "hd (show_nat n) \<noteq> CHR ''+''"
proof -
  have "48 \<le> (of_char (hd (show_nat n)) :: nat)"
    using digit_range [of "hd (show_nat n)" n] by simp
  then show "hd (show_nat n) \<noteq> CHR ''-''" "hd (show_nat n) \<noteq> CHR ''+''"
    by auto
qed

lemma Atoi_Itoa: "in64 i \<Longrightarrow> Atoi (Itoa i) = Some i"
proof (cases "i < 0")
  case True
  assume "in64 i"
  with True show ?thesis
    by (simp add: Atoi_def Itoa_def parse_digits_show_nat)
next
  case False
  assume "in64 i"
  obtain c cs where s: "show_nat (nat i) = c # cs"
    by (cases "show_nat (nat i)") auto
  with hd_show_nat [of "nat i"] have "c \<noteq> CHR ''-''" "c \<noteq> CHR ''+''" by auto
  with False s \<open>in64 i\<close> parse_digits_show_nat [of "nat i"] show ?thesis
    by (simp add: Atoi_def Itoa_def)
qed

lemma show_nat_inj: "show_nat m = show_nat n \<Longrightarrow> m = n"
  by (metis option.inject parse_digits_show_nat)

lemma Itoa_inject [simp]: "Itoa i = Itoa j \<longleftrightarrow> i = j"
proof
  assume eq: "Itoa i = Itoa j"
  have hd: "\<And>n cs. show_nat n \<noteq> CHR ''-'' # cs" by (metis hd_show_nat(1) list.sel(1))
  show "i = j"
    using eq hd by (auto simp: Itoa_def dest: show_nat_inj split: if_splits) (metis hd)+
qed simp

section \<open>Colon-separated names\<close>

fun split_on :: "char \<Rightarrow> string \<Rightarrow> string list" where
  "split_on c [] = [[]]"
| "split_on c (x # xs) =
     (if x = c then [] # split_on c xs
      else case split_on c xs of [] \<Rightarrow> [[x]] | p # ps \<Rightarrow> (x # p) # ps)"

text \<open>\<open>strings.Split(s, ":")\<close>.\<close>

definition Split :: "string \<Rightarrow> string list" where
  "Split s = split_on CHR '':'' s"

lemma split_on_nonempty [simp]: "split_on c xs \<noteq> []"
  by (induction xs) (auto split: list.splits)

lemma split_on_free: "c \<notin> set xs \<Longrightarrow> split_on c xs = [xs]"
  by (induction xs) auto

lemma split_on_prefix: "c \<notin> set xs \<Longrightarrow> split_on c (xs @ c # ys) = xs # split_on c ys"
  by (induction xs) auto

definition colon_free :: "string \<Rightarrow> bool" where
  "colon_free s \<longleftrightarrow> CHR '':'' \<notin> set s"

lemma colon_free_append_eq [colon_simps]:
  assumes "colon_free x" "colon_free y"
  shows "x @ CHR '':'' # a = y @ CHR '':'' # b \<longleftrightarrow> x = y \<and> a = b"
proof
  assume eq: "x @ CHR '':'' # a = y @ CHR '':'' # b"
  have tw: "takeWhile (\<lambda>c. c \<noteq> CHR '':'') (z @ CHR '':'' # w) = z"
    if "colon_free z" for z w :: string
    using that by (induction z) (auto simp: colon_free_def)
  from eq tw [OF assms(1), of a] tw [OF assms(2), of b] have "x = y" by simp
  with eq show "x = y \<and> a = b" by simp
qed simp

lemma colon_free_append_eq_nil [colon_simps]:
  "colon_free y \<Longrightarrow> x @ CHR '':'' # a \<noteq> y"
  "colon_free y \<Longrightarrow> y \<noteq> x @ CHR '':'' # a"
  by (auto simp: colon_free_def)

section \<open>Lists\<close>

lemma sum_list_update_nat:
  "i < length ns \<Longrightarrow> sum_list (ns[i := v]) + ns ! i = sum_list ns + (v :: nat)"
  by (induction ns arbitrary: i) (auto split: nat.splits)

lemma length_filter_map_keep:
  "(\<And>x. x \<in> set xs \<Longrightarrow> P (f x) = P x) \<Longrightarrow> length (filter P (map f xs)) = length (filter P xs)"
  by (induction xs) auto

lemma filter_key:
  assumes "distinct (map f xs)" "x \<in> set xs"
  shows "filter (\<lambda>y. f y = f x) xs = [x]"
  using assms
proof (induction xs)
  case (Cons y ys)
  show ?case
  proof (cases "x = y")
    case True
    with Cons.prems(1) have "f x \<notin> f ` set ys" by simp
    then have "\<forall>z \<in> set ys. f z \<noteq> f x" by (metis imageI)
    with True show ?thesis by (simp add: filter_empty_conv)
  next
    case False
    with Cons.prems have "x \<in> set ys" "f y \<noteq> f x" by auto
    with Cons show ?thesis by simp
  qed
qed simp

end
