(* ===== verification/Redis_Server.thy ===== *)
theory Redis_Server
  imports Prelude Complex_Main "HOL-Library.Char_ord" "HOL-Library.List_Lexorder"
    "HOL-Library.Product_Lexorder"
begin

text \<open>
  The Redis server the program talks to.  Redis is not part of the repository, so it is a
  parameter: a record with the server's command interpreter (\<open>redis_call\<close>, on an abstract
  server state) and the number conversion of its embedded Lua interpreter (\<open>lua_tonumber\<close>).
  The locale \<open>redis_server\<close> states the documented behaviour of the commands the sources use,
  over a view of the keyspace.  The in-memory server at the end satisfies every law and
  is the instance that witnesses run on.
\<close>

section \<open>Commands, replies and the keyspace\<close>

datatype rcmd =
    GET string
  | SET string string "int option"            \<comment> \<open>key, value, time to live in milliseconds\<close>
  | INCR string
  | DECR string
  | ZADD string string string                 \<comment> \<open>key, score text, member\<close>
  | ZSCORE string string
  | ZRANK string string
  | ZCARD string
  | ZREM string string
  | ZPOPMIN string
  | HSET string "(string \<times> string) list"
  | HMGET string "string list"
  | HMSET string "(string \<times> string) list"
  | EXPIRE string int                         \<comment> \<open>key, time to live in seconds\<close>

datatype reply =
    RNil
  | ROk
  | RInt int
  | RBulk string
  | RArr "string list"
  | RBulks "string option list"               \<comment> \<open>an array that may hold nils\<close>
  | RErr string

text \<open>
  A sorted set is kept as the list of its (score, member) pairs in rank order: by score, and by
  member bytes where scores are equal.
\<close>

datatype rval = Str string | ZSet "(int \<times> string) list" | Hash "string \<Rightarrow> string option"

type_synonym entry = "rval \<times> int option"
type_synonym keyspace = "string \<Rightarrow> entry option"

record 'r redis =
  redis_call :: "rcmd \<Rightarrow> 'r \<Rightarrow> reply \<times> 'r"
  lua_tonumber :: "string \<Rightarrow> rat option"
  lua_tostring :: "rat \<Rightarrow> string"
  lua_round :: "rat \<Rightarrow> rat"

fun rkey :: "rcmd \<Rightarrow> string" where
  "rkey (GET k) = k" | "rkey (SET k _ _) = k" | "rkey (INCR k) = k" | "rkey (DECR k) = k"
| "rkey (ZADD k _ _) = k" | "rkey (ZSCORE k _) = k" | "rkey (ZRANK k _) = k"
| "rkey (ZCARD k) = k" | "rkey (ZREM k _) = k" | "rkey (ZPOPMIN k) = k" | "rkey (HSET k _) = k"
| "rkey (HMGET k _) = k" | "rkey (HMSET k _) = k" | "rkey (EXPIRE k _) = k"

fun rreadonly :: "rcmd \<Rightarrow> bool" where
  "rreadonly (GET _) = True" | "rreadonly (ZSCORE _ _) = True" | "rreadonly (ZRANK _ _) = True"
| "rreadonly (ZCARD _) = True" | "rreadonly (HMGET _ _) = True" | "rreadonly _ = False"

text \<open>A time to live must be positive.\<close>

definition ttl_valid :: "int option \<Rightarrow> bool" where
  "ttl_valid x = (case x of None \<Rightarrow> True | Some t \<Rightarrow> 0 < t)"

text \<open>What a key holds, with the defaults Redis uses for a missing key; the second part of an entry is its time to live in milliseconds.\<close>

definition ttl_of :: "entry option \<Rightarrow> int option" where
  "ttl_of e = (case e of None \<Rightarrow> None | Some (_, t) \<Rightarrow> t)"

definition holds_int :: "entry option \<Rightarrow> int \<Rightarrow> bool" where
  "holds_int e i \<longleftrightarrow> (e = None \<and> i = 0) \<or> (in64 i \<and> e = Some (Str (Itoa i), ttl_of e))"

definition holds_zset :: "entry option \<Rightarrow> (int \<times> string) list \<Rightarrow> bool" where
  "holds_zset e zs \<longleftrightarrow> (e = None \<and> zs = []) \<or> e = Some (ZSet zs, ttl_of e)"

definition holds_hash :: "entry option \<Rightarrow> (string \<Rightarrow> string option) \<Rightarrow> bool" where
  "holds_hash e h \<longleftrightarrow> (e = None \<and> h = Map.empty) \<or> e = Some (Hash h, ttl_of e)"

definition zput :: "(int \<times> string) list \<Rightarrow> int option \<Rightarrow> entry option" where
  "zput zs t = (if zs = [] then None else Some (ZSet zs, t))"

definition zmembers :: "(int \<times> string) list \<Rightarrow> string set" where
  "zmembers zs = snd ` set zs"

definition zindex :: "string \<Rightarrow> (int \<times> string) list \<Rightarrow> int" where
  "zindex m zs = int (length (takeWhile (\<lambda>e. snd e \<noteq> m) zs))"

definition zset_ok :: "(int \<times> string) list \<Rightarrow> bool" where
  "zset_ok zs \<longleftrightarrow> sorted zs \<and> distinct (map snd zs)"

text \<open>
  A Lua number is a double.  Finite doubles are rationals, and every arithmetic operation rounds
  its exact result (\<open>lua_round\<close>).  \<open>in_double\<close> bounds the results that cannot overflow.
\<close>

definition in_double :: "rat \<Rightarrow> bool" where
  "in_double x \<longleftrightarrow> \<bar>x\<bar> \<le> 2 ^ 1000"

section \<open>Documented behaviour\<close>

locale redis_server =
  fixes R :: "'r redis"
    and view :: "'r \<Rightarrow> keyspace"
  assumes frame: "k \<noteq> rkey c \<Longrightarrow> view (snd (redis_call R c r)) k = view r k"
    and readonly: "rreadonly c \<Longrightarrow> view (snd (redis_call R c r)) = view r"
    and get_reply: "fst (redis_call R (GET k) r) =
      (case view r k of None \<Rightarrow> RNil | Some (Str s, _) \<Rightarrow> RBulk s | Some _ \<Rightarrow> RErr ''WRONGTYPE'')"
    and set_reply: "ttl_valid x \<Longrightarrow> fst (redis_call R (SET k v x) r) = ROk"
    and set_view: "ttl_valid x \<Longrightarrow> view (snd (redis_call R (SET k v x) r)) k = Some (Str v, x)"
    and incr_ok: "holds_int (view r k) i \<Longrightarrow> in64 (i + 1) \<Longrightarrow>
      fst (redis_call R (INCR k) r) = RInt (i + 1) \<and>
      view (snd (redis_call R (INCR k) r)) k = Some (Str (Itoa (i + 1)), ttl_of (view r k))"
    and incr_err: "\<forall>i. holds_int (view r k) i \<longrightarrow> \<not> in64 (i + 1) \<Longrightarrow>
      (\<exists>e. fst (redis_call R (INCR k) r) = RErr e) \<and> view (snd (redis_call R (INCR k) r)) = view r"
    and decr_ok: "holds_int (view r k) i \<Longrightarrow> in64 (i - 1) \<Longrightarrow>
      fst (redis_call R (DECR k) r) = RInt (i - 1) \<and>
      view (snd (redis_call R (DECR k) r)) k = Some (Str (Itoa (i - 1)), ttl_of (view r k))"
    and decr_err: "\<forall>i. holds_int (view r k) i \<longrightarrow> \<not> in64 (i - 1) \<Longrightarrow>
      (\<exists>e. fst (redis_call R (DECR k) r) = RErr e) \<and> view (snd (redis_call R (DECR k) r)) = view r"
    and zadd_new: "holds_zset (view r k) zs \<Longrightarrow> m \<notin> zmembers zs \<Longrightarrow> \<bar>t\<bar> \<le> 2 ^ 53 \<Longrightarrow>
      fst (redis_call R (ZADD k (Itoa t) m) r) = RInt 1 \<and>
      view (snd (redis_call R (ZADD k (Itoa t) m) r)) k =
        Some (ZSet (insort (t, m) zs), ttl_of (view r k))"
    and zscore_reply: "holds_zset (view r k) zs \<Longrightarrow>
      (if m \<in> zmembers zs then \<exists>s. fst (redis_call R (ZSCORE k m) r) = RBulk s
       else fst (redis_call R (ZSCORE k m) r) = RNil)"
    and zrank_reply: "holds_zset (view r k) zs \<Longrightarrow>
      fst (redis_call R (ZRANK k m) r) = (if m \<in> zmembers zs then RInt (zindex m zs) else RNil)"
    and zrank_type: "fst (redis_call R (ZRANK k m) r) \<in> {RNil} \<union> range RInt \<union> range RErr"
    and zcard_reply: "holds_zset (view r k) zs \<Longrightarrow>
      fst (redis_call R (ZCARD k) r) = RInt (int (length zs))"
    and zrem: "holds_zset (view r k) zs \<Longrightarrow>
      fst (redis_call R (ZREM k m) r) = RInt (if m \<in> zmembers zs then 1 else 0) \<and>
      view (snd (redis_call R (ZREM k m) r)) k =
        zput (filter (\<lambda>e. snd e \<noteq> m) zs) (ttl_of (view r k))"
    and zpopmin_empty: "holds_zset (view r k) [] \<Longrightarrow>
      fst (redis_call R (ZPOPMIN k) r) = RArr [] \<and> view (snd (redis_call R (ZPOPMIN k) r)) = view r"
    and zpopmin: "holds_zset (view r k) ((t, m) # zs) \<Longrightarrow>
      (\<exists>s. fst (redis_call R (ZPOPMIN k) r) = RArr [m, s]) \<and>
      view (snd (redis_call R (ZPOPMIN k) r)) k = zput zs (ttl_of (view r k))"
    and hset: "holds_hash (view r k) h \<Longrightarrow> fvs \<noteq> [] \<Longrightarrow>
      (\<exists>n. fst (redis_call R (HSET k fvs) r) = RInt n) \<and>
      view (snd (redis_call R (HSET k fvs) r)) k =
        Some (Hash (h ++ map_of (rev fvs)), ttl_of (view r k))"
    and hmget_reply: "holds_hash (view r k) h \<Longrightarrow>
      fst (redis_call R (HMGET k fs) r) = RBulks (map h fs)"
    and hmset: "holds_hash (view r k) h \<Longrightarrow> fvs \<noteq> [] \<Longrightarrow>
      fst (redis_call R (HMSET k fvs) r) = ROk \<and>
      view (snd (redis_call R (HMSET k fvs) r)) k =
        Some (Hash (h ++ map_of (rev fvs)), ttl_of (view r k))"
    and expire: "view r k = Some (e, ttl) \<Longrightarrow> 0 < t \<Longrightarrow>
      fst (redis_call R (EXPIRE k t) r) = RInt 1 \<and>
      view (snd (redis_call R (EXPIRE k t) r)) k = Some (e, Some (1000 * t))"
    and tonumber_sign: "in64 i \<Longrightarrow> \<exists>q. lua_tonumber R (Itoa i) = Some q \<and> (q \<le> 0 \<longleftrightarrow> i \<le> 0)"
    and tonumber_exact: "\<bar>i\<bar> \<le> 2 ^ 53 \<Longrightarrow> lua_tonumber R (Itoa i) = Some (of_int i)"
    and tonumber_tostring: "in_double q \<Longrightarrow>
      lua_tonumber R (lua_tostring R (lua_round R q)) = Some (lua_round R q)"
    and round_mono: "in_double q \<Longrightarrow> in_double q' \<Longrightarrow> q \<le> q' \<Longrightarrow> lua_round R q \<le> lua_round R q'"
    and round_exact: "\<bar>i\<bar> \<le> 2 ^ 53 \<Longrightarrow> lua_round R (of_int i) = of_int i"
    and round_error: "in_double q \<Longrightarrow> \<bar>lua_round R q - q\<bar> \<le> \<bar>q\<bar> / 2 ^ 53 + 1 / 2 ^ 1074"
begin

lemmas read_view [simp] = readonly [of "GET k" for k, simplified]
  readonly [of "ZSCORE k m" for k m, simplified] readonly [of "ZRANK k m" for k m, simplified]
  readonly [of "ZCARD k" for k, simplified] readonly [of "HMGET k fs" for k fs, simplified]

lemma view_upd: "view (snd (redis_call R c r)) = (view r)(rkey c := view (snd (redis_call R c r)) (rkey c))"
  by (rule ext) (simp add: frame)

lemma set_view_upd [simp]: "ttl_valid t \<Longrightarrow> view (snd (redis_call R (SET k v t) r)) = (view r)(k \<mapsto> (Str v, t))"
  using view_upd [of "SET k v t" r] by (simp add: set_view)

lemma incr_view: "holds_int (view r k) i \<Longrightarrow> in64 (i + 1) \<Longrightarrow>
    view (snd (redis_call R (INCR k) r)) = (view r)(k \<mapsto> (Str (Itoa (i + 1)), ttl_of (view r k)))"
  using view_upd [of "INCR k" r] by (simp add: incr_ok)

lemma decr_view: "holds_int (view r k) i \<Longrightarrow> in64 (i - 1) \<Longrightarrow>
    view (snd (redis_call R (DECR k) r)) = (view r)(k \<mapsto> (Str (Itoa (i - 1)), ttl_of (view r k)))"
  using view_upd [of "DECR k" r] by (simp add: decr_ok)

lemma zadd_view: "holds_zset (view r k) zs \<Longrightarrow> m \<notin> zmembers zs \<Longrightarrow> \<bar>t\<bar> \<le> 2 ^ 53 \<Longrightarrow>
    view (snd (redis_call R (ZADD k (Itoa t) m) r)) =
      (view r)(k \<mapsto> (ZSet (insort (t, m) zs), ttl_of (view r k)))"
  using view_upd [of "ZADD k (Itoa t) m" r] by (simp add: zadd_new)

lemma zrem_view: "holds_zset (view r k) zs \<Longrightarrow>
    view (snd (redis_call R (ZREM k m) r)) =
      (view r)(k := zput (filter (\<lambda>e. snd e \<noteq> m) zs) (ttl_of (view r k)))"
  using view_upd [of "ZREM k m" r] by (simp add: zrem)

lemma zpopmin_view: "holds_zset (view r k) ((t, m) # zs) \<Longrightarrow>
    view (snd (redis_call R (ZPOPMIN k) r)) = (view r)(k := zput zs (ttl_of (view r k)))"
  using view_upd [of "ZPOPMIN k" r] by (simp add: zpopmin)

lemma hset_view: "holds_hash (view r k) h \<Longrightarrow> fvs \<noteq> [] \<Longrightarrow>
    view (snd (redis_call R (HSET k fvs) r)) =
      (view r)(k \<mapsto> (Hash (h ++ map_of (rev fvs)), ttl_of (view r k)))"
  using view_upd [of "HSET k fvs" r] by (simp add: hset)

lemma hmset_view: "holds_hash (view r k) h \<Longrightarrow> fvs \<noteq> [] \<Longrightarrow>
    view (snd (redis_call R (HMSET k fvs) r)) =
      (view r)(k \<mapsto> (Hash (h ++ map_of (rev fvs)), ttl_of (view r k)))"
  using view_upd [of "HMSET k fvs" r] by (simp add: hmset)

lemma expire_view_upd: "view r k = Some (v, x) \<Longrightarrow> 0 < t \<Longrightarrow>
    view (snd (redis_call R (EXPIRE k t) r)) = (view r)(k \<mapsto> (v, Some (1000 * t)))"
  using view_upd [of "EXPIRE k t" r] by (simp add: expire)

end

section \<open>Facts about what a key holds\<close>

lemma holds_int_unique: "holds_int e i \<Longrightarrow> holds_int e j \<Longrightarrow> i = j"
  by (cases e) (auto simp: holds_int_def)

lemma holds_int_in64: "holds_int e i \<Longrightarrow> in64 i"
  by (auto simp: holds_int_def in64_def)

lemma holds_int_Some [simp]: "in64 i \<Longrightarrow> holds_int (Some (Str (Itoa i), t)) i"
  by (simp add: holds_int_def ttl_of_def)

lemma ttl_of_simps [simp]: "ttl_of None = None" "ttl_of (Some (v, t)) = t"
  by (simp_all add: ttl_of_def)

lemma holds_zset_zput [simp]: "holds_zset (zput zs t) zs"
  by (simp add: holds_zset_def zput_def)

lemma holds_zset_Some [simp]: "holds_zset (Some (ZSet zs, t)) zs"
  by (simp add: holds_zset_def)

lemma holds_zset_unique: "holds_zset e zs \<Longrightarrow> holds_zset e zs' \<Longrightarrow> zs = zs'"
  by (cases e) (auto simp: holds_zset_def)

lemma zmembers_simps [simp]: "zmembers [] = {}" "zmembers (e # zs) = insert (snd e) (zmembers zs)"
  "zmembers (insort x zs) = insert (snd x) (zmembers zs)"
  by (auto simp: zmembers_def set_insort_key)

lemma zset_ok_insort: "zset_ok zs \<Longrightarrow> m \<notin> zmembers zs \<Longrightarrow> zset_ok (insort (t, m) zs)"
proof -
  assume ok: "zset_ok zs" and new: "m \<notin> zmembers zs"
  have "distinct (map snd (insort (t, m) zs))" if "distinct (map snd zs)"
    using that new by (induction zs) (auto simp: set_insort_key zmembers_def)
  with ok show ?thesis by (simp add: zset_ok_def sorted_insort)
qed

lemma zset_ok_filter: "zset_ok zs \<Longrightarrow> zset_ok (filter P zs)"
  by (simp add: zset_ok_def distinct_map_filter sorted_filter [where f = id, simplified])

section \<open>An in-memory server\<close>

definition string2ll :: "string \<Rightarrow> int option" where
  "string2ll s = (case Atoi s of None \<Rightarrow> None | Some i \<Rightarrow> if Itoa i = s then Some i else None)"

fun mem_int :: "entry option \<Rightarrow> int option" where
  "mem_int None = Some 0"
| "mem_int (Some (Str s, t)) = string2ll s"
| "mem_int (Some _) = None"

fun mem_zset :: "entry option \<Rightarrow> (int \<times> string) list option" where
  "mem_zset None = Some []"
| "mem_zset (Some (ZSet zs, t)) = Some zs"
| "mem_zset (Some _) = None"

fun mem_hash :: "entry option \<Rightarrow> (string \<Rightarrow> string option) option" where
  "mem_hash None = Some Map.empty"
| "mem_hash (Some (Hash h, t)) = Some h"
| "mem_hash (Some _) = None"

definition mem_add :: "string \<Rightarrow> int \<Rightarrow> keyspace \<Rightarrow> reply \<times> keyspace" where
  "mem_add k d r = (case mem_int (r k) of
       None \<Rightarrow> (RErr ''ERR value is not an integer or out of range'', r)
     | Some i \<Rightarrow> if in64 (i + d) then (RInt (i + d), r(k \<mapsto> (Str (Itoa (i + d)), ttl_of (r k))))
         else (RErr ''ERR increment or decrement would overflow'', r))"

definition with_zset :: "string \<Rightarrow> keyspace \<Rightarrow> ((int \<times> string) list \<Rightarrow> reply \<times> keyspace) \<Rightarrow> reply \<times> keyspace" where
  "with_zset k r f = (case mem_zset (r k) of None \<Rightarrow> (RErr ''WRONGTYPE'', r) | Some zs \<Rightarrow> f zs)"

fun mem_call :: "rcmd \<Rightarrow> keyspace \<Rightarrow> reply \<times> keyspace" where
  "mem_call (GET k) r = ((case r k of None \<Rightarrow> RNil | Some (Str s, _) \<Rightarrow> RBulk s
     | Some _ \<Rightarrow> RErr ''WRONGTYPE''), r)"
| "mem_call (SET k v t) r = (if ttl_valid t then (ROk, r(k \<mapsto> (Str v, t))) else (RErr ''ERR invalid expire time'', r))"
| "mem_call (INCR k) r = mem_add k 1 r"
| "mem_call (DECR k) r = mem_add k (- 1) r"
| "mem_call (ZADD k s m) r = with_zset k r (\<lambda>zs. case string2ll s of
       None \<Rightarrow> (RErr ''ERR value is not a valid float'', r)
     | Some t \<Rightarrow> (RInt (if m \<in> zmembers zs then 0 else 1),
         r(k \<mapsto> (ZSet (insort (t, m) (filter (\<lambda>e. snd e \<noteq> m) zs)), ttl_of (r k)))))"
| "mem_call (ZSCORE k m) r = with_zset k r (\<lambda>zs.
     ((case find (\<lambda>e. snd e = m) zs of None \<Rightarrow> RNil | Some e \<Rightarrow> RBulk (Itoa (fst e))), r))"
| "mem_call (ZRANK k m) r = with_zset k r (\<lambda>zs.
     ((if m \<in> zmembers zs then RInt (zindex m zs) else RNil), r))"
| "mem_call (ZCARD k) r = with_zset k r (\<lambda>zs. (RInt (int (length zs)), r))"
| "mem_call (ZREM k m) r = with_zset k r (\<lambda>zs.
     (RInt (if m \<in> zmembers zs then 1 else 0),
      r(k := zput (filter (\<lambda>e. snd e \<noteq> m) zs) (ttl_of (r k)))))"
| "mem_call (ZPOPMIN k) r = with_zset k r (\<lambda>zs. case zs of [] \<Rightarrow> (RArr [], r)
     | e # zs' \<Rightarrow> (RArr [snd e, Itoa (fst e)], r(k := zput zs' (ttl_of (r k)))))"
| "mem_call (HSET k fvs) r = (if fvs = [] then (RErr ''ERR wrong number of arguments'', r) else case mem_hash (r k) of None \<Rightarrow> (RErr ''WRONGTYPE'', r)
     | Some h \<Rightarrow> (RInt (int (length fvs)), r(k \<mapsto> (Hash (h ++ map_of (rev fvs)), ttl_of (r k)))))"
| "mem_call (HMGET k fs) r = (case mem_hash (r k) of None \<Rightarrow> (RErr ''WRONGTYPE'', r)
     | Some h \<Rightarrow> (RBulks (map h fs), r))"
| "mem_call (HMSET k fvs) r = (if fvs = [] then (RErr ''ERR wrong number of arguments'', r) else case mem_hash (r k) of None \<Rightarrow> (RErr ''WRONGTYPE'', r)
     | Some h \<Rightarrow> (ROk, r(k \<mapsto> (Hash (h ++ map_of (rev fvs)), ttl_of (r k)))))"
| "mem_call (EXPIRE k t) r = (case r k of None \<Rightarrow> (RInt 0, r)
     | Some (v, _) \<Rightarrow> (RInt 1, if 0 < t then r(k \<mapsto> (v, Some (1000 * t))) else r(k := None)))"

text \<open>
  The in-memory server computes with exact rationals and writes them as fractions, so that
  every law on rounding holds trivially.
\<close>

definition read_int :: "string \<Rightarrow> int option" where
  "read_int s = (case s of [] \<Rightarrow> None
     | c # cs \<Rightarrow> if c = CHR ''-'' then map_option (\<lambda>n. - int n) (parse_digits cs 0)
                 else map_option int (parse_digits s 0))"

definition show_rat :: "rat \<Rightarrow> string" where
  "show_rat q = (case quotient_of q of (n, d) \<Rightarrow> Itoa n @ ''/'' @ Itoa d)"

definition read_rat :: "string \<Rightarrow> rat option" where
  "read_rat s = (case split_on CHR ''/'' s of
       [n, d] \<Rightarrow> (case (read_int n, read_int d) of (Some i, Some j) \<Rightarrow> Some (of_int i / of_int j) | _ \<Rightarrow> None)
     | _ \<Rightarrow> map_option of_int (string2ll s))"

definition mem_redis :: "keyspace redis" where
  "mem_redis = \<lparr>redis_call = mem_call,
     lua_tonumber = read_rat, lua_tostring = show_rat, lua_round = (\<lambda>x. x)\<rparr>"

lemma string2ll_iff: "string2ll s = Some i \<longleftrightarrow> in64 i \<and> s = Itoa i"
proof
  assume "string2ll s = Some i"
  then have "Atoi s = Some i" "s = Itoa i" by (auto simp: string2ll_def split: option.splits if_splits)
  then show "in64 i \<and> s = Itoa i"
    by (auto simp: Atoi_def Let_def split: prod.splits if_splits option.splits)
qed (simp add: string2ll_def Atoi_Itoa)

lemma read_int_Itoa: "read_int (Itoa i) = Some i"
proof (cases "i < 0")
  case True
  then show ?thesis by (simp add: read_int_def Itoa_def parse_digits_show_nat)
next
  case False
  obtain c cs where s: "show_nat (nat i) = c # cs" by (cases "show_nat (nat i)") auto
  with hd_show_nat [of "nat i"] parse_digits_show_nat [of "nat i"] False show ?thesis
    by (simp add: read_int_def Itoa_def)
qed

lemma slash_free_Itoa: "CHR ''/'' \<notin> set (Itoa i)"
  using digit_range [of "CHR ''/''"] by (auto simp: Itoa_def)

lemma read_rat_show: "read_rat (show_rat q) = Some q"
proof -
  obtain n d where q: "quotient_of q = (n, d)" by fastforce
  have "split_on CHR ''/'' (show_rat q) = [Itoa n, Itoa d]"
    using split_on_prefix [OF slash_free_Itoa, of n "Itoa d"] split_on_free [OF slash_free_Itoa, of d]
    by (simp add: show_rat_def q)
  then show ?thesis by (simp add: read_rat_def read_int_Itoa quotient_of_div [OF q])
qed

lemma read_rat_Itoa: "in64 i \<Longrightarrow> read_rat (Itoa i) = Some (of_int i)"
  using split_on_free [OF slash_free_Itoa, of i] by (simp add: read_rat_def string2ll_iff [THEN iffD2])

lemma mem_int_holds: "holds_int e i \<longleftrightarrow> mem_int e = Some i"
  by (cases e rule: mem_int.cases) (auto simp: holds_int_def string2ll_iff)

lemma mem_zset_holds: "holds_zset e zs \<longleftrightarrow> mem_zset e = Some zs"
  by (cases e rule: mem_zset.cases) (auto simp: holds_zset_def)

lemma mem_hash_holds: "holds_hash e h \<longleftrightarrow> mem_hash e = Some h"
  by (cases e rule: mem_hash.cases) (auto simp: holds_hash_def)

lemma filter_not_member: "m \<notin> zmembers zs \<Longrightarrow> filter (\<lambda>e. snd e \<noteq> m) zs = zs"
  by (induction zs) auto

lemma mem_add_frame: "k \<noteq> k' \<Longrightarrow> snd (mem_add k' d r) k = r k"
  by (simp add: mem_add_def split: option.splits)

lemma mem_call_frame: "k \<noteq> rkey c \<Longrightarrow> snd (mem_call c r) k = r k"
  by (cases c) (auto simp: mem_add_frame with_zset_def split: option.splits list.splits)

lemma find_zmember: "find (\<lambda>e. snd e = m) zs = None \<longleftrightarrow> m \<notin> zmembers zs"
  by (induction zs) auto

interpretation mem: redis_server mem_redis "\<lambda>r. r"
proof
  fix r :: keyspace and k s m c i t zs h fvs v
  show "k \<noteq> rkey c \<Longrightarrow> snd (redis_call mem_redis c r) k = r k"
    by (simp add: mem_redis_def mem_call_frame)
  show "rreadonly c \<Longrightarrow> snd (redis_call mem_redis c r) = r"
    by (cases c) (auto simp: mem_redis_def with_zset_def split: option.splits)
  show "in64 i \<Longrightarrow> \<exists>q. lua_tonumber mem_redis (Itoa i) = Some q \<and> (q \<le> 0 \<longleftrightarrow> i \<le> 0)"
    by (simp add: mem_redis_def read_rat_Itoa)
  show "\<bar>i\<bar> \<le> 2 ^ 53 \<Longrightarrow> lua_tonumber mem_redis (Itoa i) = Some (of_int i)"
    by (simp add: mem_redis_def read_rat_Itoa in64_def abs_le_iff)
  show "holds_zset (r k) zs \<Longrightarrow>
      (if m \<in> zmembers zs then \<exists>s. fst (redis_call mem_redis (ZSCORE k m) r) = RBulk s
       else fst (redis_call mem_redis (ZSCORE k m) r) = RNil)"
    by (cases "find (\<lambda>e. snd e = m) zs")
       (auto simp: mem_redis_def with_zset_def mem_zset_holds find_zmember [symmetric])
  have "\<bar>t\<bar> \<le> 2 ^ 53 \<Longrightarrow> string2ll (Itoa t) = Some t"
    by (auto simp: string2ll_iff in64_def abs_le_iff)
  then show "holds_zset (r k) zs \<Longrightarrow> m \<notin> zmembers zs \<Longrightarrow> \<bar>t\<bar> \<le> 2 ^ 53 \<Longrightarrow>
      fst (redis_call mem_redis (ZADD k (Itoa t) m) r) = RInt 1 \<and>
      snd (redis_call mem_redis (ZADD k (Itoa t) m) r) k =
        Some (ZSet (insort (t, m) zs), ttl_of (r k))"
    by (simp add: mem_redis_def with_zset_def mem_zset_holds filter_not_member)
qed (auto simp: mem_redis_def mem_add_def with_zset_def mem_int_holds mem_zset_holds mem_hash_holds
      read_rat_show split: option.splits)

end
