(* ===== verification/Lua_Scripts.thy ===== *)
theory Lua_Scripts
  imports Redis_Server
begin

text \<open>
  The Lua scripts of \<open>internal/redis/scripts\<close>, which Redis runs atomically.  \<open>lua_call\<close> is
  \<open>redis.call\<close>: an error reply aborts the script and keeps the effects of the calls before
  it.  The lemmas of the locale \<open>redis_server\<close> give each script's reply and its effect on the
  keyspace on every branch.
\<close>

section \<open>The scripts\<close>

definition lua_call ::
  "'r redis \<Rightarrow> rcmd \<Rightarrow> 'r \<Rightarrow> (reply \<Rightarrow> 'r \<Rightarrow> reply \<times> 'r) \<Rightarrow> reply \<times> 'r" where
  "lua_call R c r f =
     (case redis_call R c r of (rep, r') \<Rightarrow>
        (case rep of RErr e \<Rightarrow> (RErr e, r') | _ \<Rightarrow> f rep r'))"

text \<open>\<open>tonumber(redis.call(...))\<close>: a nil reply is \<open>false\<close> in Lua, and \<open>tonumber(false)\<close> is nil.\<close>

definition reply_number :: "'r redis \<Rightarrow> reply \<Rightarrow> rat option" where
  "reply_number R rep = (case rep of RBulk s \<Rightarrow> lua_tonumber R s | _ \<Rightarrow> None)"

definition reserve_lua :: "'r redis \<Rightarrow> string \<Rightarrow> string \<Rightarrow> 'r \<Rightarrow> reply \<times> 'r" where
  "reserve_lua R k1 k2 r =
     lua_call R (GET k1) r (\<lambda>rep r.
       let available = reply_number R rep in
       if available = None \<or> the available \<le> 0 then (RInt (- 1), r)
       else lua_call R (DECR k1) r (\<lambda>_ r.
         lua_call R (INCR k2) r (\<lambda>_ r. (RInt 1, r))))"

definition release_lua :: "'r redis \<Rightarrow> string \<Rightarrow> string \<Rightarrow> 'r \<Rightarrow> reply \<times> 'r" where
  "release_lua R k1 k2 r =
     lua_call R (INCR k1) r (\<lambda>_ r. lua_call R (DECR k2) r (\<lambda>_ r. (RInt 1, r)))"

definition confirm_lua :: "'r redis \<Rightarrow> string \<Rightarrow> 'r \<Rightarrow> reply \<times> 'r" where
  "confirm_lua R k1 r =
     lua_call R (GET k1) r (\<lambda>rep r.
       let reserved = reply_number R rep in
       if reserved = None \<or> the reserved \<le> 0 then (RInt (- 1), r)
       else lua_call R (DECR k1) r (\<lambda>_ r. (RInt 1, r)))"

definition waitlist_join_lua ::
  "'r redis \<Rightarrow> string \<Rightarrow> string \<Rightarrow> string \<Rightarrow> string \<Rightarrow> 'r \<Rightarrow> reply \<times> 'r" where
  "waitlist_join_lua R k1 k2 user timestamp r =
     lua_call R (GET k1) r (\<lambda>rep r.
       let available = reply_number R rep in
       if available \<noteq> None \<and> the available > 0 then (RInt (- 1), r)
       else lua_call R (ZSCORE k2 user) r (\<lambda>existing r.
         if existing \<noteq> RNil then (RInt (- 2), r)
         else lua_call R (ZADD k2 timestamp user) r (\<lambda>_ r.
           lua_call R (ZRANK k2 user) r (\<lambda>rank r. (rank, r)))))"

definition waitlist_promote_lua ::
  "'r redis \<Rightarrow> string \<Rightarrow> string \<Rightarrow> string \<Rightarrow> 'r \<Rightarrow> reply \<times> 'r" where
  "waitlist_promote_lua R k1 k2 k3 r =
     lua_call R (GET k2) r (\<lambda>rep r.
       let available = reply_number R rep in
       if available = None \<or> the available \<le> 0 then (RBulk ''-1'', r)
       else lua_call R (ZPOPMIN k1) r (\<lambda>result r.
         case result of
           RArr (user_id # _) \<Rightarrow>
             lua_call R (DECR k2) r (\<lambda>_ r.
               lua_call R (INCR k3) r (\<lambda>_ r. (RBulk user_id, r)))
         | _ \<Rightarrow> (RBulk ''-1'', r)))"

text \<open>
  \<open>token_bucket.lua\<close>.  A missing hash field is \<open>false\<close>, which \<open>tonumber\<close> turns into nil, and arithmetic on nil raises an
  error.  Each arithmetic operation rounds to a double; \<open>redis.call\<close> writes a number
  with the interpreter's \<open>tostring\<close>, and the returned number is converted to an integer.
\<close>

definition lua_field :: "'r redis \<Rightarrow> reply \<Rightarrow> nat \<Rightarrow> rat option" where
  "lua_field R rep i = (case rep of
       RBulks vs \<Rightarrow> if i < length vs then Option.bind (vs ! i) (lua_tonumber R) else None
     | _ \<Rightarrow> None)"

definition lua_nil_error :: reply where
  "lua_nil_error = RErr ''ERR attempt to perform arithmetic on a nil value''"

definition bucket_refill :: "(rat \<Rightarrow> rat) \<Rightarrow> rat \<Rightarrow> rat \<Rightarrow> rat \<Rightarrow> rat \<Rightarrow> rat \<Rightarrow> rat" where
  "bucket_refill rnd capacity rate now tokens last_refill =
     (let elapsed = rnd (rnd (now - last_refill) / 1000)
      in min capacity (rnd (tokens + rnd (elapsed * rate))))"

definition token_bucket_lua ::
  "'r redis \<Rightarrow> string \<Rightarrow> string \<Rightarrow> string \<Rightarrow> string \<Rightarrow> 'r \<Rightarrow> reply \<times> 'r" where
  "token_bucket_lua R k1 a1 a2 a3 r =
     lua_call R (HMGET k1 [''tokens'', ''last_refill'']) r (\<lambda>bucket r.
       let tokens = lua_field R bucket 0; last_refill = lua_field R bucket 1;
           capacity = lua_tonumber R a1; rate = lua_tonumber R a2; now = lua_tonumber R a3;
           (tokens, last_refill) = (if tokens = None then (capacity, now) else (tokens, last_refill))
       in if now = None \<or> last_refill = None \<or> rate = None \<or> tokens = None \<or> capacity = None
          then (lua_nil_error, r)
          else let tokens = bucket_refill (lua_round R) (the capacity) (the rate) (the now) (the tokens) (the last_refill)
               in if tokens < 1 then (RInt (- 1), r)
                  else let tokens = lua_round R (tokens - 1)
                       in lua_call R (HMSET k1 [(''tokens'', lua_tostring R tokens),
                            (''last_refill'', lua_tostring R (the now))]) r (\<lambda>_ r.
                          lua_call R (EXPIRE k1 60) r (\<lambda>_ r. (RInt \<lfloor>tokens\<rfloor>, r))))"

datatype script = Reserve_lua | Release_lua | Confirm_lua | Waitlist_join_lua | Waitlist_promote_lua
  | Token_bucket_lua

text \<open>
  \<open>EVALSHA\<close> with the KEYS and ARGV the Go client passes.  A call with the wrong number of keys
  would make \<open>redis.call\<close> raise an error.
\<close>

definition arg_error :: reply where
  "arg_error = RErr ''ERR Lua redis lib command arguments must be strings or integers''"

definition run_script :: "'r redis \<Rightarrow> script \<Rightarrow> string list \<Rightarrow> string list \<Rightarrow> 'r \<Rightarrow> reply \<times> 'r" where
  "run_script R sc keys argv r =
     (case sc of
        Reserve_lua \<Rightarrow> (case keys of [k1, k2] \<Rightarrow> reserve_lua R k1 k2 r | _ \<Rightarrow> (arg_error, r))
      | Release_lua \<Rightarrow> (case keys of [k1, k2] \<Rightarrow> release_lua R k1 k2 r | _ \<Rightarrow> (arg_error, r))
      | Confirm_lua \<Rightarrow> (case keys of k1 # _ \<Rightarrow> confirm_lua R k1 r | _ \<Rightarrow> (arg_error, r))
      | Waitlist_join_lua \<Rightarrow> (case keys of [k1, k2] \<Rightarrow>
            (case argv of [a1, a2] \<Rightarrow> waitlist_join_lua R k1 k2 a1 a2 r | _ \<Rightarrow> (arg_error, r))
          | _ \<Rightarrow> (arg_error, r))
      | Waitlist_promote_lua \<Rightarrow> (case keys of [k1, k2, k3] \<Rightarrow> waitlist_promote_lua R k1 k2 k3 r
          | _ \<Rightarrow> (arg_error, r))
      | Token_bucket_lua \<Rightarrow> (case keys of [k1] \<Rightarrow>
            (case argv of [a1, a2, a3] \<Rightarrow> token_bucket_lua R k1 a1 a2 a3 r | _ \<Rightarrow> (arg_error, r))
          | _ \<Rightarrow> (arg_error, r)))"

lemma run_script_simps [simp]:
  "run_script R Reserve_lua [k1, k2] argv r = reserve_lua R k1 k2 r"
  "run_script R Release_lua [k1, k2] argv r = release_lua R k1 k2 r"
  "run_script R Confirm_lua (k1 # ks) argv r = confirm_lua R k1 r"
  "run_script R Waitlist_join_lua [k1, k2] [a1, a2] r = waitlist_join_lua R k1 k2 a1 a2 r"
  "run_script R Waitlist_promote_lua [k1, k2, k3] argv r = waitlist_promote_lua R k1 k2 k3 r"
  "run_script R Token_bucket_lua [k1] [a1, a2, a3] r = token_bucket_lua R k1 a1 a2 a3 r"
  by (simp_all add: run_script_def)

section \<open>Abstract stock counters\<close>

text \<open>
  The specification of the counter scripts: a sale's stock is the pair of its available and
  its reserved count.  \<open>cnt i\<close> is the Redis entry of a counter, a decimal string that never
  expires.
\<close>

type_synonym stock = "int \<times> int"

fun spec_reserve :: "stock \<Rightarrow> int \<times> stock" where
  "spec_reserve (a, b) = (if a \<le> 0 then (- 1, (a, b)) else (1, (a - 1, b + 1)))"

fun spec_release :: "stock \<Rightarrow> int \<times> stock" where
  "spec_release (a, b) = (1, (a + 1, b - 1))"

fun spec_confirm :: "stock \<Rightarrow> int \<times> stock" where
  "spec_confirm (a, b) = (if b \<le> 0 then (- 1, (a, b)) else (1, (a, b - 1)))"

definition cnt :: "int \<Rightarrow> entry" where
  "cnt i = (Str (Itoa i), None)"

definition cval :: "entry option \<Rightarrow> int" where
  "cval e = (case e of Some (Str s, _) \<Rightarrow> (case string2ll s of Some i \<Rightarrow> i | None \<Rightarrow> 0) | _ \<Rightarrow> 0)"

definition is_cnt :: "entry option \<Rightarrow> bool" where
  "is_cnt e \<longleftrightarrow> in64 (cval e) \<and> e = Some (cnt (cval e))"

definition no_stock :: "keyspace \<Rightarrow> string \<Rightarrow> bool" where
  "no_stock ks k \<longleftrightarrow> ks k = None \<or> (is_cnt (ks k) \<and> cval (ks k) \<le> 0)"

definition stock_at :: "keyspace \<Rightarrow> string \<Rightarrow> string \<Rightarrow> stock \<Rightarrow> bool" where
  "stock_at ks k1 k2 st \<longleftrightarrow> k1 \<noteq> k2 \<and> in64 (fst st) \<and> in64 (snd st) \<and>
     ks k1 = Some (cnt (fst st)) \<and> ks k2 = Some (cnt (snd st))"

definition set_stock :: "keyspace \<Rightarrow> string \<Rightarrow> string \<Rightarrow> stock \<Rightarrow> keyspace" where
  "set_stock ks k1 k2 st = ks(k1 \<mapsto> cnt (fst st), k2 \<mapsto> cnt (snd st))"

lemma holds_int_cnt [simp]: "in64 i \<Longrightarrow> holds_int (Some (cnt i)) i"
  by (simp add: cnt_def)

lemma ttl_of_cnt [simp]: "ttl_of (Some (cnt i)) = None"
  by (simp add: cnt_def)

lemma cnt_inject [simp]: "cnt i = cnt j \<longleftrightarrow> i = j"
  by (simp add: cnt_def)

lemma cval_cnt [simp]: "in64 i \<Longrightarrow> cval (Some (cnt i)) = i"
  by (simp add: cval_def cnt_def string2ll_iff [THEN iffD2])

lemma is_cnt_cnt [simp]: "in64 i \<Longrightarrow> is_cnt (Some (cnt i))"
  by (simp add: is_cnt_def)

lemma stock_at_unique: "stock_at ks k1 k2 st \<Longrightarrow> stock_at ks k1 k2 st' \<Longrightarrow> st = st'"
  by (cases st; cases st') (simp add: stock_at_def)

lemma stock_at_set [simp]:
  "stock_at ks k1 k2 st \<Longrightarrow> in64 (fst st') \<Longrightarrow> in64 (snd st') \<Longrightarrow>
     stock_at (set_stock ks k1 k2 st') k1 k2 st'"
  by (simp add: stock_at_def set_stock_def)

lemma set_stock_same: "stock_at ks k1 k2 st \<Longrightarrow> set_stock ks k1 k2 st = ks"
  by (auto simp: stock_at_def set_stock_def)

section \<open>What the scripts do\<close>

context redis_server
begin

lemma lua_call_ok:
  assumes "fst (redis_call R c r) = rep" "\<forall>e. rep \<noteq> RErr e"
  shows "lua_call R c r f = f rep (snd (redis_call R c r))"
  using assms by (auto simp: lua_call_def split: prod.splits reply.splits)

lemma lua_call_err:
  assumes "fst (redis_call R c r) = RErr e"
  shows "lua_call R c r f = (RErr e, snd (redis_call R c r))"
  using assms by (auto simp: lua_call_def split: prod.splits)

text \<open>Symbolic execution of \<open>redis.call\<close> on counters.\<close>

lemma lua_get_cnt:
  assumes "is_cnt (view r k)"
  shows "lua_call R (GET k) r f = f (RBulk (Itoa (cval (view r k)))) (snd (redis_call R (GET k) r))"
proof (rule lua_call_ok)
  from assms obtain i where i: "cval (view r k) = i" "view r k = Some (cnt i)"
    by (metis is_cnt_def)
  then have "fst (redis_call R (GET k) r) = RBulk (Itoa i)"
    by (simp only: get_reply i(2)) (simp add: cnt_def)
  with i(1) show "fst (redis_call R (GET k) r) = RBulk (Itoa (cval (view r k)))" by simp
qed simp

lemma lua_get_none: "view r k = None \<Longrightarrow>
    lua_call R (GET k) r f = f RNil (snd (redis_call R (GET k) r))"
  by (rule lua_call_ok) (simp_all add: get_reply)

lemma cnt_holds: "is_cnt e \<Longrightarrow> holds_int e (cval e)" "is_cnt e \<Longrightarrow> ttl_of e = None"
  by (metis holds_int_cnt is_cnt_def, metis is_cnt_def ttl_of_cnt)

lemma lua_incr_cnt:
  assumes "is_cnt (view r k)" "in64 (cval (view r k) + 1)"
  shows "lua_call R (INCR k) r f = f (RInt (cval (view r k) + 1)) (snd (redis_call R (INCR k) r))"
    and "view (snd (redis_call R (INCR k) r)) = (view r)(k \<mapsto> cnt (cval (view r k) + 1))"
proof -
  note h = cnt_holds [OF assms(1)]
  show "lua_call R (INCR k) r f = f (RInt (cval (view r k) + 1)) (snd (redis_call R (INCR k) r))"
    by (rule lua_call_ok) (simp_all add: incr_ok [OF h(1) assms(2)])
  show "view (snd (redis_call R (INCR k) r)) = (view r)(k \<mapsto> cnt (cval (view r k) + 1))"
    using incr_view [OF h(1) assms(2)] h(2) by (simp add: cnt_def)
qed

lemma lua_decr_cnt:
  assumes "is_cnt (view r k)" "in64 (cval (view r k) - 1)"
  shows "lua_call R (DECR k) r f = f (RInt (cval (view r k) - 1)) (snd (redis_call R (DECR k) r))"
    and "view (snd (redis_call R (DECR k) r)) = (view r)(k \<mapsto> cnt (cval (view r k) - 1))"
proof -
  note h = cnt_holds [OF assms(1)]
  show "lua_call R (DECR k) r f = f (RInt (cval (view r k) - 1)) (snd (redis_call R (DECR k) r))"
    by (rule lua_call_ok) (simp_all add: decr_ok [OF h(1) assms(2)])
  show "view (snd (redis_call R (DECR k) r)) = (view r)(k \<mapsto> cnt (cval (view r k) - 1))"
    using decr_view [OF h(1) assms(2)] h(2) by (simp add: cnt_def)
qed

lemma lua_incr_full:
  assumes "view r k = Some (cnt i)" "in64 i" "\<not> in64 (i + 1)"
  shows "\<exists>e. lua_call R (INCR k) r f = (RErr e, snd (redis_call R (INCR k) r))"
    and "view (snd (redis_call R (INCR k) r)) = view r"
proof -
  have "holds_int (view r k) i" by (simp add: assms)
  then have n: "\<forall>j. holds_int (view r k) j \<longrightarrow> \<not> in64 (j + 1)"
    using assms(3) holds_int_unique by metis
  from incr_err [OF n] lua_call_err
  show "\<exists>e. lua_call R (INCR k) r f = (RErr e, snd (redis_call R (INCR k) r))"
    and "view (snd (redis_call R (INCR k) r)) = view r" by blast+
qed

lemma is_cnt_in64: "is_cnt e \<Longrightarrow> in64 (cval e)"
  by (simp add: is_cnt_def)

lemma reply_number_cnt:
  assumes "in64 i"
  shows "(reply_number R (RBulk (Itoa i)) = None) = False"
    and "the (reply_number R (RBulk (Itoa i))) \<le> 0 \<longleftrightarrow> i \<le> 0"
    and "0 < the (reply_number R (RBulk (Itoa i))) \<longleftrightarrow> 0 < i"
  using tonumber_sign [OF assms] by (auto simp: reply_number_def)

lemma reply_number_nil: "reply_number R RNil = None"
  by (simp add: reply_number_def)

lemmas lua_simps = lua_get_cnt lua_get_none lua_incr_cnt lua_decr_cnt Let_def reply_number_cnt
  reply_number_nil is_cnt_in64

text \<open>\<open>reserve.lua\<close> on every branch.\<close>

lemma reserve_lua_ok:
  assumes "stock_at (view r) k1 k2 (a, b)" "0 < a" "in64 (b + 1)"
  shows "fst (reserve_lua R k1 k2 r) = RInt 1"
    and "view (snd (reserve_lua R k1 k2 r)) = set_stock (view r) k1 k2 (a - 1, b + 1)"
proof -
  from assms have "in64 (a - 1)" by (simp add: stock_at_def in64_def)
  with assms show "fst (reserve_lua R k1 k2 r) = RInt 1"
    and "view (snd (reserve_lua R k1 k2 r)) = set_stock (view r) k1 k2 (a - 1, b + 1)"
    by (auto simp: reserve_lua_def stock_at_def set_stock_def lua_simps)
qed

lemma reserve_lua_sold_out:
  assumes "view r k1 = None \<or> (is_cnt (view r k1) \<and> cval (view r k1) \<le> 0)"
  shows "fst (reserve_lua R k1 k2 r) = RInt (- 1)" and "view (snd (reserve_lua R k1 k2 r)) = view r"
  using assms by (auto simp: reserve_lua_def lua_simps)

text \<open>\<open>release.lua\<close>: when the first counter is at its maximum nothing changes.\<close>

lemma release_lua_ok:
  assumes "stock_at (view r) k1 k2 (a, b)" "in64 (a + 1)" "in64 (b - 1)"
  shows "fst (release_lua R k1 k2 r) = RInt 1"
    and "view (snd (release_lua R k1 k2 r)) = set_stock (view r) k1 k2 (a + 1, b - 1)"
  using assms by (auto simp: release_lua_def stock_at_def set_stock_def lua_simps)

lemma release_lua_full:
  assumes "view r k1 = Some (cnt a)" "in64 a" "\<not> in64 (a + 1)"
  shows "\<exists>e. fst (release_lua R k1 k2 r) = RErr e" and "view (snd (release_lua R k1 k2 r)) = view r"
proof -
  obtain e where "release_lua R k1 k2 r = (RErr e, snd (redis_call R (INCR k1) r))"
    using lua_incr_full(1) [OF assms] by (metis release_lua_def)
  then show "\<exists>e. fst (release_lua R k1 k2 r) = RErr e"
    and "view (snd (release_lua R k1 k2 r)) = view r"
    by (simp_all add: lua_incr_full(2) [OF assms])
qed

text \<open>\<open>confirm.lua\<close>.\<close>

lemma confirm_lua_ok:
  assumes "is_cnt (view r k)" "0 < cval (view r k)"
  shows "fst (confirm_lua R k r) = RInt 1"
    and "view (snd (confirm_lua R k r)) = (view r)(k \<mapsto> cnt (cval (view r k) - 1))"
proof -
  from assms have "in64 (cval (view r k) - 1)" by (simp add: is_cnt_def in64_def)
  with assms show "fst (confirm_lua R k r) = RInt 1"
    and "view (snd (confirm_lua R k r)) = (view r)(k \<mapsto> cnt (cval (view r k) - 1))"
    by (simp_all add: confirm_lua_def lua_simps)
qed

lemma confirm_lua_refused:
  assumes "view r k = None \<or> (is_cnt (view r k) \<and> cval (view r k) \<le> 0)"
  shows "fst (confirm_lua R k r) = RInt (- 1)" and "view (snd (confirm_lua R k r)) = view r"
  using assms by (auto simp: confirm_lua_def lua_simps)

text \<open>\<open>waitlist_join.lua\<close>: refused while stock is available, refused for a member, else ranked.\<close>

lemma lua_zscore:
  assumes "holds_zset (view r k) zs"
  shows "m \<in> zmembers zs \<Longrightarrow>
      \<exists>s. \<forall>f. lua_call R (ZSCORE k m) r f = f (RBulk s) (snd (redis_call R (ZSCORE k m) r))"
    and "m \<notin> zmembers zs \<Longrightarrow> lua_call R (ZSCORE k m) r f = f RNil (snd (redis_call R (ZSCORE k m) r))"
  using zscore_reply [OF assms, of m] lua_call_ok [of "ZSCORE k m" r] by auto

lemma lua_zrank:
  assumes "holds_zset (view r k) zs" "m \<in> zmembers zs"
  shows "lua_call R (ZRANK k m) r f = f (RInt (zindex m zs)) (snd (redis_call R (ZRANK k m) r))"
  by (rule lua_call_ok) (simp_all add: zrank_reply [OF assms(1)] assms(2))

lemma lua_zadd:
  assumes "holds_zset (view r k) zs" "m \<notin> zmembers zs" "\<bar>t\<bar> \<le> 2 ^ 53"
  shows "lua_call R (ZADD k (Itoa t) m) r f = f (RInt 1) (snd (redis_call R (ZADD k (Itoa t) m) r))"
  by (rule lua_call_ok) (simp_all add: zadd_new [OF assms])

lemma waitlist_join_stock:
  assumes "is_cnt (view r k1)" "0 < cval (view r k1)"
  shows "fst (waitlist_join_lua R k1 k2 u t r) = RInt (- 1)"
    and "view (snd (waitlist_join_lua R k1 k2 u t r)) = view r"
  using assms by (simp_all add: waitlist_join_lua_def lua_simps)

lemma waitlist_join_skip:
  assumes "no_stock (view r) k1"
  shows "\<exists>r1. view r1 = view r \<and> waitlist_join_lua R k1 k2 u t r =
     lua_call R (ZSCORE k2 u) r1 (\<lambda>existing r.
       if existing \<noteq> RNil then (RInt (- 2), r)
       else lua_call R (ZADD k2 t u) r (\<lambda>_ r. lua_call R (ZRANK k2 u) r (\<lambda>rank r. (rank, r))))"
  using assms unfolding no_stock_def
  by (intro exI [of _ "snd (redis_call R (GET k1) r)"]) (auto simp: waitlist_join_lua_def lua_simps)

lemma waitlist_join_member:
  assumes "no_stock (view r) k1" "holds_zset (view r k2) zs" "u \<in> zmembers zs"
  shows "fst (waitlist_join_lua R k1 k2 u t r) = RInt (- 2)"
    and "view (snd (waitlist_join_lua R k1 k2 u t r)) = view r"
proof -
  obtain r1 where v: "view r1 = view r" and e: "waitlist_join_lua R k1 k2 u t r =
     lua_call R (ZSCORE k2 u) r1 (\<lambda>existing r.
       if existing \<noteq> RNil then (RInt (- 2), r)
       else lua_call R (ZADD k2 t u) r (\<lambda>_ r. lua_call R (ZRANK k2 u) r (\<lambda>rank r. (rank, r))))"
    using waitlist_join_skip [OF assms(1)] by blast
  have "waitlist_join_lua R k1 k2 u t r = (RInt (- 2), snd (redis_call R (ZSCORE k2 u) r1))"
    unfolding e using lua_zscore(1) [of r1 k2 zs u] assms v by fastforce
  with v show "fst (waitlist_join_lua R k1 k2 u t r) = RInt (- 2)"
    and "view (snd (waitlist_join_lua R k1 k2 u t r)) = view r" by simp_all
qed

lemma waitlist_join_new:
  assumes "no_stock (view r) k1" "holds_zset (view r k2) zs" "u \<notin> zmembers zs" "\<bar>t\<bar> \<le> 2 ^ 53"
  shows "fst (waitlist_join_lua R k1 k2 u (Itoa t) r) = RInt (zindex u (insort (t, u) zs))"
    and "view (snd (waitlist_join_lua R k1 k2 u (Itoa t) r)) =
      (view r)(k2 \<mapsto> (ZSet (insort (t, u) zs), ttl_of (view r k2)))"
proof -
  obtain r1 where v: "view r1 = view r" and e: "waitlist_join_lua R k1 k2 u (Itoa t) r =
     lua_call R (ZSCORE k2 u) r1 (\<lambda>existing r.
       if existing \<noteq> RNil then (RInt (- 2), r)
       else lua_call R (ZADD k2 (Itoa t) u) r (\<lambda>_ r. lua_call R (ZRANK k2 u) r (\<lambda>rank r. (rank, r))))"
    using waitlist_join_skip [OF assms(1)] by blast
  define r2 where "r2 = snd (redis_call R (ZSCORE k2 u) r1)"
  define r3 where "r3 = snd (redis_call R (ZADD k2 (Itoa t) u) r2)"
  have v2: "view r2 = view r" using v by (simp add: r2_def)
  with assms have h2: "holds_zset (view r2 k2) zs" by simp
  have v3: "view r3 = (view r)(k2 \<mapsto> (ZSet (insort (t, u) zs), ttl_of (view r k2)))"
    using zadd_view [OF h2 assms(3,4)] v2 by (simp add: r3_def)
  have "waitlist_join_lua R k1 k2 u (Itoa t) r =
      lua_call R (ZRANK k2 u) r3 (\<lambda>rank r. (rank, r))"
    unfolding e r3_def using lua_zadd [OF h2 assms(3,4)] lua_zscore(2) [of r1 k2 zs u] assms v
    by (simp add: r2_def)
  also have "\<dots> = (RInt (zindex u (insort (t, u) zs)), snd (redis_call R (ZRANK k2 u) r3))"
    by (rule lua_zrank) (simp_all add: v3)
  finally show "fst (waitlist_join_lua R k1 k2 u (Itoa t) r) = RInt (zindex u (insort (t, u) zs))"
    and "view (snd (waitlist_join_lua R k1 k2 u (Itoa t) r)) =
      (view r)(k2 \<mapsto> (ZSet (insort (t, u) zs), ttl_of (view r k2)))"
    by (simp_all add: v3)
qed

text \<open>\<open>waitlist_promote.lua\<close>: pops the first member and moves one unit, or answers \<open>-1\<close>.\<close>

lemma waitlist_promote_none:
  assumes "no_stock (view r) k2"
  shows "fst (waitlist_promote_lua R k1 k2 k3 r) = RBulk ''-1''"
    and "view (snd (waitlist_promote_lua R k1 k2 k3 r)) = view r"
  using assms unfolding no_stock_def by (auto simp: waitlist_promote_lua_def lua_simps)

lemma lua_zpopmin:
  assumes "holds_zset (view r k) zs"
  shows "zs = [] \<Longrightarrow> lua_call R (ZPOPMIN k) r f = f (RArr []) (snd (redis_call R (ZPOPMIN k) r))"
    and "zs = (t, m) # zs' \<Longrightarrow>
      \<exists>s. \<forall>f. lua_call R (ZPOPMIN k) r f = f (RArr [m, s]) (snd (redis_call R (ZPOPMIN k) r))"
  using zpopmin_empty [of r k] zpopmin [of r k t m zs'] assms lua_call_ok [of "ZPOPMIN k" r] by auto

lemma waitlist_promote_empty:
  assumes "is_cnt (view r k2)" "0 < cval (view r k2)" "holds_zset (view r k1) []"
  shows "fst (waitlist_promote_lua R k1 k2 k3 r) = RBulk ''-1''"
    and "view (snd (waitlist_promote_lua R k1 k2 k3 r)) = view r"
  using assms by (simp_all add: waitlist_promote_lua_def lua_simps lua_zpopmin(1) zpopmin_empty)

lemma waitlist_promote_ok:
  assumes "stock_at (view r) k2 k3 (a, b)" "0 < a" "in64 (b + 1)"
    and "holds_zset (view r k1) ((t, u) # zs)" "k1 \<noteq> k2" "k1 \<noteq> k3"
  shows "fst (waitlist_promote_lua R k1 k2 k3 r) = RBulk u"
    and "view (snd (waitlist_promote_lua R k1 k2 k3 r)) =
      set_stock ((view r)(k1 := zput zs (ttl_of (view r k1)))) k2 k3 (a - 1, b + 1)"
proof -
  define r1 where "r1 = snd (redis_call R (GET k2) r)"
  define r2 where "r2 = snd (redis_call R (ZPOPMIN k1) r1)"
  have v1: "view r1 = view r" by (simp add: r1_def)
  have v2: "view r2 = (view r)(k1 := zput zs (ttl_of (view r k1)))"
    using zpopmin_view [of r1 k1 t u zs] assms(4) v1 by (simp add: r2_def)
  have s: "is_cnt (view r k2)" "cval (view r k2) = a" "in64 (a - 1)" "k2 \<noteq> k3" "in64 a" "in64 b"
    "view r k2 = Some (cnt a)" "view r k3 = Some (cnt b)"
    using assms by (auto simp: stock_at_def in64_def)
  obtain x where "\<And>f. lua_call R (ZPOPMIN k1) r1 f = f (RArr [u, x]) r2"
    using lua_zpopmin(2) [of r1 k1 "(t, u) # zs" t u zs] assms(4) v1 unfolding r2_def by auto
  then have "waitlist_promote_lua R k1 k2 k3 r = lua_call R (DECR k2) r2 (\<lambda>_ r.
      lua_call R (INCR k3) r (\<lambda>_ r. (RBulk u, r)))"
    using s assms(2) by (simp add: waitlist_promote_lua_def lua_simps r1_def [symmetric])
  then show "fst (waitlist_promote_lua R k1 k2 k3 r) = RBulk u"
    and "view (snd (waitlist_promote_lua R k1 k2 k3 r)) =
      set_stock ((view r)(k1 := zput zs (ttl_of (view r k1)))) k2 k3 (a - 1, b + 1)"
    using s assms v2 by (auto simp: lua_simps set_stock_def)
qed

text \<open>No script touches a key it was not given.\<close>

lemma lua_call_frame:
  assumes "k \<noteq> rkey c" "\<And>rep r'. view (snd (f rep r')) k = view r' k"
  shows "view (snd (lua_call R c r f)) k = view r k"
  using frame [OF assms(1), of r] assms(2)
  by (auto simp: lua_call_def split: prod.splits reply.splits)

lemmas script_defs = reserve_lua_def release_lua_def confirm_lua_def waitlist_join_lua_def
  waitlist_promote_lua_def token_bucket_lua_def

lemma run_script_frame: "k \<notin> set keys \<Longrightarrow> view (snd (run_script R sc keys argv r)) k = view r k"
  by (auto simp: run_script_def script_defs Let_def lua_call_frame case_prod_beta
      split: script.split list.split reply.split)

end

section \<open>The counter scripts implement the abstract stock\<close>

text \<open>
  C21: The three counter scripts refine the abstract stock operations.  On any Redis server, with the two
  counters of a sale at \<open>(a, b)\<close>, \<open>reserve.lua\<close>, \<open>release.lua\<close> and \<open>confirm.lua\<close> answer what \<open>spec_reserve\<close>,
  \<open>spec_release\<close> and \<open>spec_confirm\<close> answer, leave the counters at the abstract result, and change no other key.
\<close>

theorem scripts_refine:
  assumes "redis_server R view" "stock_at (view r) k1 k2 (a, b)" "in64 (a + 1)" "in64 (b + 1)" "in64 (b - 1)"
  shows "fst (reserve_lua R k1 k2 r) = RInt (fst (spec_reserve (a, b))) \<and>
      view (snd (reserve_lua R k1 k2 r)) = set_stock (view r) k1 k2 (snd (spec_reserve (a, b))) \<and>
      fst (release_lua R k1 k2 r) = RInt (fst (spec_release (a, b))) \<and>
      view (snd (release_lua R k1 k2 r)) = set_stock (view r) k1 k2 (snd (spec_release (a, b))) \<and>
      fst (confirm_lua R k2 r) = RInt (fst (spec_confirm (a, b))) \<and>
      view (snd (confirm_lua R k2 r)) = set_stock (view r) k1 k2 (snd (spec_confirm (a, b)))"
proof -
  have k: "is_cnt (view r k1)" "cval (view r k1) = a" "is_cnt (view r k2)" "cval (view r k2) = b"
    "(view r)(k1 \<mapsto> cnt a) = view r" using assms(2) by (auto simp: stock_at_def)
  note R = assms(1)
  have res: "fst (reserve_lua R k1 k2 r) = RInt (fst (spec_reserve (a, b))) \<and>
      view (snd (reserve_lua R k1 k2 r)) = set_stock (view r) k1 k2 (snd (spec_reserve (a, b)))"
    using redis_server.reserve_lua_ok [OF R assms(2) _ assms(4)] redis_server.reserve_lua_sold_out [OF R, of r k1 k2]
      k set_stock_same [OF assms(2)] by (cases "a \<le> 0") simp_all
  have con: "fst (confirm_lua R k2 r) = RInt (fst (spec_confirm (a, b))) \<and>
      view (snd (confirm_lua R k2 r)) = set_stock (view r) k1 k2 (snd (spec_confirm (a, b)))"
    using redis_server.confirm_lua_ok [OF R, of r k2] redis_server.confirm_lua_refused [OF R, of r k2] k
      set_stock_same [OF assms(2)] by (cases "b \<le> 0") (simp_all add: set_stock_def)
  show ?thesis using res con redis_server.release_lua_ok [OF R assms(2,3,5)] by simp
qed

theorem scripts_refine_witness:
  "fst (reserve_lua mem_redis ''a'' ''b'' [''a'' \<mapsto> cnt 1, ''b'' \<mapsto> cnt 2]) = RInt 1 \<and>
   snd (reserve_lua mem_redis ''a'' ''b'' [''a'' \<mapsto> cnt 1, ''b'' \<mapsto> cnt 2]) ''b'' = Some (cnt 3)"
  using scripts_refine [OF mem.redis_server_axioms, of "[''a'' \<mapsto> cnt 1, ''b'' \<mapsto> cnt 2]" "''a''" "''b''" 1 2]
  by (simp add: stock_at_def in64_def set_stock_def)

end
