(* ===== verification/Uuid_Keys.thy ===== *)
theory Uuid_Keys
  imports Prelude "HOL-Library.Word"
begin

text \<open>
  UUIDs (package \<open>github.com/google/uuid\<close>, not part of the repository) and the Redis key and
  channel names the services build from them.  The UUID codec is a parameter, the record
  \<open>uuid_lib\<close>; the locale \<open>uuid_codec\<close> states what the program relies on, and is interpreted on
  the canonical 8-4-4-4-12 hexadecimal form.  The key names are the \<open>fmt.Sprintf\<close> formats of
  the sources; the lemmas show that names of different kinds or of different sales never
  coincide, also when a part of the name is chosen by the caller.
\<close>

type_synonym uuid = "128 word"

record uuid_lib =
  uuid_String :: "uuid \<Rightarrow> string"
  uuid_Parse :: "string \<Rightarrow> uuid option"

section \<open>Key names\<close>

definition availableKey :: "string \<Rightarrow> string" where
  "availableKey saleID = ''sale:'' @ saleID @ '':available''"

definition reservedKey :: "string \<Rightarrow> string" where
  "reservedKey saleID = ''sale:'' @ saleID @ '':reserved''"

definition metaKey :: "string \<Rightarrow> string" where
  "metaKey saleID = ''sale:'' @ saleID @ '':meta''"

definition waitlistKey :: "string \<Rightarrow> string" where
  "waitlistKey saleID = ''sale:'' @ saleID @ '':waitlist''"

definition idempotencyKeyName :: "string \<Rightarrow> string \<Rightarrow> string" where
  "idempotencyKeyName saleID key = ''sale:'' @ saleID @ '':idempotency:'' @ key"

definition ttlKey :: "string \<Rightarrow> string" where
  "ttlKey reservationID = ''reservation:'' @ reservationID @ '':ttl''"

definition ratelimitKey :: "string \<Rightarrow> string" where
  "ratelimitKey userID = ''ratelimit:'' @ userID"

definition saleChannel :: "string \<Rightarrow> string" where
  "saleChannel saleID = ''sale:'' @ saleID @ '':pubsub''"

definition userChannel :: "string \<Rightarrow> string" where
  "userChannel userID = ''user:'' @ userID @ '':events''"

lemmas key_defs = availableKey_def reservedKey_def metaKey_def waitlistKey_def
  idempotencyKeyName_def ttlKey_def

lemma ratelimit_key_distinct [simp]:
  "ratelimitKey u \<noteq> availableKey s" "ratelimitKey u \<noteq> reservedKey s" "ratelimitKey u \<noteq> metaKey s"
  "ratelimitKey u \<noteq> waitlistKey s" "ratelimitKey u \<noteq> idempotencyKeyName s k" "ratelimitKey u \<noteq> ttlKey s"
  "availableKey s \<noteq> ratelimitKey u" "reservedKey s \<noteq> ratelimitKey u"
  by (simp_all add: ratelimitKey_def key_defs)

text \<open>
  Keys of two sales are separated at the second colon.  Only the sale identifiers have to be
  free of colons: the idempotency key comes from a request header and may be any string.
\<close>

lemma sale_key_eq [colon_simps]:
  "colon_free s \<Longrightarrow> colon_free t \<Longrightarrow> availableKey s = availableKey t \<longleftrightarrow> s = t"
  "colon_free s \<Longrightarrow> colon_free t \<Longrightarrow> reservedKey s = reservedKey t \<longleftrightarrow> s = t"
  "colon_free s \<Longrightarrow> colon_free t \<Longrightarrow> waitlistKey s = waitlistKey t \<longleftrightarrow> s = t"
  "colon_free s \<Longrightarrow> colon_free t \<Longrightarrow> metaKey s = metaKey t \<longleftrightarrow> s = t"
  "colon_free s \<Longrightarrow> colon_free t \<Longrightarrow> ttlKey s = ttlKey t \<longleftrightarrow> s = t"
  by (simp_all add: key_defs colon_simps)

lemma key_kinds_distinct [colon_simps]:
  assumes "colon_free s" "colon_free t"
  shows "availableKey s \<noteq> reservedKey t" "reservedKey s \<noteq> availableKey t"
    and "availableKey s \<noteq> metaKey t" "metaKey s \<noteq> availableKey t"
    and "availableKey s \<noteq> waitlistKey t" "waitlistKey s \<noteq> availableKey t"
    and "reservedKey s \<noteq> metaKey t" "metaKey s \<noteq> reservedKey t"
    and "reservedKey s \<noteq> waitlistKey t" "waitlistKey s \<noteq> reservedKey t"
    and "metaKey s \<noteq> waitlistKey t" "waitlistKey s \<noteq> metaKey t"
  using assms by (simp_all add: key_defs colon_simps)

lemma idempotency_key_distinct [colon_simps]:
  assumes "colon_free s" "colon_free t"
  shows "idempotencyKeyName s k \<noteq> availableKey t" "availableKey t \<noteq> idempotencyKeyName s k"
    and "idempotencyKeyName s k \<noteq> reservedKey t" "reservedKey t \<noteq> idempotencyKeyName s k"
    and "idempotencyKeyName s k \<noteq> waitlistKey t" "waitlistKey t \<noteq> idempotencyKeyName s k"
    and "idempotencyKeyName s k \<noteq> metaKey t" "metaKey t \<noteq> idempotencyKeyName s k"
  using assms by (simp_all add: key_defs colon_simps)

lemma idempotency_key_inject [colon_simps]:
  "colon_free s \<Longrightarrow> colon_free t \<Longrightarrow>
     idempotencyKeyName s k = idempotencyKeyName t l \<longleftrightarrow> s = t \<and> k = l"
  by (simp add: key_defs colon_simps)

lemma ttl_key_distinct [colon_simps]:
  "ttlKey u \<noteq> availableKey t" "availableKey t \<noteq> ttlKey u"
  "ttlKey u \<noteq> reservedKey t" "reservedKey t \<noteq> ttlKey u"
  "ttlKey u \<noteq> waitlistKey t" "waitlistKey t \<noteq> ttlKey u"
  "ttlKey u \<noteq> metaKey t" "metaKey t \<noteq> ttlKey u"
  "ttlKey u \<noteq> idempotencyKeyName s k" "idempotencyKeyName s k \<noteq> ttlKey u"
  by (simp_all add: key_defs)

lemma Split_ttlKey:
  "colon_free u \<Longrightarrow> Split (ttlKey u) = [''reservation'', u, ''ttl'']"
  by (simp add: Split_def ttlKey_def colon_free_def split_on_prefix split_on_free)

section \<open>The codec the program relies on\<close>

text \<open>
  \<open>UUID.String\<close> is 36 characters of hexadecimal digits and hyphens, and \<open>uuid.Parse\<close> reads it
  back.
\<close>

locale uuid_codec =
  fixes L :: uuid_lib
  assumes parse_string: "uuid_Parse L (uuid_String L u) = Some u"
    and string_colon_free: "colon_free (uuid_String L u)"
    and string_length: "length (uuid_String L u) = 36"
begin

lemma string_inject [simp]: "uuid_String L u = uuid_String L v \<longleftrightarrow> u = v"
  by (metis option.inject parse_string)

lemmas codec_keys = string_colon_free sale_key_eq [OF string_colon_free string_colon_free]
  key_kinds_distinct [OF string_colon_free string_colon_free]
  idempotency_key_distinct [OF string_colon_free string_colon_free]
  idempotency_key_inject [OF string_colon_free string_colon_free] ttl_key_distinct

lemma string_nonempty: "uuid_String L u \<noteq> []"
  using string_length [of u] by auto

lemma string_not_minus_one: "uuid_String L u \<noteq> ''-1''"
proof
  assume "uuid_String L u = ''-1''"
  with string_length [of u] show False by simp
qed

end

section \<open>The canonical textual form\<close>

definition hexdigit :: "nat \<Rightarrow> char" where
  "hexdigit d = (if d < 10 then char_of (48 + d) else char_of (87 + d))"

definition hexval :: "char \<Rightarrow> nat option" where
  "hexval c = (let n = of_char c :: nat in
     if 48 \<le> n \<and> n \<le> 57 then Some (n - 48)
     else if 97 \<le> n \<and> n \<le> 102 then Some (n - 87) else None)"

fun hex :: "nat \<Rightarrow> nat \<Rightarrow> string" where
  "hex 0 n = []"
| "hex (Suc k) n = hex k (n div 16) @ [hexdigit (n mod 16)]"

fun unhex :: "string \<Rightarrow> nat \<Rightarrow> nat option" where
  "unhex [] acc = Some acc"
| "unhex (c # cs) acc = (case hexval c of None \<Rightarrow> None | Some d \<Rightarrow> unhex cs (acc * 16 + d))"

definition hyphenate :: "string \<Rightarrow> string" where
  "hyphenate h = take 8 h @ ''-'' @ take 4 (drop 8 h) @ ''-'' @ take 4 (drop 12 h) @ ''-''
     @ take 4 (drop 16 h) @ ''-'' @ drop 20 h"

definition canonical_uuid :: uuid_lib where
  "canonical_uuid = \<lparr>
     uuid_String = (\<lambda>u. hyphenate (hex 32 (unat u))),
     uuid_Parse = (\<lambda>s. let h = filter (\<lambda>c. c \<noteq> CHR ''-'') s
        in if length s = 36 \<and> length h = 32 \<and> s = hyphenate h
           then map_option of_nat (unhex h 0) else None)\<rparr>"

lemma hexval_hexdigit: "d < 16 \<Longrightarrow> hexval (hexdigit d) = Some d"
  by (auto simp: hexval_def hexdigit_def)

lemma hexdigit_neq: "d < 16 \<Longrightarrow> hexdigit d \<noteq> CHR ''-'' \<and> hexdigit d \<noteq> CHR '':''"
proof -
  assume "d < 16"
  then have "hexval (hexdigit d) = Some d" by (rule hexval_hexdigit)
  moreover have "hexval CHR ''-'' = None" "hexval CHR '':'' = None" by (simp_all add: hexval_def)
  ultimately show ?thesis by auto
qed

lemma length_hex [simp]: "length (hex k n) = k"
  by (induction k arbitrary: n) auto

lemma set_hex: "c \<in> set (hex k n) \<Longrightarrow> c \<noteq> CHR ''-'' \<and> c \<noteq> CHR '':''"
  by (induction k arbitrary: n) (auto simp: hexdigit_neq)

lemma unhex_append:
  "unhex (xs @ ys) acc = (case unhex xs acc of None \<Rightarrow> None | Some a \<Rightarrow> unhex ys a)"
  by (induction xs arbitrary: acc) (auto split: option.splits)

lemma unhex_hex: "n < 16 ^ k \<Longrightarrow> unhex (hex k n) 0 = Some n"
proof (induction k arbitrary: n)
  case 0
  then show ?case by simp
next
  case (Suc k)
  then have "n div 16 < 16 ^ k" by (simp add: less_mult_imp_div_less mult.commute)
  with Suc.IH show ?case
    by (simp add: unhex_append hexval_hexdigit)
qed

lemma filter_hyphenate:
  assumes "length h = 32" "CHR ''-'' \<notin> set h"
  shows "filter (\<lambda>c. c \<noteq> CHR ''-'') (hyphenate h) = h"
proof -
  have keep: "filter (\<lambda>c. c \<noteq> CHR ''-'') xs = xs" if "set xs \<subseteq> set h" for xs
    using that assms(2) by (auto simp: filter_id_conv)
  have parts: "set (take n (drop m h)) \<subseteq> set h" "set (drop m h) \<subseteq> set h" "set (take n h) \<subseteq> set h"
    for n m by (meson set_drop_subset set_take_subset subset_trans)+
  have "take 8 h @ take 4 (drop 8 h) @ take 4 (drop 12 h) @ take 4 (drop 16 h) @ drop 20 h = h"
    using append_take_drop_id [of 8 h] append_take_drop_id [of 4 "drop 8 h"]
      append_take_drop_id [of 4 "drop 12 h"] append_take_drop_id [of 4 "drop 16 h"]
    by (simp del: append_take_drop_id)
  then show ?thesis
    by (simp add: hyphenate_def keep [OF parts(1)] keep [OF parts(2)] keep [OF parts(3)])
qed

lemma length_hyphenate: "length h = 32 \<Longrightarrow> length (hyphenate h) = 36"
  by (simp add: hyphenate_def)

lemma set_hyphenate: "set (hyphenate h) \<subseteq> insert CHR ''-'' (set h)"
  by (auto simp: hyphenate_def dest: in_set_takeD in_set_dropD)

interpretation canonical: uuid_codec canonical_uuid
proof
  fix u :: uuid
  let ?h = "hex 32 (unat u)"
  have nohy: "CHR ''-'' \<notin> set ?h" using set_hex by blast
  have "unat u < 16 ^ 32" using unsigned_less [of u] by simp
  then show "uuid_Parse canonical_uuid (uuid_String canonical_uuid u) = Some u"
    using filter_hyphenate [OF length_hex nohy]
    by (simp add: canonical_uuid_def Let_def length_hyphenate unhex_hex)
  show "colon_free (uuid_String canonical_uuid u)"
    using set_hyphenate [of ?h] set_hex by (fastforce simp: canonical_uuid_def colon_free_def)
  show "length (uuid_String canonical_uuid u) = 36"
    by (simp add: canonical_uuid_def length_hyphenate)
qed

section \<open>Property\<close>

text \<open>
  Keys never collide.  Whatever text a client sends as idempotency key, the Redis key built from it is neither a counter, a waitlist
  or the metadata of any sale nor the TTL key of a reservation, and it determines the sale and the text; the same holds for the
  bucket key built from the \<open>X-User-ID\<close> header; the counters of different sales are different keys.
\<close>

theorem keys_separate:
  assumes "uuid_codec L"
  shows "idempotencyKeyName (uuid_String L s) k \<notin> {availableKey (uuid_String L t), reservedKey (uuid_String L t),
       waitlistKey (uuid_String L t), metaKey (uuid_String L t), ttlKey (uuid_String L t)} \<and>
     ratelimitKey v \<notin> {availableKey (uuid_String L t), reservedKey (uuid_String L t), waitlistKey (uuid_String L t),
       metaKey (uuid_String L t), ttlKey (uuid_String L t), idempotencyKeyName (uuid_String L s) k} \<and>
     (idempotencyKeyName (uuid_String L s) k = idempotencyKeyName (uuid_String L t) l \<longleftrightarrow> s = t \<and> k = l) \<and>
     (availableKey (uuid_String L s) = availableKey (uuid_String L t) \<longleftrightarrow> s = t) \<and>
     (reservedKey (uuid_String L s) = reservedKey (uuid_String L t) \<longleftrightarrow> s = t) \<and>
     availableKey (uuid_String L s) \<noteq> reservedKey (uuid_String L t)"
  using assms by (simp add: uuid_codec.codec_keys uuid_codec.string_inject)

theorem keys_separate_witness:
  "idempotencyKeyName (uuid_String canonical_uuid 1) ''x:available'' \<noteq> availableKey (uuid_String canonical_uuid 2)"
  using keys_separate [OF canonical.uuid_codec_axioms, of 1 "''x:available''" 2] by simp

end
