(* ===== verification/Models.thy ===== *)
theory Models
  imports Uuid_Keys Complex_Main
begin

text \<open>
  The data of \<open>internal/models\<close>, the event payloads of \<open>internal/events\<close> and the audit entry of
  \<open>internal/audit\<close>.  Times are nanoseconds since the epoch (\<open>time.Time\<close>), Go's \<open>int\<close> is \<open>int\<close>.
  A reservation's status is one of four constants, which the schema's enum type repeats; a
  sale's status is any string, as in the source.
\<close>

type_synonym time = int

definition second :: int where
  "second = 10 ^ 9"

datatype ReservationStatus = Reserved | Confirmed | Released | Expired

record Reservation =
  res_ID :: uuid
  res_UserID :: uuid
  res_SaleID :: uuid
  res_ItemID :: uuid
  res_Status :: ReservationStatus
  res_ReservedAt :: time
  res_ConfirmedAt :: "time option"
  res_ExpiresAt :: time

record Order =
  ord_ID :: uuid
  ord_ReservationID :: uuid
  ord_UserID :: uuid
  ord_SaleID :: uuid
  ord_Amount :: rat
  ord_Status :: string
  ord_IdempotencyKey :: string
  ord_CreatedAt :: time

definition SaleStatusPending :: string where "SaleStatusPending = ''pending''"
definition SaleStatusActive :: string where "SaleStatusActive = ''active''"
definition SaleStatusPaused :: string where "SaleStatusPaused = ''paused''"
definition SaleStatusEnded :: string where "SaleStatusEnded = ''ended''"

record Sale =
  sale_ID :: uuid
  sale_Name :: string
  sale_TotalStock :: int
  sale_StartTime :: time
  sale_EndTime :: time
  sale_Status :: string
  sale_CreatedAt :: time

record SaleStats =
  Available :: int
  StatsReserved :: int
  Total :: int

text \<open>
  \<open>audit.AuditEntry\<close>.  The payloads of the reservation events are maps of strings (\<open>JsonMap\<close>);
  the reconcilers pass the already marshalled bytes of a struct with these fields (\<open>JsonBytes\<close>),
  which \<open>json.Marshal\<close> then encodes as one base64 string.
\<close>

datatype payload = JsonMap "(string \<times> string) list" | JsonBytes "(string \<times> string) list"

record AuditEntry =
  EntityType :: string
  EntityID :: uuid
  EventType :: string
  Payload :: payload

datatype event_data =
    StockUpdateData int
  | SaleEndedData string
  | WaitlistPromotedData string
  | ReservationExpiringData int
  | QueuePositionData int
  | SaleStartedData string int

record Event =
  ev_Event :: string
  ev_Data :: event_data

datatype metric =
    ReservationTotal string string     \<comment> \<open>labels \<open>sale_id\<close>, \<open>result\<close>; incremented\<close>
  | StockLevel string int              \<comment> \<open>label \<open>sale_id\<close>; the gauge's new value\<close>
  | ReconciliationCorrections int      \<comment> \<open>amount added\<close>
  | HTTPRequestsTotal string string string  \<comment> \<open>labels route, method, status; incremented\<close>
  | RateLimitedTotal string            \<comment> \<open>label user; incremented\<close>

end
