(* ===== verification/Postgres.thy ===== *)
theory Postgres
  imports Models
begin

text \<open>
  The PostgreSQL database.  The schema of \<open>migrations/*.sql\<close> and the SQL statements of the
  sources are translated here: \<open>apply_stmt\<close> gives the effect of a statement on the tables, or
  \<open>None\<close> where a constraint of the schema rejects it, and \<open>eval_query\<close> gives the rows of a
  query.  The server that runs them is not part of the repository: it is the parameter
  \<open>'p postgres\<close>, and the locale \<open>pg_server\<close> states that it executes a transaction atomically
  over its committed tables.  A transaction is known by the statements it has run so far; its
  effects are invisible before the commit.
\<close>

section \<open>Tables\<close>

type_synonym reservation_row = "Reservation \<times> bool"   \<comment> \<open>with \<open>promoted_from_waitlist\<close>\<close>

record db =
  t_users :: "uuid list"
  t_sale_items :: "(uuid \<times> uuid) list"                \<comment> \<open>(id, sale id)\<close>
  t_sales :: "Sale list"
  t_reservations :: "reservation_row list"
  t_orders :: "Order list"
  t_audit_log :: "AuditEntry list"

datatype stmt =
    InsertSale Sale
  | UpdateSaleStatus string uuid
  | InsertReservation Reservation bool
  | UpdateReservationStatus ReservationStatus uuid
  | UpdateReservationConfirmed ReservationStatus time uuid
  | InsertOrder Order
  | InsertAudit AuditEntry

section \<open>Text and time columns\<close>

text \<open>
  The database encoding is UTF-8.  \<open>utf8_tail\<close> gives the number of bytes that follow the first byte of a well-formed character, \<open>utf8_chars\<close> takes a text apart
  into its characters; the server rejects malformed texts and the character 0.
\<close>

definition cont_byte :: "nat \<Rightarrow> bool" where
  "cont_byte b \<longleftrightarrow> 0x80 \<le> b \<and> b \<le> 0xBF"

definition utf8_tail :: "char \<Rightarrow> string \<Rightarrow> nat option" where
  "utf8_tail c s =
     (let a = of_char c :: nat; b = (\<lambda>i. if i < length s then of_char (s ! i) else 0 :: nat) in
      if 1 \<le> a \<and> a \<le> 0x7F then Some 0
      else if 0xC2 \<le> a \<and> a \<le> 0xDF \<and> cont_byte (b 0) then Some 1
      else if 0xE0 \<le> a \<and> a \<le> 0xEF \<and> (if a = 0xE0 then 0xA0 else 0x80) \<le> b 0 \<and>
        b 0 \<le> (if a = 0xED then 0x9F else 0xBF) \<and> cont_byte (b 1) then Some 2
      else if 0xF0 \<le> a \<and> a \<le> 0xF4 \<and> (if a = 0xF0 then 0x90 else 0x80) \<le> b 0 \<and>
        b 0 \<le> (if a = 0xF4 then 0x8F else 0xBF) \<and> cont_byte (b 1) \<and> cont_byte (b 2) then Some 3
      else None)"

fun utf8_chars :: "string \<Rightarrow> string list option" where
  "utf8_chars [] = Some []"
| "utf8_chars (c # s) = (case utf8_tail c s of
       None \<Rightarrow> None
     | Some k \<Rightarrow> (case utf8_chars (drop k s) of None \<Rightarrow> None | Some cs \<Rightarrow> Some ((c # take k s) # cs)))"

text \<open>
  \<open>VARCHAR(n)\<close>: a longer text is refused, except that blanks beyond the limit are cut off.  \<open>varchar_fits\<close> says that a text is stored as it is.
\<close>

definition varchar_ok :: "nat \<Rightarrow> string \<Rightarrow> bool" where
  "varchar_ok n s = (case utf8_chars s of None \<Rightarrow> False | Some cs \<Rightarrow> list_all (\<lambda>c. c = '' '') (drop n cs))"

definition varchar_cut :: "nat \<Rightarrow> string \<Rightarrow> string" where
  "varchar_cut n s = (case utf8_chars s of None \<Rightarrow> s | Some cs \<Rightarrow> concat (take n cs))"

definition varchar_fits :: "nat \<Rightarrow> string \<Rightarrow> bool" where
  "varchar_fits n s = (case utf8_chars s of None \<Rightarrow> False | Some cs \<Rightarrow> length cs \<le> n)"

lemma concat_utf8_chars: "utf8_chars s = Some cs \<Longrightarrow> concat cs = s"
  by (induction s arbitrary: cs rule: utf8_chars.induct) (auto split: option.splits)

lemma varchar_fitsD: "varchar_fits n s \<Longrightarrow> varchar_ok n s" "varchar_fits n s \<Longrightarrow> varchar_cut n s = s"
  by (auto simp: varchar_fits_def varchar_ok_def varchar_cut_def concat_utf8_chars split: option.splits)

text \<open>\<open>TIMESTAMPTZ\<close> keeps microseconds; the driver cuts off the rest of a \<open>time.Time\<close>.\<close>

definition pg_time :: "time \<Rightarrow> time" where
  "pg_time t = t div 1000 * 1000"

lemma pg_time_pg_time [simp]: "pg_time (pg_time t) = pg_time t"
  by (simp add: pg_time_def)

lemma pg_time_bounds: "pg_time t \<le> t" "t < pg_time t + 1000"
  using div_mult_mod_eq [of t 1000] pos_mod_bound [of 1000 t] pos_mod_sign [of 1000 t] by (simp_all add: pg_time_def)

lemma pg_time_seconds [simp]: "pg_time (n * second) = n * second" "pg_time (second * n) = second * n"
  by (simp_all add: pg_time_def second_def)

definition stored_sale :: "Sale \<Rightarrow> Sale" where
  "stored_sale s = s\<lparr>sale_Name := varchar_cut 255 (sale_Name s), sale_StartTime := pg_time (sale_StartTime s),
     sale_EndTime := pg_time (sale_EndTime s), sale_Status := varchar_cut 50 (sale_Status s),
     sale_CreatedAt := pg_time (sale_CreatedAt s)\<rparr>"

definition stored_reservation :: "Reservation \<Rightarrow> Reservation" where
  "stored_reservation r = r\<lparr>res_ReservedAt := pg_time (res_ReservedAt r),
     res_ConfirmedAt := map_option pg_time (res_ConfirmedAt r), res_ExpiresAt := pg_time (res_ExpiresAt r)\<rparr>"

definition stored_order :: "Order \<Rightarrow> Order" where
  "stored_order x = x\<lparr>ord_CreatedAt := pg_time (ord_CreatedAt x)\<rparr>"

lemma stored_sale_sel [simp]: "sale_ID (stored_sale s) = sale_ID s" "sale_TotalStock (stored_sale s) = sale_TotalStock s"
  by (simp_all add: stored_sale_def)

lemma stored_reservation_sel [simp]:
  "res_ID (stored_reservation r) = res_ID r" "res_UserID (stored_reservation r) = res_UserID r"
  "res_SaleID (stored_reservation r) = res_SaleID r" "res_ItemID (stored_reservation r) = res_ItemID r"
  "res_Status (stored_reservation r) = res_Status r" "res_ExpiresAt (stored_reservation r) = pg_time (res_ExpiresAt r)"
  "res_ReservedAt (stored_reservation r) = pg_time (res_ReservedAt r)"
  "res_ConfirmedAt (stored_reservation r) = map_option pg_time (res_ConfirmedAt r)"
  "stored_reservation (stored_reservation r) = stored_reservation r"
  by (simp_all add: stored_reservation_def option.map_comp comp_def)

lemma stored_order_sel [simp]:
  "ord_ID (stored_order x) = ord_ID x" "ord_ReservationID (stored_order x) = ord_ReservationID x"
  "ord_UserID (stored_order x) = ord_UserID x" "ord_SaleID (stored_order x) = ord_SaleID x"
  "ord_Status (stored_order x) = ord_Status x" "ord_IdempotencyKey (stored_order x) = ord_IdempotencyKey x"
  "ord_CreatedAt (stored_order x) = pg_time (ord_CreatedAt x)" "stored_order (stored_order x) = stored_order x"
  by (simp_all add: stored_order_def)

section \<open>Constraints of the schema\<close>

text \<open>
  The types of audit entries are constants, and an idempotency key is the value of a header, which has no blanks at its end: such a text is stored as
  it is or refused.
\<close>

definition valid_confirmation :: "Reservation \<Rightarrow> bool" where
  "valid_confirmation r \<longleftrightarrow>
     (res_Status r = Confirmed \<and> res_ConfirmedAt r \<noteq> None) \<or>
     (res_Status r \<noteq> Confirmed \<and> res_ConfirmedAt r = None)"

definition sale_ok :: "db \<Rightarrow> Sale \<Rightarrow> bool" where
  "sale_ok d s \<longleftrightarrow> sale_ID s \<notin> sale_ID ` set (t_sales d) \<and> varchar_ok 255 (sale_Name s) \<and>
     in32 (sale_TotalStock s) \<and> varchar_ok 50 (sale_Status s)"

definition reservation_ok :: "db \<Rightarrow> Reservation \<Rightarrow> bool" where
  "reservation_ok d r \<longleftrightarrow>
     res_ID r \<notin> (res_ID \<circ> fst) ` set (t_reservations d) \<and>
     res_UserID r \<in> set (t_users d) \<and>
     res_SaleID r \<in> sale_ID ` set (t_sales d) \<and>
     res_ItemID r \<in> fst ` set (t_sale_items d) \<and>
     valid_confirmation r"

definition order_status_ok :: "string \<Rightarrow> bool" where
  "order_status_ok s \<longleftrightarrow> s \<in> set [''pending'', ''paid'', ''failed'', ''refunded'']"

definition order_ok :: "db \<Rightarrow> Order \<Rightarrow> bool" where
  "order_ok d x \<longleftrightarrow>
     ord_ID x \<notin> ord_ID ` set (t_orders d) \<and>
     ord_ReservationID x \<in> (res_ID \<circ> fst) ` set (t_reservations d) \<and>
     ord_UserID x \<in> set (t_users d) \<and>
     ord_SaleID x \<in> sale_ID ` set (t_sales d) \<and>
     order_status_ok (ord_Status x) \<and>
     varchar_fits 255 (ord_IdempotencyKey x) \<and>
     ord_IdempotencyKey x \<notin> ord_IdempotencyKey ` set (t_orders d)"

lemma valid_confirmation_stored [simp]: "valid_confirmation (stored_reservation r) = valid_confirmation r"
  by (simp add: valid_confirmation_def)

section \<open>Statements\<close>

definition update_rows :: "(Reservation \<Rightarrow> Reservation) \<Rightarrow> uuid \<Rightarrow> reservation_row list \<Rightarrow> reservation_row list" where
  "update_rows f i rows = map (\<lambda>(r, p). if res_ID r = i then (f r, p) else (r, p)) rows"

definition update_reservation :: "(Reservation \<Rightarrow> Reservation) \<Rightarrow> uuid \<Rightarrow> db \<Rightarrow> db option" where
  "update_reservation f i d =
     (if \<forall>(r, p) \<in> set (t_reservations d). res_ID r = i \<longrightarrow> valid_confirmation (f r)
      then Some (d\<lparr>t_reservations := update_rows f i (t_reservations d)\<rparr>)
      else None)"

fun apply_stmt :: "stmt \<Rightarrow> db \<Rightarrow> db option" where
  "apply_stmt (InsertSale s) d =
     (if sale_ok d s then Some (d\<lparr>t_sales := t_sales d @ [stored_sale s]\<rparr>) else None)"
| "apply_stmt (UpdateSaleStatus st i) d =
     (if varchar_ok 50 st
      then Some (d\<lparr>t_sales := map (\<lambda>s. if sale_ID s = i then s\<lparr>sale_Status := varchar_cut 50 st\<rparr> else s) (t_sales d)\<rparr>)
      else if utf8_chars st = None \<or> (\<exists>s \<in> set (t_sales d). sale_ID s = i) then None else Some d)"
| "apply_stmt (InsertReservation r p) d =
     (if reservation_ok d r then Some (d\<lparr>t_reservations := t_reservations d @ [(stored_reservation r, p)]\<rparr>) else None)"
| "apply_stmt (UpdateReservationStatus st i) d = update_reservation (\<lambda>r. r\<lparr>res_Status := st\<rparr>) i d"
| "apply_stmt (UpdateReservationConfirmed st t i) d =
     update_reservation (\<lambda>r. r\<lparr>res_Status := st, res_ConfirmedAt := Some (pg_time t)\<rparr>) i d"
| "apply_stmt (InsertOrder x) d =
     (if order_ok d x then Some (d\<lparr>t_orders := t_orders d @ [stored_order x]\<rparr>) else None)"
| "apply_stmt (InsertAudit a) d =
     (if varchar_fits 100 (EntityType a) \<and> varchar_fits 100 (EventType a)
      then Some (d\<lparr>t_audit_log := t_audit_log d @ [a]\<rparr>) else None)"

fun apply_stmts :: "stmt list \<Rightarrow> db \<Rightarrow> db option" where
  "apply_stmts [] d = Some d"
| "apply_stmts (st # sts) d = (case apply_stmt st d of None \<Rightarrow> None | Some d' \<Rightarrow> apply_stmts sts d')"

section \<open>Queries\<close>

datatype qry =
    SelectSale uuid
  | SelectReservation uuid
  | SelectOrderByKey string
  | SelectOrder uuid
  | CountActiveReservations uuid      \<comment> \<open>\<open>status = 'reserved' AND expires_at > NOW()\<close>\<close>
  | CountOrders uuid                  \<comment> \<open>\<open>status IN ('pending', 'paid')\<close>\<close>
  | SelectActiveSales
  | SelectExpiring                    \<comment> \<open>\<open>expires_at BETWEEN NOW() + 55 s AND NOW() + 90 s\<close>\<close>

datatype rows =
    SaleRows "Sale list"
  | ReservationRows "Reservation list"
  | OrderRows "Order list"
  | Count int

definition active_reservations :: "time \<Rightarrow> uuid \<Rightarrow> db \<Rightarrow> Reservation list" where
  "active_reservations now s d =
     filter (\<lambda>r. res_SaleID r = s \<and> res_Status r = Reserved \<and> now < res_ExpiresAt r)
       (map fst (t_reservations d))"

definition live_orders :: "uuid \<Rightarrow> db \<Rightarrow> Order list" where
  "live_orders s d =
     filter (\<lambda>x. ord_SaleID x = s \<and> (ord_Status x = ''pending'' \<or> ord_Status x = ''paid'')) (t_orders d)"

fun eval_query :: "time \<Rightarrow> qry \<Rightarrow> db \<Rightarrow> rows" where
  "eval_query now (SelectSale i) d = SaleRows (filter (\<lambda>s. sale_ID s = i) (t_sales d))"
| "eval_query now (SelectReservation i) d =
     ReservationRows (filter (\<lambda>r. res_ID r = i) (map fst (t_reservations d)))"
| "eval_query now (SelectOrderByKey k) d =
     OrderRows (filter (\<lambda>x. ord_IdempotencyKey x = k) (t_orders d))"
| "eval_query now (SelectOrder i) d = OrderRows (filter (\<lambda>x. ord_ID x = i) (t_orders d))"
| "eval_query now (CountActiveReservations s) d = Count (int (length (active_reservations now s d)))"
| "eval_query now (CountOrders s) d = Count (int (length (live_orders s d)))"
| "eval_query now SelectActiveSales d =
     SaleRows (filter (\<lambda>s. sale_Status s = SaleStatusActive) (t_sales d))"
| "eval_query now SelectExpiring d =
     ReservationRows (filter (\<lambda>r. res_Status r = Reserved \<and>
        now + 55 * second \<le> res_ExpiresAt r \<and> res_ExpiresAt r \<le> now + 90 * second)
       (map fst (t_reservations d)))"

section \<open>The server\<close>

record 'p postgres =
  pg_exec :: "stmt list \<Rightarrow> 'p \<Rightarrow> bool \<times> 'p"        \<comment> \<open>run and commit; whether it succeeded\<close>
  pg_try :: "stmt list \<Rightarrow> 'p \<Rightarrow> bool"               \<comment> \<open>run in an open transaction\<close>
  pg_query :: "time \<Rightarrow> qry \<Rightarrow> 'p \<Rightarrow> rows"

locale pg_server =
  fixes P :: "'p postgres"
    and tables :: "'p \<Rightarrow> db"
  assumes exec_ok: "apply_stmts sts (tables p) = Some d \<Longrightarrow>
      fst (pg_exec P sts p) \<and> tables (snd (pg_exec P sts p)) = d"
    and exec_fail: "apply_stmts sts (tables p) = None \<Longrightarrow>
      \<not> fst (pg_exec P sts p) \<and> tables (snd (pg_exec P sts p)) = tables p"
    and try_iff: "pg_try P sts p \<longleftrightarrow> apply_stmts sts (tables p) \<noteq> None"
    and query: "pg_query P now q p = eval_query now q (tables p)"
begin

lemma exec_fst: "fst (pg_exec P sts p) \<longleftrightarrow> apply_stmts sts (tables p) \<noteq> None"
  using exec_ok exec_fail by (cases "apply_stmts sts (tables p)") auto

lemma exec_tables: "tables (snd (pg_exec P sts p)) =
    (case apply_stmts sts (tables p) of None \<Rightarrow> tables p | Some d \<Rightarrow> d)"
  using exec_ok exec_fail by (cases "apply_stmts sts (tables p)") auto

lemmas pg_simps = exec_fst exec_tables try_iff query

end

section \<open>An in-memory database\<close>

definition mem_pg :: "db postgres" where
  "mem_pg = \<lparr>
     pg_exec = (\<lambda>sts d. case apply_stmts sts d of None \<Rightarrow> (False, d) | Some d' \<Rightarrow> (True, d')),
     pg_try = (\<lambda>sts d. apply_stmts sts d \<noteq> None),
     pg_query = (\<lambda>now q d. eval_query now q d)\<rparr>"

interpretation mempg: pg_server mem_pg "\<lambda>d. d"
  by unfold_locales (simp_all add: mem_pg_def)

section \<open>The schema's invariant\<close>

text \<open>
  Primary keys, foreign keys, the unique idempotency key and the confirmation check, as one
  predicate on the tables; every statement the sources run keeps it.  \<open>row_key\<close> is the
  identity columns of a reservation row, which no \<open>UPDATE\<close> of the sources writes.
\<close>

definition row_key :: "reservation_row \<Rightarrow> uuid \<times> uuid \<times> uuid \<times> uuid" where
  "row_key rp = (res_ID (fst rp), res_UserID (fst rp), res_SaleID (fst rp), res_ItemID (fst rp))"

definition reservation_refs :: "db \<Rightarrow> bool" where
  "reservation_refs d \<longleftrightarrow> distinct (map (res_ID \<circ> fst) (t_reservations d)) \<and>
     (\<forall>k \<in> row_key ` set (t_reservations d). fst (snd k) \<in> set (t_users d) \<and>
        fst (snd (snd k)) \<in> sale_ID ` set (t_sales d) \<and>
        snd (snd (snd k)) \<in> fst ` set (t_sale_items d))"

definition order_refs :: "db \<Rightarrow> bool" where
  "order_refs d \<longleftrightarrow> distinct (map ord_ID (t_orders d)) \<and>
     distinct (map ord_IdempotencyKey (t_orders d)) \<and>
     (\<forall>x \<in> set (t_orders d). ord_ReservationID x \<in> (res_ID \<circ> fst) ` set (t_reservations d) \<and>
        ord_UserID x \<in> set (t_users d) \<and> ord_SaleID x \<in> sale_ID ` set (t_sales d) \<and>
        order_status_ok (ord_Status x))"

definition confirmations_ok :: "db \<Rightarrow> bool" where
  "confirmations_ok d \<longleftrightarrow> list_all (valid_confirmation \<circ> fst) (t_reservations d)"

definition db_ok :: "db \<Rightarrow> bool" where
  "db_ok d \<longleftrightarrow> distinct (map sale_ID (t_sales d)) \<and> reservation_refs d \<and> order_refs d \<and>
     confirmations_ok d"

lemma apply_stmts_append:
  "apply_stmts (xs @ ys) d = (case apply_stmts xs d of None \<Rightarrow> None | Some d' \<Rightarrow> apply_stmts ys d')"
  by (induction xs arbitrary: d) (auto split: option.splits)

definition keeps_key :: "(Reservation \<Rightarrow> Reservation) \<Rightarrow> bool" where
  "keeps_key f \<longleftrightarrow> (\<forall>r p. row_key (f r, p) = row_key (r, p))"

lemma keeps_key_status [simp]:
  "keeps_key (\<lambda>r. r\<lparr>res_Status := st\<rparr>)"
  "keeps_key (\<lambda>r. r\<lparr>res_Status := st, res_ConfirmedAt := c\<rparr>)"
  by (simp_all add: keeps_key_def row_key_def)

lemma update_reservation_Some:
  assumes "update_reservation f i d = Some d'"
  shows "d' = d\<lparr>t_reservations := update_rows f i (t_reservations d)\<rparr>"
    and "\<And>r p. (r, p) \<in> set (t_reservations d) \<Longrightarrow> res_ID r = i \<Longrightarrow> valid_confirmation (f r)"
  using assms by (auto simp: update_reservation_def split: if_splits)

lemma update_reservation_row_key:
  assumes "update_reservation f i d = Some d'" "keeps_key f"
  shows "map row_key (t_reservations d') = map row_key (t_reservations d)"
  using assms(2) update_reservation_Some(1) [OF assms(1)] by (auto simp: keeps_key_def update_rows_def)

lemma update_reservation_ok:
  assumes u: "update_reservation f i d = Some d'" and k: "keeps_key f" and ok: "db_ok d"
  shows "db_ok d'"
proof -
  note d' = update_reservation_Some [OF u]
  note key = update_reservation_row_key [OF u k]
  have ids: "map (res_ID \<circ> fst) (t_reservations d') = map (res_ID \<circ> fst) (t_reservations d)"
    using arg_cong [OF key, of "map fst"] by (simp add: row_key_def comp_def)
  have img: "row_key ` set (t_reservations d') = row_key ` set (t_reservations d)"
    "(res_ID \<circ> fst) ` set (t_reservations d') = (res_ID \<circ> fst) ` set (t_reservations d)"
    using arg_cong [OF key, of set] arg_cong [OF ids, of set] by simp_all
  have rest: "t_users d' = t_users d" "t_sales d' = t_sales d" "t_sale_items d' = t_sale_items d"
    "t_orders d' = t_orders d" using d'(1) by simp_all
  have "confirmations_ok d'"
    using ok d' by (auto simp: db_ok_def confirmations_ok_def list_all_iff update_rows_def)
  with ok show ?thesis
    unfolding db_ok_def reservation_refs_def order_refs_def img ids rest by blast
qed

lemma apply_stmt_ok:
  assumes "apply_stmt st d = Some d'" "db_ok d"
  shows "db_ok d'"
proof (cases st)
  case (InsertReservation r p)
  with assms have d': "d' = d\<lparr>t_reservations := t_reservations d @ [(stored_reservation r, p)]\<rparr>"
    and r: "reservation_ok d r" by (auto split: if_splits)
  have "reservation_refs d'" using assms(2) r unfolding d'
    by (simp add: db_ok_def reservation_refs_def reservation_ok_def row_key_def)
  moreover have "order_refs d'" using assms(2) unfolding d'
    by (simp add: db_ok_def order_refs_def)
  ultimately show ?thesis using assms(2) r unfolding d'
    by (simp add: db_ok_def confirmations_ok_def reservation_ok_def)
next
  case (InsertSale s)
  with assms show ?thesis
    by (auto simp: db_ok_def reservation_refs_def order_refs_def confirmations_ok_def
        sale_ok_def split: if_splits)
next
  case (UpdateSaleStatus s i)
  have ids: "map sale_ID (t_sales d') = map sale_ID (t_sales d)"
    using UpdateSaleStatus assms(1) by (auto split: if_splits)
  have img: "sale_ID ` set (t_sales d') = sale_ID ` set (t_sales d)"
    using arg_cong [OF ids, of set] by simp
  have rest: "t_users d' = t_users d" "t_reservations d' = t_reservations d"
    "t_sale_items d' = t_sale_items d" "t_orders d' = t_orders d"
    using UpdateSaleStatus assms(1) by (auto split: if_splits)
  show ?thesis using assms(2)
    unfolding db_ok_def reservation_refs_def order_refs_def confirmations_ok_def ids img rest .
next
  case (InsertOrder x)
  with assms have d': "d' = d\<lparr>t_orders := t_orders d @ [stored_order x]\<rparr>" and x: "order_ok d x"
    by (auto split: if_splits)
  show ?thesis using assms(2) x unfolding d'
    by (simp add: db_ok_def reservation_refs_def order_refs_def confirmations_ok_def order_ok_def)
next
  case (InsertAudit a)
  with assms show ?thesis
    by (auto simp: db_ok_def reservation_refs_def order_refs_def confirmations_ok_def split: if_splits)
qed (use assms update_reservation_ok in auto)

lemma apply_stmts_ok: "apply_stmts sts d = Some d' \<Longrightarrow> db_ok d \<Longrightarrow> db_ok d'"
  by (induction sts arbitrary: d) (auto dest: apply_stmt_ok split: option.splits)

section \<open>Rows and updates\<close>

lemma select_reservation:
  assumes "db_ok d" "(r, p) \<in> set (t_reservations d)"
  shows "filter (\<lambda>x. res_ID x = res_ID r) (map fst (t_reservations d)) = [r]"
  using assms by (intro filter_key) (force simp: db_ok_def reservation_refs_def)+

lemma reservation_row_refs:
  assumes "db_ok d" "(r, p) \<in> set (t_reservations d)"
  shows "res_UserID r \<in> set (t_users d)" "res_SaleID r \<in> sale_ID ` set (t_sales d)"
    "res_ItemID r \<in> fst ` set (t_sale_items d)" "res_ID r \<in> (res_ID \<circ> fst) ` set (t_reservations d)"
  using assms by (force simp: db_ok_def reservation_refs_def row_key_def)+

lemma update_rows_ids:
  assumes "keeps_key f"
  shows "(res_ID \<circ> fst) ` set (update_rows f i rows) = (res_ID \<circ> fst) ` set rows"
proof -
  have "map (res_ID \<circ> fst) (update_rows f i rows) = map (res_ID \<circ> fst) rows"
    using assms by (auto simp: update_rows_def keeps_key_def row_key_def)
  from arg_cong [OF this, of set] show ?thesis by simp
qed

lemma order_ok_update_rows [simp]: "keeps_key f \<Longrightarrow>
    order_ok (d\<lparr>t_reservations := update_rows f i (t_reservations d)\<rparr>) x \<longleftrightarrow> order_ok d x"
  using update_rows_ids [of f i "t_reservations d"] by (simp add: order_ok_def comp_def)

lemma confirm_update [simp]:
  "update_reservation (\<lambda>r. r\<lparr>res_Status := Confirmed, res_ConfirmedAt := Some t\<rparr>) i d =
     Some (d\<lparr>t_reservations := update_rows (\<lambda>r. r\<lparr>res_Status := Confirmed, res_ConfirmedAt := Some t\<rparr>) i (t_reservations d)\<rparr>)"
  by (auto simp: update_reservation_def valid_confirmation_def)

lemma unconfirm_update:
  assumes "db_ok d" "(r, p) \<in> set (t_reservations d)" "res_Status r \<noteq> Confirmed" "st \<noteq> Confirmed"
  shows "update_reservation (\<lambda>r. r\<lparr>res_Status := st\<rparr>) (res_ID r) d =
     Some (d\<lparr>t_reservations := update_rows (\<lambda>r. r\<lparr>res_Status := st\<rparr>) (res_ID r) (t_reservations d)\<rparr>)"
proof -
  have "x = r" if "(x, q) \<in> set (t_reservations d)" "res_ID x = res_ID r" for x q
  proof -
    have "x \<in> set (filter (\<lambda>x. res_ID x = res_ID r) (map fst (t_reservations d)))" using that by force
    then show ?thesis by (simp add: select_reservation [OF assms(1,2)])
  qed
  moreover have "valid_confirmation r"
    using assms(1,2) by (force simp: db_ok_def confirmations_ok_def list_all_iff)
  ultimately show ?thesis using assms(3,4) by (auto simp: update_reservation_def valid_confirmation_def)
qed

end
