(* ===== verification/Program.thy ===== *)
theory Program
  imports Lua_Scripts Postgres
begin

text \<open>
  Programs as trees of remote calls.  A Go function that talks to Redis, PostgreSQL, the clock,
  the UUID generator, the metrics registry or the WebSocket hub becomes a value of type \<open>'a prog\<close>: \<open>Call c k\<close> issues the call
  \<open>c\<close> and continues with its response, \<open>Ret\<close> returns and \<open>Panic\<close> is a Go panic.  The same tree
  is run alone (\<open>run\<close>) or interleaved call by call with other goroutines (\<open>pool_step\<close>), which is
  how the server executes it.  Each call may be delivered, lost before it reaches the
  service, or executed with its reply lost, and the rows of a query may break off after some of them; UUIDs and clock readings are chosen by the
  environment (\<open>choice\<close>).  A channel operation that blocks is a call that has not completed yet.
\<close>

section \<open>Calls and responses\<close>

text \<open>
  What the WebSocket handler does with the hub and the channel of its client; \<open>Websocket_Hub\<close> models what these operations do there.
\<close>

datatype hub_call =
    SubscribeCall string string       \<comment> \<open>\<open>hub.Subscribe(saleID, userID, client)\<close>\<close>
  | SendCall string                   \<comment> \<open>\<open>client.send <- message\<close>\<close>
  | StartPumps

datatype cmd =
    EvalSha script "string list" "string list"
  | Redis rcmd
  | Publish string Event
  | PgExec stmt
  | PgQuery qry
  | TxBegin
  | TxExec "stmt list" stmt           \<comment> \<open>in a transaction that has run these statements\<close>
  | TxCommit "stmt list"
  | TxRollback
  | UuidNew
  | Now
  | Metric metric
  | HubCall hub_call

datatype resp =
    Rep reply
  | PgDone
  | PgFailed
  | Rows rows
  | RowsCut rows                      \<comment> \<open>these rows and then \<open>rows.Err()\<close>\<close>
  | NewUuid uuid
  | Time time
  | Ack
  | ChanClosed                        \<comment> \<open>the channel had been closed, which panics\<close>
  | NetErr

datatype 'a prog = Ret 'a | Panic | Call cmd "resp \<Rightarrow> 'a prog"

primrec bindP :: "'a prog \<Rightarrow> ('a \<Rightarrow> 'b prog) \<Rightarrow> 'b prog" where
  "bindP (Ret a) f = f a"
| "bindP Panic f = Panic"
| "bindP (Call c k) f = Call c (\<lambda>r. bindP (k r) f)"

definition void :: "'a prog \<Rightarrow> unit prog" where
  "void p = bindP p (\<lambda>_. Ret ())"

lemma bindP_assoc: "bindP (bindP p f) g = bindP p (\<lambda>a. bindP (f a) g)"
  by (induction p) auto

lemma bindP_Ret: "bindP p Ret = p"
  by (induction p) auto

text \<open>
  What a background goroutine that selects on its context and a ticker sees next.  The loop of such a goroutine is a recursion over the
  wake-ups observed so far.
\<close>

datatype wakeup = CtxDone | Ticked

section \<open>The services and the world\<close>

record ('r, 'p) services =
  srv_redis :: "'r redis"
  srv_pg :: "'p postgres"

record ('r, 'p) world =
  redis_st :: 'r
  pg_st :: 'p
  published :: "(string \<times> Event) list"
  metrics :: "metric list"
  hub_calls :: "hub_call list"

datatype delivery = Delivered | RequestLost | ReplyLost | ReplyCut nat

record choice =
  ch_net :: delivery
  ch_uuid :: uuid
  ch_now :: time

definition serve :: "('r, 'p) services \<Rightarrow> time \<Rightarrow> cmd \<Rightarrow> ('r, 'p) world \<Rightarrow> resp \<times> ('r, 'p) world" where
  "serve S now c w =
     (case c of
        EvalSha sc keys argv \<Rightarrow>
          (case run_script (srv_redis S) sc keys argv (redis_st w) of (rep, r) \<Rightarrow> (Rep rep, w\<lparr>redis_st := r\<rparr>))
      | Redis rc \<Rightarrow>
          (case redis_call (srv_redis S) rc (redis_st w) of (rep, r) \<Rightarrow> (Rep rep, w\<lparr>redis_st := r\<rparr>))
      | Publish chan ev \<Rightarrow> (Ack, w\<lparr>published := published w @ [(chan, ev)]\<rparr>)
      | PgExec st \<Rightarrow>
          (case pg_exec (srv_pg S) [st] (pg_st w) of (ok, p) \<Rightarrow>
             (if ok then PgDone else PgFailed, w\<lparr>pg_st := p\<rparr>))
      | PgQuery q \<Rightarrow> (Rows (pg_query (srv_pg S) now q (pg_st w)), w)
      | TxExec sts st \<Rightarrow> (if pg_try (srv_pg S) (sts @ [st]) (pg_st w) then PgDone else PgFailed, w)
      | TxCommit sts \<Rightarrow>
          (case pg_exec (srv_pg S) sts (pg_st w) of (ok, p) \<Rightarrow>
             (if ok then PgDone else PgFailed, w\<lparr>pg_st := p\<rparr>))
      | Metric m \<Rightarrow> (Ack, w\<lparr>metrics := metrics w @ [m]\<rparr>)
      | HubCall x \<Rightarrow> (Ack, w\<lparr>hub_calls := hub_calls w @ [x]\<rparr>)
      | _ \<Rightarrow> (Ack, w))"

text \<open>A reply that breaks off leaves a query with the rows before the break, and any other call with an error.\<close>

fun cut_rows :: "nat \<Rightarrow> rows \<Rightarrow> rows" where
  "cut_rows n (SaleRows xs) = SaleRows (take n xs)"
| "cut_rows n (ReservationRows xs) = ReservationRows (take n xs)"
| "cut_rows n (OrderRows xs) = OrderRows (take n xs)"
| "cut_rows n (Count i) = Count i"

definition cut_reply :: "nat \<Rightarrow> resp \<Rightarrow> resp" where
  "cut_reply n r = (case r of Rows rs \<Rightarrow> RowsCut (cut_rows n rs) | _ \<Rightarrow> NetErr)"

definition exec :: "('r, 'p) services \<Rightarrow> choice \<Rightarrow> cmd \<Rightarrow> ('r, 'p) world \<Rightarrow> resp \<times> ('r, 'p) world" where
  "exec S ch c w =
     (case c of
        UuidNew \<Rightarrow> (NewUuid (ch_uuid ch), w)
      | Now \<Rightarrow> (Time (ch_now ch), w)
      | Metric m \<Rightarrow> serve S (ch_now ch) c w
      | HubCall x \<Rightarrow> (case x of
           SendCall m \<Rightarrow> if ch_net ch = Delivered then serve S (ch_now ch) c w else (ChanClosed, w)
         | _ \<Rightarrow> serve S (ch_now ch) c w)
      | _ \<Rightarrow> (case ch_net ch of
           Delivered \<Rightarrow> serve S (ch_now ch) c w
         | RequestLost \<Rightarrow> (NetErr, w)
         | ReplyLost \<Rightarrow> (NetErr, snd (serve S (ch_now ch) c w))
         | ReplyCut n \<Rightarrow> (case serve S (ch_now ch) c w of (r, w') \<Rightarrow> (cut_reply n r, w'))))"

section \<open>Running one program\<close>

datatype 'a outcome = Returned 'a | Panicked

type_synonym schedule = "nat \<Rightarrow> choice"

definition shift :: "schedule \<Rightarrow> schedule" where
  "shift orc = (\<lambda>i. orc (Suc i))"

lemma shift_apply [simp]: "shift orc i = orc (Suc i)"
  by (simp add: shift_def)

primrec run :: "('r, 'p) services \<Rightarrow> 'a prog \<Rightarrow> schedule \<Rightarrow> ('r, 'p) world \<Rightarrow> 'a outcome \<times> ('r, 'p) world" where
  "run S (Ret a) orc w = (Returned a, w)"
| "run S Panic orc w = (Panicked, w)"
| "run S (Call c k) orc w =
     run S (k (fst (exec S (orc 0) c w))) (shift orc) (snd (exec S (orc 0) c w))"

declare run.simps(3) [simp del]

definition delivered :: "schedule \<Rightarrow> bool" where
  "delivered orc \<longleftrightarrow> (\<forall>i. ch_net (orc i) = Delivered)"

lemma delivered_shift [simp]: "delivered orc \<Longrightarrow> delivered (shift orc)"
  by (simp add: delivered_def)

lemma delivered_0 [simp]: "delivered orc \<Longrightarrow> ch_net (orc i) = Delivered"
  by (simp add: delivered_def)

section \<open>Interleaved execution\<close>

type_synonym ('r, 'p) config = "('r, 'p) world \<times> unit prog list"

text \<open>
  One step of the server process: some goroutine completes its next call, or a new goroutine
  of the given kind starts, or a Redis key with a time to live expires (\<open>expire\<close> is the
  server's own action on its state).
\<close>

inductive pool_step :: "('r, 'p) services \<Rightarrow> (string \<Rightarrow> 'r \<Rightarrow> 'r) \<Rightarrow> unit prog set \<Rightarrow>
    ('r, 'p) config \<Rightarrow> ('r, 'p) config \<Rightarrow> bool"
  for S :: "('r, 'p) services" and expire :: "string \<Rightarrow> 'r \<Rightarrow> 'r" and H :: "unit prog set" where
  act: "i < length ts \<Longrightarrow> ts ! i = Call c k \<Longrightarrow> exec S ch c w = (r, w') \<Longrightarrow>
     pool_step S expire H (w, ts) (w', ts[i := k r])"
| spawn: "p \<in> H \<Longrightarrow> pool_step S expire H (w, ts) (w, ts @ [p])"
| expiry: "pool_step S expire H (w, ts) (w\<lparr>redis_st := expire k (redis_st w)\<rparr>, ts)"

inductive reachable :: "('r, 'p) services \<Rightarrow> (string \<Rightarrow> 'r \<Rightarrow> 'r) \<Rightarrow> unit prog set \<Rightarrow>
    ('r, 'p) world \<Rightarrow> ('r, 'p) config \<Rightarrow> bool"
  for S :: "('r, 'p) services" and expire :: "string \<Rightarrow> 'r \<Rightarrow> 'r" and H :: "unit prog set"
    and w0 :: "('r, 'p) world" where
  start: "reachable S expire H w0 (w0, [])"
| step: "reachable S expire H w0 s \<Longrightarrow> pool_step S expire H s t \<Longrightarrow> reachable S expire H w0 t"

inductive_cases pool_stepE: "pool_step S expire H (w, ts) s'"

section \<open>The services' contracts together\<close>

locale services =
  redis_server "srv_redis S" view + pg_server "srv_pg S" tables
  for S :: "('r, 'p) services" and view :: "'r \<Rightarrow> keyspace" and tables :: "'p \<Rightarrow> db"
begin

abbreviation ks :: "('r, 'p) world \<Rightarrow> keyspace" where "ks w \<equiv> view (redis_st w)"
abbreviation tb :: "('r, 'p) world \<Rightarrow> db" where "tb w \<equiv> tables (pg_st w)"

end

definition mem_services :: "(keyspace, db) services" where
  "mem_services = \<lparr>srv_redis = mem_redis, srv_pg = mem_pg\<rparr>"

interpretation memory: services mem_services "\<lambda>r. r" "\<lambda>d. d"
  by (simp add: mem_services_def services_def mem.redis_server_axioms mempg.pg_server_axioms)

lemma mem_services_ok: "services mem_services (\<lambda>r. r) (\<lambda>d. d)"
  by (rule memory.services_axioms)

text \<open>
  Key expiry is an action of the Redis server: it removes a key that has a time to live, and
  nothing else.
\<close>

locale expiring_services = services S view tables
  for S :: "('r, 'p) services" and view :: "'r \<Rightarrow> keyspace" and tables :: "'p \<Rightarrow> db" +
  fixes expire :: "string \<Rightarrow> 'r \<Rightarrow> 'r"
  assumes expire_view: "view (expire k r) = (if ttl_of (view r k) = None then view r else (view r)(k := None))"
begin

lemma expire_other: "ttl_of (view r k) = None \<Longrightarrow> view (expire k' r) k = view r k"
  by (auto simp: expire_view)

end

definition mem_expire :: "string \<Rightarrow> keyspace \<Rightarrow> keyspace" where
  "mem_expire k r = (if ttl_of (r k) = None then r else r(k := None))"

interpretation expiring_memory: expiring_services mem_services "\<lambda>r. r" "\<lambda>d. d" mem_expire
  by (simp add: expiring_services_def expiring_services_axioms_def memory.services_axioms mem_expire_def)

lemma mem_expiring_ok: "expiring_services mem_services (\<lambda>r. r) (\<lambda>d. d) mem_expire"
  by (rule expiring_memory.expiring_services_axioms)

end
