(* ===== verification/Redis_Client.thy ===== *)
theory Redis_Client
  imports Program
begin

text \<open>
  \<open>internal/redis/client.go\<close> (the calls that run the Lua scripts), the plain Redis commands the
  services issue through \<open>GetClient()\<close>, the publisher of \<open>internal/events\<close> and the audit logger
  of \<open>internal/audit\<close>.  A type assertion \<open>result.(int64)\<close> on another type of reply panics.
\<close>

section \<open>Script calls\<close>

text \<open>\<open>EvalSha(...).Result()\<close>: a nil reply is the error \<open>redis.Nil\<close>.\<close>

definition eval_result :: "resp \<Rightarrow> reply res" where
  "eval_result r = (case r of
       Rep rep \<Rightarrow> (case rep of RErr e \<Rightarrow> Inl (RedisErr e) | RNil \<Rightarrow> Inl RedisNil | _ \<Rightarrow> Inr rep)
     | _ \<Rightarrow> Inl NetworkErr)"

definition assert_int64 :: "string \<Rightarrow> resp \<Rightarrow> int res prog" where
  "assert_int64 msg r = (case eval_result r of
       Inl e \<Rightarrow> Ret (Inl (Wrapf msg e))
     | Inr rep \<Rightarrow> (case rep of RInt v \<Rightarrow> Ret (Inr v) | _ \<Rightarrow> Panic))"

definition assert_string :: "string \<Rightarrow> resp \<Rightarrow> string res prog" where
  "assert_string msg r = (case eval_result r of
       Inl e \<Rightarrow> Ret (Inl (Wrapf msg e))
     | Inr rep \<Rightarrow> (case rep of RBulk v \<Rightarrow> Ret (Inr v) | _ \<Rightarrow> Panic))"

definition Client_Reserve :: "string \<Rightarrow> int res prog" where
  "Client_Reserve saleID =
     Call (EvalSha Reserve_lua [availableKey saleID, reservedKey saleID] [])
       (assert_int64 ''reserve script failed'')"

definition Client_Release :: "string \<Rightarrow> unit res prog" where
  "Client_Release saleID =
     Call (EvalSha Release_lua [availableKey saleID, reservedKey saleID] [])
       (\<lambda>r. case eval_result r of
          Inl e \<Rightarrow> Ret (Inl (Wrapf ''release script failed'' e))
        | Inr _ \<Rightarrow> Ret (Inr ()))"

definition Client_Confirm :: "string \<Rightarrow> int res prog" where
  "Client_Confirm saleID =
     Call (EvalSha Confirm_lua [reservedKey saleID, availableKey saleID, metaKey saleID] [])
       (assert_int64 ''confirm script failed'')"

definition Client_WaitlistJoin :: "string \<Rightarrow> string \<Rightarrow> int \<Rightarrow> int res prog" where
  "Client_WaitlistJoin saleID userID timestamp =
     Call (EvalSha Waitlist_join_lua [availableKey saleID, waitlistKey saleID] [userID, Itoa timestamp])
       (assert_int64 ''waitlist_join script failed'')"

definition Client_WaitlistPromote :: "string \<Rightarrow> string res prog" where
  "Client_WaitlistPromote saleID =
     Call (EvalSha Waitlist_promote_lua [waitlistKey saleID, availableKey saleID, reservedKey saleID] [])
       (assert_string ''waitlist_promote script failed'')"

section \<open>Plain commands\<close>

text \<open>\<open>rdb.Get(ctx, key).Result()\<close> and \<open>.Int()\<close>.\<close>

definition get_string :: "resp \<Rightarrow> string res" where
  "get_string r = (case eval_result r of
       Inl e \<Rightarrow> Inl e | Inr rep \<Rightarrow> (case rep of RBulk s \<Rightarrow> Inr s | _ \<Rightarrow> Inl NetworkErr))"

definition Redis_Get :: "string \<Rightarrow> string res prog" where
  "Redis_Get key = Call (Redis (GET key)) (\<lambda>r. Ret (get_string r))"

definition Redis_Get_Int :: "string \<Rightarrow> int res prog" where
  "Redis_Get_Int key = Call (Redis (GET key)) (\<lambda>r. Ret (case get_string r of
       Inl e \<Rightarrow> Inl e
     | Inr s \<Rightarrow> (case Atoi s of None \<Rightarrow> Inl ParseErr | Some i \<Rightarrow> Inr i)))"

text \<open>\<open>available, _ := rdb.Get(ctx, key).Int()\<close>: the value is 0 when the call fails.\<close>

definition int_or_zero :: "int res \<Rightarrow> int" where
  "int_or_zero x = (case x of Inl _ \<Rightarrow> 0 | Inr i \<Rightarrow> i)"

definition redis_status :: "resp \<Rightarrow> unit res" where
  "redis_status r = (case eval_result r of Inl e \<Rightarrow> Inl e | Inr _ \<Rightarrow> Inr ())"

text \<open>
  A \<open>time.Duration\<close> is in nanoseconds; the client library sends it in milliseconds, at least one, and sends no time to live for a duration that is
  zero or negative.
\<close>

definition ttl_arg :: "int \<Rightarrow> int option" where
  "ttl_arg d = (if d \<le> 0 then None else Some (max 1 (d div 10 ^ 6)))"

lemma ttl_valid_arg [simp]: "ttl_valid (ttl_arg d)" "ttl_valid None"
  by (simp_all add: ttl_valid_def ttl_arg_def less_max_iff_disj)

definition Redis_Set :: "string \<Rightarrow> string \<Rightarrow> int \<Rightarrow> unit res prog" where
  "Redis_Set key value ttl =
     Call (Redis (SET key value (ttl_arg ttl))) (\<lambda>r. Ret (redis_status r))"

definition Redis_HSet :: "string \<Rightarrow> (string \<times> string) list \<Rightarrow> unit res prog" where
  "Redis_HSet key fvs = Call (Redis (HSET key fvs)) (\<lambda>r. Ret (redis_status r))"

definition Redis_int_reply :: "rcmd \<Rightarrow> int res prog" where
  "Redis_int_reply c = Call (Redis c) (\<lambda>r. Ret (case eval_result r of
       Inl e \<Rightarrow> Inl e | Inr rep \<Rightarrow> (case rep of RInt i \<Rightarrow> Inr i | _ \<Rightarrow> Inl NetworkErr)))"

section \<open>Publisher\<close>

definition Publisher_Publish :: "string \<Rightarrow> Event \<Rightarrow> unit res prog" where
  "Publisher_Publish saleID event =
     Call (Publish (saleChannel saleID) event) (\<lambda>r. Ret (if r = NetErr then Inl NetworkErr else Inr ()))"

definition Publisher_PublishToUser :: "string \<Rightarrow> Event \<Rightarrow> unit res prog" where
  "Publisher_PublishToUser userID event =
     Call (Publish (userChannel userID) event) (\<lambda>r. Ret (if r = NetErr then Inl NetworkErr else Inr ()))"

definition stock_update :: "int \<Rightarrow> Event" where
  "stock_update remaining = \<lparr>ev_Event = ''stock_update'', ev_Data = StockUpdateData remaining\<rparr>"

definition Publisher_StockUpdate :: "string \<Rightarrow> int \<Rightarrow> unit res prog" where
  "Publisher_StockUpdate saleID remaining = Publisher_Publish saleID (stock_update remaining)"

definition sale_ended :: "string \<Rightarrow> Event" where
  "sale_ended reason = \<lparr>ev_Event = ''sale_ended'', ev_Data = SaleEndedData reason\<rparr>"

definition Publisher_SaleEnded :: "string \<Rightarrow> string \<Rightarrow> unit res prog" where
  "Publisher_SaleEnded saleID reason = Publisher_Publish saleID (sale_ended reason)"

definition waitlist_promoted :: "string \<Rightarrow> Event" where
  "waitlist_promoted reservationID =
     \<lparr>ev_Event = ''waitlist_promoted'', ev_Data = WaitlistPromotedData reservationID\<rparr>"

definition Publisher_WaitlistPromoted :: "string \<Rightarrow> string \<Rightarrow> unit res prog" where
  "Publisher_WaitlistPromoted userID reservationID =
     Publisher_PublishToUser userID (waitlist_promoted reservationID)"

definition reservation_expiring :: "int \<Rightarrow> Event" where
  "reservation_expiring secs =
     \<lparr>ev_Event = ''reservation_expiring'', ev_Data = ReservationExpiringData secs\<rparr>"

definition Publisher_ReservationExpiring :: "string \<Rightarrow> int \<Rightarrow> unit res prog" where
  "Publisher_ReservationExpiring userID secs =
     Publisher_PublishToUser userID (reservation_expiring secs)"

definition Publisher_QueuePosition :: "string \<Rightarrow> int \<Rightarrow> unit res prog" where
  "Publisher_QueuePosition saleID position = Publisher_Publish saleID
     \<lparr>ev_Event = ''queue_position'', ev_Data = QueuePositionData position\<rparr>"

definition Publisher_SaleStarted :: "string \<Rightarrow> int \<Rightarrow> unit res prog" where
  "Publisher_SaleStarted saleID totalStock = Publisher_Publish saleID
     \<lparr>ev_Event = ''sale_started'', ev_Data = SaleStartedData saleID totalStock\<rparr>"

section \<open>Statements and the audit log\<close>

definition pg_status :: "resp \<Rightarrow> unit res" where
  "pg_status r = (case r of PgDone \<Rightarrow> Inr () | PgFailed \<Rightarrow> Inl PgErr | _ \<Rightarrow> Inl NetworkErr)"

definition Db_Exec :: "stmt \<Rightarrow> unit res prog" where
  "Db_Exec st = Call (PgExec st) (\<lambda>r. Ret (pg_status r))"

text \<open>
  \<open>audit.LogWithConn\<close> on the connection pool (\<open>None\<close>) or in a transaction, given by the
  statements it has run.  The payloads are string maps, which \<open>json.Marshal\<close> always encodes.
\<close>

definition LogWithConn :: "stmt list option \<Rightarrow> AuditEntry \<Rightarrow> unit res prog" where
  "LogWithConn conn entry =
     Call (case conn of None \<Rightarrow> PgExec (InsertAudit entry) | Some sts \<Rightarrow> TxExec sts (InsertAudit entry))
       (\<lambda>r. Ret (case pg_status r of
          Inl e \<Rightarrow> Inl (Wrapf ''failed to write audit log'' e) | Inr u \<Rightarrow> Inr u))"

definition audit_Log :: "AuditEntry \<Rightarrow> unit res prog" where
  "audit_Log entry = LogWithConn None entry"

text \<open>\<open>QueryRow(...).Scan(...)\<close>: the first row, or \<open>pgx.ErrNoRows\<close>; a reply that broke off is an error.\<close>

definition first_row :: "'a list \<Rightarrow> 'a res" where
  "first_row xs = (case xs of [] \<Rightarrow> Inl NoRows | x # _ \<Rightarrow> Inr x)"

definition scan_reservation :: "resp \<Rightarrow> Reservation res" where
  "scan_reservation r = (case r of
       Rows rs \<Rightarrow> (case rs of ReservationRows xs \<Rightarrow> first_row xs | _ \<Rightarrow> Inl NetworkErr)
     | _ \<Rightarrow> Inl NetworkErr)"

definition scan_order :: "resp \<Rightarrow> Order res" where
  "scan_order r = (case r of
       Rows rs \<Rightarrow> (case rs of OrderRows xs \<Rightarrow> first_row xs | _ \<Rightarrow> Inl NetworkErr)
     | _ \<Rightarrow> Inl NetworkErr)"

definition scan_sale :: "resp \<Rightarrow> Sale res" where
  "scan_sale r = (case r of
       Rows rs \<Rightarrow> (case rs of SaleRows xs \<Rightarrow> first_row xs | _ \<Rightarrow> Inl NetworkErr)
     | _ \<Rightarrow> Inl NetworkErr)"

definition scan_count :: "resp \<Rightarrow> int res" where
  "scan_count r = (case r of
       Rows rs \<Rightarrow> (case rs of Count n \<Rightarrow> Inr n | _ \<Rightarrow> Inl NetworkErr)
     | _ \<Rightarrow> Inl NetworkErr)"

section \<open>Environment readings\<close>

definition uuid_New :: "(uuid \<Rightarrow> 'a prog) \<Rightarrow> 'a prog" where
  "uuid_New k = Call UuidNew (\<lambda>r. case r of NewUuid u \<Rightarrow> k u | _ \<Rightarrow> Panic)"

definition time_Now :: "(time \<Rightarrow> 'a prog) \<Rightarrow> 'a prog" where
  "time_Now k = Call Now (\<lambda>r. case r of Time t \<Rightarrow> k t | _ \<Rightarrow> Panic)"

definition metric_then :: "metric \<Rightarrow> 'a prog \<Rightarrow> 'a prog" where
  "metric_then m p = Call (Metric m) (\<lambda>_. p)"

lemmas client_defs = Client_Reserve_def Client_Release_def Client_Confirm_def Client_WaitlistJoin_def
  Client_WaitlistPromote_def assert_int64_def assert_string_def
lemmas plain_defs = Redis_Get_def Redis_Get_Int_def Redis_Set_def Redis_HSet_def Redis_int_reply_def
  Db_Exec_def audit_Log_def LogWithConn_def uuid_New_def time_Now_def metric_then_def
lemmas publisher_defs = Publisher_Publish_def Publisher_PublishToUser_def Publisher_StockUpdate_def
  Publisher_SaleEnded_def Publisher_WaitlistPromoted_def Publisher_ReservationExpiring_def
  Publisher_QueuePosition_def Publisher_SaleStarted_def

end
