(* ===== verification/Execution.thy ===== *)
theory Execution
  imports Redis_Client
begin

text \<open>
  Symbolic execution of programs.  Where every call is delivered, \<open>run\<close> is computed by the
  rules \<open>run_simps\<close>: each call is served at once, and the laws of the locale \<open>services\<close> give its
  reply and the keyspace and tables after it.  \<open>run_reachable\<close> embeds a run of one program
  into the interleaved execution.
\<close>

section \<open>Runs as interleavings\<close>

lemma run_pool:
  assumes "run S p orc w = (res, w')" "i < length ts" "ts ! i = p" "reachable S ex H w0 (w, ts)"
  shows "\<exists>q. (case res of Returned a \<Rightarrow> q = Ret a | Panicked \<Rightarrow> q = Panic) \<and>
     reachable S ex H w0 (w', ts[i := q])"
  using assms
proof (induction p arbitrary: orc w ts)
  case (Call c k)
  obtain r w1 where e: "exec S (orc 0) c w = (r, w1)" by fastforce
  have "reachable S ex H w0 (w1, ts[i := k r])"
    using reachable.step [OF Call.prems(4)] pool_step.act [OF Call.prems(2,3) e] by blast
  moreover have "run S (k r) (shift orc) w1 = (res, w')" using Call.prems(1) e by (simp add: run.simps(3))
  ultimately show ?case using Call.IH [OF rangeI, of r _ w1 "ts[i := k r]"] Call.prems(2) by auto
next
  case (Ret a)
  then have "ts[i := Ret a] = ts" by (metis list_update_id)
  with Ret show ?case by auto
next
  case Panic
  then have "ts[i := Panic] = ts" by (metis list_update_id)
  with Panic show ?case by auto
qed

lemma run_reachable:
  assumes "run S p orc w = (Returned (), w')" "p \<in> H" "reachable S ex H w0 (w, ts)"
  shows "reachable S ex H w0 (w', ts @ [Ret ()])"
proof -
  have "reachable S ex H w0 (w, ts @ [p])"
    using assms(2,3) reachable.step pool_step.spawn by metis
  from run_pool [OF assms(1) _ _ this, of "length ts"] show ?thesis by auto
qed

lemma run_void: "run S (void p) orc w =
    (case run S p orc w of (Returned _, w') \<Rightarrow> (Returned (), w') | (Panicked, w') \<Rightarrow> (Panicked, w'))"
  by (induction p arbitrary: orc w) (simp_all add: void_def run.simps(3))

section \<open>Delivered calls\<close>

definition delivers :: "cmd \<Rightarrow> bool" where
  "delivers c \<longleftrightarrow> c \<noteq> UuidNew \<and> c \<noteq> Now"

lemma delivers_simps [simp]:
  "delivers (EvalSha sc keys argv)" "delivers (Redis rc)" "delivers (Publish ch e)" "delivers (PgExec st)"
  "delivers (PgQuery q)" "delivers TxBegin" "delivers (TxExec sts st)" "delivers (TxCommit sts)"
  "delivers TxRollback" "delivers (Metric m)" "delivers (HubCall x)"
  by (simp_all add: delivers_def)

lemma run_delivered:
  assumes "delivered orc" "delivers c"
  shows "run S (Call c k) orc w = (case serve S (ch_now (orc 0)) c w of (r, w') \<Rightarrow>
     run S (k r) (shift orc) w')"
  using assms by (cases c) (auto simp: exec_def delivers_def case_prod_beta run.simps(3) split: hub_call.split)

lemma run_uuid_New: "run S (uuid_New k) orc w = run S (k (ch_uuid (orc 0))) (shift orc) w"
  by (simp add: uuid_New_def exec_def run.simps(3))

lemma run_time_Now: "run S (time_Now k) orc w = run S (k (ch_now (orc 0))) (shift orc) w"
  by (simp add: time_Now_def exec_def run.simps(3))

lemma bindP_env [simp]: "bindP (uuid_New k) f = uuid_New (\<lambda>u. bindP (k u) f)"
  "bindP (time_Now g) f = time_Now (\<lambda>u. bindP (g u) f)"
  "bindP (metric_then m p) f = metric_then m (bindP p f)"
  by (auto simp: uuid_New_def time_Now_def metric_then_def fun_eq_iff split: resp.split)

lemma bindP_if [simp]: "bindP (if b then p else q) f = (if b then bindP p f else bindP q f)"
  by simp

lemma bindP_case_sum [simp]: "bindP (case_sum g h x) f = (case x of Inl a \<Rightarrow> bindP (g a) f | Inr b \<Rightarrow> bindP (h b) f)"
  by (cases x) auto

lemma serve_simps [simp]:
  "serve S t (EvalSha sc keys argv) w = (Rep (fst (run_script (srv_redis S) sc keys argv (redis_st w))),
     w\<lparr>redis_st := snd (run_script (srv_redis S) sc keys argv (redis_st w))\<rparr>)"
  "serve S t (Redis rc) w = (Rep (fst (redis_call (srv_redis S) rc (redis_st w))),
     w\<lparr>redis_st := snd (redis_call (srv_redis S) rc (redis_st w))\<rparr>)"
  "serve S t (Publish chan ev) w = (Ack, w\<lparr>published := published w @ [(chan, ev)]\<rparr>)"
  "serve S t (PgExec st) w = (if fst (pg_exec (srv_pg S) [st] (pg_st w)) then PgDone else PgFailed,
     w\<lparr>pg_st := snd (pg_exec (srv_pg S) [st] (pg_st w))\<rparr>)"
  "serve S t (PgQuery q) w = (Rows (pg_query (srv_pg S) t q (pg_st w)), w)"
  "serve S t (TxExec sts st) w = (if pg_try (srv_pg S) (sts @ [st]) (pg_st w) then PgDone else PgFailed, w)"
  "serve S t (TxCommit sts) w = (if fst (pg_exec (srv_pg S) sts (pg_st w)) then PgDone else PgFailed,
     w\<lparr>pg_st := snd (pg_exec (srv_pg S) sts (pg_st w))\<rparr>)"
  "serve S t (Metric m) w = (Ack, w\<lparr>metrics := metrics w @ [m]\<rparr>)"
  "serve S t (HubCall x) w = (Ack, w\<lparr>hub_calls := hub_calls w @ [x]\<rparr>)"
  "serve S t TxBegin w = (Ack, w)" "serve S t TxRollback w = (Ack, w)"
  by (simp_all add: serve_def case_prod_beta)

lemma cut_reply_simps [simp]: "cut_reply n (Rows rs) = RowsCut (cut_rows n rs)" "cut_reply n (Rep rep) = NetErr" "cut_reply n Ack = NetErr"
  "cut_reply n (if b then PgDone else PgFailed) = NetErr"
  by (simp_all add: cut_reply_def)

lemma reply_results [simp]:
  "eval_result (Rep (RInt i)) = Inr (RInt i)" "eval_result (Rep (RBulk v)) = Inr (RBulk v)"
  "eval_result (Rep ROk) = Inr ROk" "eval_result (Rep RNil) = Inl RedisNil"
  "eval_result (Rep (RErr e)) = Inl (RedisErr e)" "eval_result NetErr = Inl NetworkErr"
  "pg_status PgDone = Inr ()" "pg_status PgFailed = Inl PgErr" "pg_status NetErr = Inl NetworkErr"
  "int_or_zero (Inr i) = i" "int_or_zero (Inl err) = 0"
  "first_row [] = Inl NoRows" "first_row (y # ys) = Inr y"
  "scan_reservation (Rows (ReservationRows rs)) = first_row rs"
  "scan_order (Rows (OrderRows os)) = first_row os" "scan_sale (Rows (SaleRows ss)) = first_row ss"
  "scan_count (Rows (Count n)) = Inr n"
  "scan_reservation (RowsCut qs) = Inl NetworkErr" "scan_order (RowsCut qs) = Inl NetworkErr"
  "scan_sale (RowsCut qs) = Inl NetworkErr" "scan_count (RowsCut qs) = Inl NetworkErr"
  by (simp_all add: eval_result_def pg_status_def int_or_zero_def first_row_def scan_reservation_def
      scan_order_def scan_sale_def scan_count_def)

lemma pg_status_if [simp]: "pg_status (if b then PgDone else PgFailed) = (if b then Inr () else Inl PgErr)"
  by simp

lemma get_string_simps [simp]: "get_string (Rep (RBulk v)) = Inr v" "get_string (Rep RNil) = Inl RedisNil"
  by (simp_all add: get_string_def)

lemma redis_status_simps [simp]: "redis_status (Rep ROk) = Inr ()" "redis_status (Rep (RInt i)) = Inr ()"
  by (simp_all add: redis_status_def)

lemma assert_int64_RInt [simp]: "assert_int64 m (Rep (RInt i)) = Ret (Inr i)"
  by (simp add: assert_int64_def)

lemma assert_string_RBulk [simp]: "assert_string m (Rep (RBulk v)) = Ret (Inr v)"
  by (simp add: assert_string_def)

section \<open>Composition of runs\<close>

text \<open>A program that calls another one continues on the rest of the schedule.\<close>

definition later :: "nat \<Rightarrow> schedule \<Rightarrow> schedule" where
  "later n orc = (\<lambda>i. orc (n + i))"

lemma later_simps [simp]: "later 0 orc = orc" "later n (shift orc) = later (Suc n) orc"
  "delivered orc \<Longrightarrow> delivered (later n orc)" "later n orc i = orc (n + i)"
  by (simp_all add: later_def shift_def delivered_def)

lemma run_bind:
  "\<exists>n. run S (bindP p f) orc w =
     (case run S p orc w of (Returned a, w') \<Rightarrow> run S (f a) (later n orc) w' | (Panicked, w') \<Rightarrow> (Panicked, w'))"
proof (induction p arbitrary: orc w)
  case (Ret a)
  show ?case by (rule exI [of _ 0]) simp
next
  case (Call c k)
  let ?r = "fst (exec S (orc 0) c w)" and ?w = "snd (exec S (orc 0) c w)"
  from Call.IH [OF rangeI [of k ?r], of "shift orc" ?w] obtain n where
    "run S (bindP (k ?r) f) (shift orc) ?w = (case run S (k ?r) (shift orc) ?w of
       (Returned a, w') \<Rightarrow> run S (f a) (later n (shift orc)) w' | (Panicked, w') \<Rightarrow> (Panicked, w'))"
    by blast
  note this [unfolded later_simps(2)]
  then show ?case by (intro exI [of _ "Suc n"]) (simp add: run.simps(3))
qed auto

lemma run_bind_Returned:
  assumes "run S p orc w = (Returned a, w1)"
  obtains n where "run S (bindP p f) orc w = run S (f a) (later n orc) w1"
  using run_bind [of S p f orc w] assms by auto

lemma run_bind_Ret:
  "run S p orc w = (Returned a, w1) \<Longrightarrow> run S (bindP p (\<lambda>a. Ret (f a))) orc w = (Returned (f a), w1)"
  using run_bind [of S p "\<lambda>a. Ret (f a)" orc w] by auto

lemma run_bind_ex:
  "run S p orc w = (Returned a, w1) \<Longrightarrow> \<exists>n. run S (bindP p f) orc w = run S (f a) (later n orc) w1"
  using run_bind [of S p f orc w] by simp

lemma run_bind_Inr:
  "run S p orc w = (Returned (Inr a), w1) \<Longrightarrow> run S (bindP p (case_sum f (\<lambda>v. Ret (g v)))) orc w = (Returned (g a), w1)"
  using run_bind_ex [of S p orc w "Inr a" w1 "case_sum f (\<lambda>v. Ret (g v))"] by auto

lemma later_later: "later m (later n orc) = later (n + m) orc"
  by (simp add: later_def add.assoc)

section \<open>Counters\<close>

text \<open>The two counters of a sale, in the form that rewriting needs.\<close>

definition has_stock :: "keyspace \<Rightarrow> string \<Rightarrow> int \<Rightarrow> int \<Rightarrow> bool" where
  "has_stock ks y a b \<longleftrightarrow> stock_at ks (availableKey y) (reservedKey y) (a, b)"

lemma has_stockD:
  assumes "has_stock ks y a b"
  shows "is_cnt (ks (availableKey y))" "cval (ks (availableKey y)) = a" "in64 a"
    "is_cnt (ks (reservedKey y))" "cval (ks (reservedKey y)) = b" "in64 b"
    "ks (availableKey y) = Some (cnt a)" "ks (reservedKey y) = Some (cnt b)"
    "availableKey y \<noteq> reservedKey y" "reservedKey y \<noteq> availableKey y"
  using assms by (auto simp: has_stock_def stock_at_def)

context services
begin

lemma get_cnt [simp]: "is_cnt (view r k) \<Longrightarrow>
    fst (redis_call (srv_redis S) (GET k) r) = RBulk (Itoa (cval (view r k)))"
  by (metis (no_types, lifting) cnt_def get_reply is_cnt_def option.simps(5) prod.simps(2) rval.simps(10))

lemma set_ok [simp]: "ttl_valid x \<Longrightarrow> fst (redis_call (srv_redis S) (SET k v x) r) = ROk"
  by (rule set_reply)

end

lemmas run_simps = run_delivered run_uuid_New run_time_Now Client_Reserve_def Client_Release_def
  Client_Confirm_def Client_WaitlistJoin_def Client_WaitlistPromote_def Redis_Get_def
  Redis_Get_Int_def Redis_Set_def Redis_HSet_def Redis_int_reply_def Db_Exec_def audit_Log_def
  LogWithConn_def metric_then_def publisher_defs Let_def Atoi_Itoa

section \<open>The deployed program\<close>

text \<open>The services together with the UUID library: the context of every handler.\<close>

locale shop = services S view tables + uuid_codec L
  for S :: "('r, 'p) services" and view :: "'r \<Rightarrow> keyspace" and tables :: "'p \<Rightarrow> db" and L :: uuid_lib
begin

lemma reserve_run [simp]:
  assumes "is_cnt (view r k1)" "is_cnt (view r k2)" "k1 \<noteq> k2" "0 < cval (view r k1)" "in64 (cval (view r k2) + 1)"
  shows "fst (reserve_lua (srv_redis S) k1 k2 r) = RInt 1"
    and "view (snd (reserve_lua (srv_redis S) k1 k2 r)) =
      (view r)(k1 \<mapsto> cnt (cval (view r k1) - 1), k2 \<mapsto> cnt (cval (view r k2) + 1))"
proof -
  have "stock_at (view r) k1 k2 (cval (view r k1), cval (view r k2))"
    using assms(1-3) by (simp add: stock_at_def is_cnt_def)
  note * = reserve_lua_ok [OF this assms(4,5)]
  show "fst (reserve_lua (srv_redis S) k1 k2 r) = RInt 1" by (rule *(1))
  show "view (snd (reserve_lua (srv_redis S) k1 k2 r)) =
      (view r)(k1 \<mapsto> cnt (cval (view r k1) - 1), k2 \<mapsto> cnt (cval (view r k2) + 1))"
    by (simp add: *(2) set_stock_def)
qed

lemma release_run [simp]:
  assumes "is_cnt (view r k1)" "is_cnt (view r k2)" "k1 \<noteq> k2" "in64 (cval (view r k1) + 1)"
    "in64 (cval (view r k2) - 1)"
  shows "fst (release_lua (srv_redis S) k1 k2 r) = RInt 1"
    and "view (snd (release_lua (srv_redis S) k1 k2 r)) =
      (view r)(k1 \<mapsto> cnt (cval (view r k1) + 1), k2 \<mapsto> cnt (cval (view r k2) - 1))"
proof -
  have "stock_at (view r) k1 k2 (cval (view r k1), cval (view r k2))"
    using assms(1-3) by (simp add: stock_at_def is_cnt_def)
  note * = release_lua_ok [OF this assms(4,5)]
  show "fst (release_lua (srv_redis S) k1 k2 r) = RInt 1" by (rule *(1))
  show "view (snd (release_lua (srv_redis S) k1 k2 r)) =
      (view r)(k1 \<mapsto> cnt (cval (view r k1) + 1), k2 \<mapsto> cnt (cval (view r k2) - 1))"
    by (simp add: *(2) set_stock_def)
qed

lemmas confirm_run [simp] = confirm_lua_ok
lemmas sold_out_run [simp] = reserve_lua_sold_out
lemmas shop_simps = run_simps pg_simps codec_keys is_cnt_in64

end

interpretation mem_shop: shop mem_services "\<lambda>r. r" "\<lambda>d. d" canonical_uuid
  by (simp add: shop_def memory.services_axioms canonical.uuid_codec_axioms)

lemma mem_shop_ok: "shop mem_services (\<lambda>r. r) (\<lambda>d. d) canonical_uuid"
  by (rule mem_shop.shop_axioms)

end
