(* ===== verification/Reservation_Service.thy ===== *)
theory Reservation_Service
  imports Redis_Client
begin

text \<open>
  \<open>internal/reservation/service.go\<close>: reserve, confirm and release.  The service struct is the
  record \<open>ReservationService\<close>; a nil publisher is \<open>publisher = False\<close>.  Spans and the latency
  histogram are left out; the counters and the stock gauge are calls.
\<close>

record ReservationService =
  reservationTTL :: int
  publisher :: bool

text \<open>\<open>time.Duration(s.reservationTTL) * time.Second\<close>, on 64 bits.\<close>

definition ttl_duration :: "ReservationService \<Rightarrow> int" where
  "ttl_duration s = wrap64 (reservationTTL s * second)"

section \<open>Idempotency\<close>

definition checkIdempotency :: "uuid_lib \<Rightarrow> uuid \<Rightarrow> string \<Rightarrow> Reservation res prog" where
  "checkIdempotency L saleID key =
     bindP (Redis_Get (idempotencyKeyName (uuid_String L saleID) key)) (\<lambda>x. case x of
       Inl e \<Rightarrow> Ret (Inl e)
     | Inr reservationID \<Rightarrow> (case uuid_Parse L reservationID of
         None \<Rightarrow> Ret (Inl ParseErr)
       | Some resID \<Rightarrow> Call (PgQuery (SelectReservation resID)) (\<lambda>r. Ret (case scan_reservation r of
           Inl e \<Rightarrow> Inl e
         | Inr row \<Rightarrow> Inr (row\<lparr>res_ConfirmedAt := None\<rparr>)))))"

definition setIdempotency :: "uuid_lib \<Rightarrow> uuid \<Rightarrow> string \<Rightarrow> uuid \<Rightarrow> unit res prog" where
  "setIdempotency L saleID key reservationID =
     Redis_Set (idempotencyKeyName (uuid_String L saleID) key) (uuid_String L reservationID) (24 * 3600 * second)"

definition getOrderByIdempotencyKey :: "string \<Rightarrow> Order res prog" where
  "getOrderByIdempotencyKey key = Call (PgQuery (SelectOrderByKey key)) (\<lambda>r. Ret (scan_order r))"

section \<open>Reserve\<close>

definition audit_entry :: "uuid \<Rightarrow> string \<Rightarrow> (string \<times> string) list \<Rightarrow> AuditEntry" where
  "audit_entry eid ev payload =
     \<lparr>EntityType = ''reservation'', EntityID = eid, EventType = ev, Payload = JsonMap payload\<rparr>"

text \<open>The part of \<open>Reserve\<close> after the reservation row, its TTL key and its idempotency key exist.\<close>

definition reserve_announce :: "uuid_lib \<Rightarrow> ReservationService \<Rightarrow> Reservation \<Rightarrow> Reservation res prog" where
  "reserve_announce L s reservation =
     (let saleID = uuid_String L (res_SaleID reservation) in
      bindP (Redis_Get_Int (availableKey saleID)) (\<lambda>x.
        let available = int_or_zero x in
        metric_then (StockLevel saleID available) (
        metric_then (ReservationTotal saleID ''success'') (
        bindP (if publisher s
               then bindP (Publisher_StockUpdate saleID available) (\<lambda>_.
                      if available = 0 then Publisher_SaleEnded saleID ''sold_out'' else Ret (Inr ()))
               else Ret (Inr ())) (\<lambda>_.
        bindP (audit_Log (audit_entry (res_ID reservation) ''reserved''
                 [(''user_id'', uuid_String L (res_UserID reservation)), (''sale_id'', saleID),
                  (''item_id'', uuid_String L (res_ItemID reservation))])) (\<lambda>_.
        Ret (Inr reservation)))))))"

text \<open>The part of \<open>Reserve\<close> after \<open>reserve.lua\<close> answered: insert the row, or put the unit back.\<close>

definition reserve_record ::
  "uuid_lib \<Rightarrow> ReservationService \<Rightarrow> uuid \<Rightarrow> uuid \<Rightarrow> uuid \<Rightarrow> string \<Rightarrow> Reservation res prog" where
  "reserve_record L s userID saleID itemID idempotencyKey =
     uuid_New (\<lambda>newID. time_Now (\<lambda>reservedAt. time_Now (\<lambda>now.
       let reservation = \<lparr>res_ID = newID, res_UserID = userID, res_SaleID = saleID,
             res_ItemID = itemID, res_Status = Reserved, res_ReservedAt = reservedAt,
             res_ConfirmedAt = None, res_ExpiresAt = now + ttl_duration s\<rparr> in
       bindP (Db_Exec (InsertReservation reservation False)) (\<lambda>x. case x of
         Inl e \<Rightarrow>
           bindP (Client_Release (uuid_String L saleID)) (\<lambda>_.
           metric_then (ReservationTotal (uuid_String L saleID) ''error'') (
           Ret (Inl (Wrapf ''failed to create reservation'' e))))
       | Inr _ \<Rightarrow>
           bindP (Redis_Set (ttlKey (uuid_String L newID)) ''1'' (ttl_duration s)) (\<lambda>y. case y of
             Inl e \<Rightarrow> Ret (Inl (Wrapf ''failed to set ttl'' e))
           | Inr _ \<Rightarrow>
               bindP (if idempotencyKey \<noteq> [] then setIdempotency L saleID idempotencyKey newID
                      else Ret (Inr ())) (\<lambda>_.
               reserve_announce L s reservation))))))"

definition Reserve ::
  "uuid_lib \<Rightarrow> ReservationService \<Rightarrow> uuid \<Rightarrow> uuid \<Rightarrow> uuid \<Rightarrow> string \<Rightarrow> Reservation res prog" where
  "Reserve L s userID saleID itemID idempotencyKey =
     bindP (if idempotencyKey \<noteq> [] then checkIdempotency L saleID idempotencyKey
            else Ret (Inl RedisNil)) (\<lambda>existing. case existing of
       Inr reservation \<Rightarrow>
         metric_then (ReservationTotal (uuid_String L saleID) ''idempotent'') (Ret (Inr reservation))
     | Inl _ \<Rightarrow>
         bindP (Client_Reserve (uuid_String L saleID)) (\<lambda>x. case x of
           Inl e \<Rightarrow>
             metric_then (ReservationTotal (uuid_String L saleID) ''error'') (
             Ret (Inl (Wrapf ''redis reserve failed'' e)))
         | Inr result \<Rightarrow>
             if result = - 1
             then metric_then (ReservationTotal (uuid_String L saleID) ''sold_out'') (
                  Ret (Inl (Errorf ''sold out'')))
             else reserve_record L s userID saleID itemID idempotencyKey))"

section \<open>Confirm\<close>

text \<open>Every failure inside the transaction releases the sale's unit, rolls back and returns.\<close>

definition confirm_abort :: "uuid_lib \<Rightarrow> uuid \<Rightarrow> string \<Rightarrow> goerr \<Rightarrow> Order res prog" where
  "confirm_abort L saleID msg e =
     bindP (Client_Release (uuid_String L saleID)) (\<lambda>_.
     Call TxRollback (\<lambda>_. Ret (Inl (Wrapf msg e))))"

definition confirm_tx :: "uuid_lib \<Rightarrow> uuid \<Rightarrow> Reservation \<Rightarrow> string \<Rightarrow> Order res prog" where
  "confirm_tx L reservationID reservation idempotencyKey =
     time_Now (\<lambda>now.
     let upd = UpdateReservationConfirmed Confirmed now reservationID in
     Call (TxExec [] upd) (\<lambda>r. case pg_status r of
       Inl e \<Rightarrow> confirm_abort L (res_SaleID reservation) ''failed to update reservation'' e
     | Inr _ \<Rightarrow>
     uuid_New (\<lambda>orderID.
     let order = \<lparr>ord_ID = orderID, ord_ReservationID = reservationID,
           ord_UserID = res_UserID reservation, ord_SaleID = res_SaleID reservation, ord_Amount = 0,
           ord_Status = ''pending'', ord_IdempotencyKey = idempotencyKey, ord_CreatedAt = now\<rparr> in
     Call (TxExec [upd] (InsertOrder order)) (\<lambda>r. case pg_status r of
       Inl e \<Rightarrow> confirm_abort L (res_SaleID reservation) ''failed to create order'' e
     | Inr _ \<Rightarrow>
     let entry = audit_entry reservationID ''confirmed'' [(''order_id'', uuid_String L orderID)] in
     bindP (LogWithConn (Some [upd, InsertOrder order]) entry) (\<lambda>x. case x of
       Inl e \<Rightarrow> confirm_abort L (res_SaleID reservation) ''failed to write audit log'' e
     | Inr _ \<Rightarrow>
     Call (TxCommit [upd, InsertOrder order, InsertAudit entry]) (\<lambda>r. case pg_status r of
       Inl e \<Rightarrow> confirm_abort L (res_SaleID reservation) ''failed to commit transaction'' e
     | Inr _ \<Rightarrow> Call TxRollback (\<lambda>_. Ret (Inr order))))))))"

text \<open>
  The deferred \<open>tx.Rollback\<close> also runs after a commit, where it does nothing.
\<close>

definition Confirm :: "uuid_lib \<Rightarrow> uuid \<Rightarrow> string \<Rightarrow> Order res prog" where
  "Confirm L reservationID idempotencyKey =
     bindP (if idempotencyKey \<noteq> [] then getOrderByIdempotencyKey idempotencyKey
            else Ret (Inl NoRows)) (\<lambda>existing. case existing of
       Inr order \<Rightarrow> Ret (Inr order)
     | Inl _ \<Rightarrow>
     Call (PgQuery (SelectReservation reservationID)) (\<lambda>r. case scan_reservation r of
       Inl e \<Rightarrow> Ret (Inl (Wrapf ''reservation not found'' e))
     | Inr reservation \<Rightarrow>
     if res_Status reservation \<noteq> Reserved
     then Ret (Inl (Errorf ''reservation not in reserved state''))
     else bindP (Client_Confirm (uuid_String L (res_SaleID reservation))) (\<lambda>x. case x of
       Inl e \<Rightarrow> Ret (Inl (Wrapf ''redis confirm failed'' e))
     | Inr result \<Rightarrow>
     if result = - 1 then Ret (Inl (Errorf ''invalid reservation state''))
     else Call TxBegin (\<lambda>r.
       if r = NetErr then Ret (Inl (Wrapf ''failed to begin transaction'' NetworkErr))
       else confirm_tx L reservationID reservation idempotencyKey))))"

section \<open>Release\<close>

definition Release :: "uuid_lib \<Rightarrow> ReservationService \<Rightarrow> uuid \<Rightarrow> unit res prog" where
  "Release L s reservationID =
     Call (PgQuery (SelectReservation reservationID)) (\<lambda>r. case scan_reservation r of
       Inl e \<Rightarrow> Ret (Inl (Wrapf ''reservation not found'' e))
     | Inr reservation \<Rightarrow>
     if res_Status reservation \<noteq> Reserved
     then Ret (Inl (Errorf ''reservation not in reserved state''))
     else
     let saleID = uuid_String L (res_SaleID reservation) in
     bindP (Client_Release saleID) (\<lambda>x. case x of
       Inl e \<Rightarrow> Ret (Inl (Wrapf ''redis release failed'' e))
     | Inr _ \<Rightarrow>
     bindP (Db_Exec (UpdateReservationStatus Released reservationID)) (\<lambda>y. case y of
       Inl e \<Rightarrow> Ret (Inl (Wrapf ''failed to update reservation'' e))
     | Inr _ \<Rightarrow>
     bindP (Redis_Get_Int (availableKey saleID)) (\<lambda>z.
     bindP (if publisher s then Publisher_StockUpdate saleID (int_or_zero z) else Ret (Inr ())) (\<lambda>_.
     bindP (audit_Log (audit_entry reservationID ''released'' [(''sale_id'', saleID)])) (\<lambda>_.
     Ret (Inr ())))))))"

end
