(* ===== verification/Example_World.thy ===== *)
theory Example_World
  imports Execution
begin

text \<open>
  One concrete deployment for the witnesses: the in-memory services with a sale of
  two units, two users and one item, and a schedule that delivers every call and hands out
  distinct identifiers.
\<close>

definition demo_sale :: Sale where
  "demo_sale = \<lparr>sale_ID = 7, sale_Name = ''demo'', sale_TotalStock = 2, sale_StartTime = 0,
     sale_EndTime = 3600 * second, sale_Status = SaleStatusActive, sale_CreatedAt = 0\<rparr>"

definition demo_db :: db where
  "demo_db = \<lparr>t_users = [1, 2], t_sale_items = [(5, 7)], t_sales = [demo_sale], t_reservations = [],
     t_orders = [], t_audit_log = []\<rparr>"

definition demo_id :: string where
  "demo_id = uuid_String canonical_uuid 7"

definition demo_keys :: "int \<Rightarrow> int \<Rightarrow> keyspace" where
  "demo_keys a b = [availableKey demo_id \<mapsto> cnt a, reservedKey demo_id \<mapsto> cnt b]"

definition demo_world :: "(keyspace, db) world" where
  "demo_world = \<lparr>redis_st = demo_keys 2 0, pg_st = demo_db, published = [], metrics = [], hub_calls = []\<rparr>"

definition demo_orc :: schedule where
  "demo_orc i = \<lparr>ch_net = Delivered, ch_uuid = 100 + of_nat i, ch_now = second * int i\<rparr>"

lemma demo_world_simps [simp]: "redis_st demo_world = demo_keys 2 0" "pg_st demo_world = demo_db"
  "published demo_world = []"
  by (simp_all add: demo_world_def)

lemma demo_orc_delivered [simp]: "delivered demo_orc"
  by (simp add: delivered_def demo_orc_def)

lemma demo_has_stock: "in64 a \<Longrightarrow> in64 b \<Longrightarrow> has_stock (demo_keys a b) (uuid_String canonical_uuid 7) a b"
  by (simp add: has_stock_def stock_at_def demo_keys_def demo_id_def canonical.codec_keys)

lemma demo_db_ok: "db_ok demo_db"
  by (simp add: db_ok_def reservation_refs_def order_refs_def confirmations_ok_def demo_db_def)

lemma demo_no_other_key: "demo_keys a b (idempotencyKeyName (uuid_String canonical_uuid 7) k) = None"
  "demo_keys a b (waitlistKey (uuid_String canonical_uuid 7)) = None"
  by (simp_all add: demo_keys_def demo_id_def canonical.codec_keys)

lemma demo_in64: "in64 2" "in64 1" "in64 0"
  by (simp_all add: in64_def)

text \<open>The same deployment with one unit reserved by user 1.\<close>

definition demo_res :: Reservation where
  "demo_res = \<lparr>res_ID = 11, res_UserID = 1, res_SaleID = 7, res_ItemID = 5, res_Status = Reserved,
     res_ReservedAt = 0, res_ConfirmedAt = None, res_ExpiresAt = 600 * second\<rparr>"

definition demo_held_db :: db where
  "demo_held_db = demo_db\<lparr>t_reservations := [(demo_res, False)]\<rparr>"

definition demo_held :: "(keyspace, db) world" where
  "demo_held = demo_world\<lparr>redis_st := demo_keys 1 1, pg_st := demo_held_db\<rparr>"

lemma demo_held_simps [simp]: "redis_st demo_held = demo_keys 1 1" "pg_st demo_held = demo_held_db"
  "t_reservations demo_held_db = [(demo_res, False)]" "t_orders demo_held_db = []"
  by (simp_all add: demo_held_def demo_held_db_def demo_db_def)

lemma demo_res_simps [simp]: "res_ID demo_res = 11" "res_SaleID demo_res = 7" "res_Status demo_res = Reserved"
  "res_UserID demo_res = 1" "res_ExpiresAt demo_res = 600 * second"
  by (simp_all add: demo_res_def)

lemma demo_held_db_ok: "db_ok demo_held_db"
  by (simp add: db_ok_def reservation_refs_def order_refs_def confirmations_ok_def demo_held_db_def demo_db_def
      row_key_def demo_res_def demo_sale_def valid_confirmation_def)

end
