(* ===== verification/Reservation_Correct.thy ===== *)
theory Reservation_Correct
  imports Execution Reservation_Service Example_World
begin

text \<open>
  What \<open>Reserve\<close>, \<open>Confirm\<close> and \<open>Release\<close> do when they run alone with every call delivered:
  the value they return, the Redis keys, the table rows, the events and the audit entries.  A row holds what the code has inserted with its times cut to
  microseconds (\<open>stored_reservation\<close>, \<open>stored_order\<close>).
\<close>

section \<open>Expected effects\<close>

text \<open>The reservation \<open>Reserve\<close> builds from a fresh identifier and two clock readings.\<close>

definition new_reservation :: "ReservationService \<Rightarrow> uuid \<Rightarrow> uuid \<Rightarrow> uuid \<Rightarrow> schedule \<Rightarrow> Reservation" where
  "new_reservation svc userID saleID itemID orc =
     \<lparr>res_ID = ch_uuid (orc 0), res_UserID = userID, res_SaleID = saleID, res_ItemID = itemID,
      res_Status = Reserved, res_ReservedAt = ch_now (orc 1), res_ConfirmedAt = None,
      res_ExpiresAt = ch_now (orc 2) + ttl_duration svc\<rparr>"

text \<open>The keys after a reservation: both counters moved, the TTL key, the idempotency key.\<close>

definition reserved_keys ::
  "uuid_lib \<Rightarrow> ReservationService \<Rightarrow> Reservation \<Rightarrow> string \<Rightarrow> keyspace \<Rightarrow> keyspace" where
  "reserved_keys L svc r key ks =
     (let ks1 = ks(ttlKey (uuid_String L (res_ID r)) \<mapsto> (Str ''1'', ttl_arg (ttl_duration svc)))
      in if key = [] then ks1
         else ks1(idempotencyKeyName (uuid_String L (res_SaleID r)) key \<mapsto>
                    (Str (uuid_String L (res_ID r)), ttl_arg (24 * 3600 * second))))"

definition reserved_audit :: "uuid_lib \<Rightarrow> Reservation \<Rightarrow> AuditEntry" where
  "reserved_audit L r = audit_entry (res_ID r) ''reserved''
     [(''user_id'', uuid_String L (res_UserID r)), (''sale_id'', uuid_String L (res_SaleID r)),
      (''item_id'', uuid_String L (res_ItemID r))]"

definition stock_events :: "ReservationService \<Rightarrow> string \<Rightarrow> int \<Rightarrow> (string \<times> Event) list" where
  "stock_events svc sid available =
     (if publisher svc
      then [(saleChannel sid, stock_update available)] @
        (if available = 0 then [(saleChannel sid, sale_ended ''sold_out'')] else [])
      else [])"

definition new_order :: "Reservation \<Rightarrow> string \<Rightarrow> schedule \<Rightarrow> Order" where
  "new_order r key orc =
     \<lparr>ord_ID = ch_uuid (orc 2), ord_ReservationID = res_ID r, ord_UserID = res_UserID r,
      ord_SaleID = res_SaleID r, ord_Amount = 0, ord_Status = ''pending'', ord_IdempotencyKey = key,
      ord_CreatedAt = ch_now (orc 0)\<rparr>"

text \<open>The tables after a confirmation: the row, the order and the audit entry, together.\<close>

definition confirmed_db :: "uuid_lib \<Rightarrow> uuid \<Rightarrow> Order \<Rightarrow> db \<Rightarrow> db" where
  "confirmed_db L i x d = d\<lparr>
     t_reservations := update_rows (\<lambda>r. r\<lparr>res_Status := Confirmed, res_ConfirmedAt := Some (pg_time (ord_CreatedAt x))\<rparr>) i (t_reservations d),
     t_orders := t_orders d @ [stored_order x],
     t_audit_log := t_audit_log d @ [audit_entry i ''confirmed'' [(''order_id'', uuid_String L (ord_ID x))]]\<rparr>"

text \<open>The tables after a release or an expiry: the row's new status and the audit entry.\<close>

definition closed_db :: "uuid_lib \<Rightarrow> Reservation \<Rightarrow> ReservationStatus \<Rightarrow> string \<Rightarrow> db \<Rightarrow> db" where
  "closed_db L r st ev d = d\<lparr>
     t_reservations := update_rows (\<lambda>r. r\<lparr>res_Status := st\<rparr>) (res_ID r) (t_reservations d),
     t_audit_log := t_audit_log d @ [audit_entry (res_ID r) ev [(''sale_id'', uuid_String L (res_SaleID r))]]\<rparr>"

definition set_counters :: "string \<Rightarrow> int \<Rightarrow> int \<Rightarrow> keyspace \<Rightarrow> keyspace" where
  "set_counters sid a b ks = ks(availableKey sid \<mapsto> cnt a, reservedKey sid \<mapsto> cnt b)"

text \<open>The types of the audit entries fit their columns.\<close>

lemma audit_texts [simp]: "varchar_fits 100 ''reservation''" "varchar_fits 100 ''reserved''" "varchar_fits 100 ''confirmed''"
  "varchar_fits 100 ''released''" "varchar_fits 100 ''expired''" "varchar_fits 100 ''promoted''" "varchar_fits 100 ''sale''"
  "varchar_fits 100 ''reconciliation_correction''" "varchar_fits 100 ''startup_reconciliation''"
  by (simp_all add: varchar_fits_def utf8_tail_def)

section \<open>Reserve\<close>

context shop
begin

lemma reserve_announce_run:
  assumes orc: "delivered orc" and st: "has_stock (ks w) (uuid_String L (res_SaleID r)) a b"
  shows "\<exists>w'. run S (reserve_announce L svc r) orc w = (Returned (Inr r), w') \<and>
     ks w' = ks w \<and> tb w' = (tb w)\<lparr>t_audit_log := t_audit_log (tb w) @ [reserved_audit L r]\<rparr> \<and>
     published w' = published w @ stock_events svc (uuid_String L (res_SaleID r)) a"
  using orc
  by (auto simp: reserve_announce_def shop_simps has_stockD [OF st] audit_entry_def reserved_audit_def
      stock_events_def)

lemma reserve_record_run:
  assumes orc: "delivered orc" and st: "has_stock (ks w) (uuid_String L sale) a b"
    and r: "r = new_reservation svc u sale item orc" and ok: "reservation_ok (tb w) r"
  shows "\<exists>w'. run S (reserve_record L svc u sale item key) orc w = (Returned (Inr r), w') \<and>
     ks w' = reserved_keys L svc r key (ks w) \<and>
     tb w' = (tb w)\<lparr>t_reservations := t_reservations (tb w) @ [(stored_reservation r, False)],
       t_audit_log := t_audit_log (tb w) @ [reserved_audit L r]\<rparr> \<and>
     published w' = published w @ stock_events svc (uuid_String L sale) a"
proof -
  have "\<exists>orc' w1. run S (reserve_record L svc u sale item key) orc w = run S (reserve_announce L svc r) orc' w1 \<and>
      delivered orc' \<and> ks w1 = reserved_keys L svc r key (ks w) \<and> published w1 = published w \<and>
      tb w1 = (tb w)\<lparr>t_reservations := t_reservations (tb w) @ [(stored_reservation r, False)]\<rparr>"
    using orc ok
    by (cases "key = []")
       (simp_all add: r reserve_record_def shop_simps new_reservation_def reserved_keys_def
        setIdempotency_def numeral_2_eq_2, (intro exI conjI, rule refl, simp_all add: shop_simps)+)
  then obtain orc' w1 where run: "run S (reserve_record L svc u sale item key) orc w = run S (reserve_announce L svc r) orc' w1"
    and w1: "delivered orc'" "ks w1 = reserved_keys L svc r key (ks w)" "published w1 = published w"
      "tb w1 = (tb w)\<lparr>t_reservations := t_reservations (tb w) @ [(stored_reservation r, False)]\<rparr>" by blast
  have sale: "res_SaleID r = sale" by (simp add: r new_reservation_def)
  have "has_stock (ks w1) (uuid_String L (res_SaleID r)) a b"
    using st w1(2) by (simp add: has_stock_def stock_at_def reserved_keys_def Let_def sale codec_keys)
  from reserve_announce_run [OF w1(1) this, of svc] show ?thesis
    by (simp add: run w1 sale)
qed

lemma Reserve_run:
  assumes orc: "delivered orc" and st: "has_stock (ks w) (uuid_String L sale) a b" and a: "0 < a" "in64 (b + 1)"
    and key: "key = [] \<or> ks w (idempotencyKeyName (uuid_String L sale) key) = None"
    and r: "r = new_reservation svc u sale item (if key = [] then shift orc else shift (shift orc))"
    and ok: "reservation_ok (tb w) r"
  shows "\<exists>w'. run S (Reserve L svc u sale item key) orc w = (Returned (Inr r), w') \<and>
     ks w' = reserved_keys L svc r key (set_counters (uuid_String L sale) (a - 1) (b + 1) (ks w)) \<and>
     tb w' = (tb w)\<lparr>t_reservations := t_reservations (tb w) @ [(stored_reservation r, False)],
       t_audit_log := t_audit_log (tb w) @ [reserved_audit L r]\<rparr> \<and>
     published w' = published w @ stock_events svc (uuid_String L sale) (a - 1)"
proof -
  let ?o = "if key = [] then shift orc else shift (shift orc)"
  have "\<exists>w1. run S (Reserve L svc u sale item key) orc w = run S (reserve_record L svc u sale item key) ?o w1 \<and>
      ks w1 = set_counters (uuid_String L sale) (a - 1) (b + 1) (ks w) \<and>
      published w1 = published w \<and> tb w1 = tb w"
    using orc a key
    by (cases "key = []")
       (simp_all add: Reserve_def checkIdempotency_def shop_simps has_stockD [OF st] get_reply,
        (intro exI conjI, rule refl, simp_all add: shop_simps has_stockD [OF st] set_counters_def)+)
  then obtain w1 where run: "run S (Reserve L svc u sale item key) orc w = run S (reserve_record L svc u sale item key) ?o w1"
    and w1: "ks w1 = set_counters (uuid_String L sale) (a - 1) (b + 1) (ks w)"
      "published w1 = published w" "tb w1 = tb w" by blast
  have "in64 (a - 1)" using a has_stockD(3) [OF st] by (simp add: in64_def)
  then have "has_stock (ks w1) (uuid_String L sale) (a - 1) (b + 1)"
    using a w1(1) by (simp add: has_stock_def stock_at_def set_counters_def codec_keys)
  from reserve_record_run [OF _ this r, of key] show ?thesis using orc ok by (simp add: run w1)
qed

lemma Reserve_sold_out_run:
  assumes "delivered orc" "no_stock (ks w) (availableKey (uuid_String L sale))"
    and "key = [] \<or> ks w (idempotencyKeyName (uuid_String L sale) key) = None"
  shows "\<exists>w'. run S (Reserve L svc u sale item key) orc w = (Returned (Inl (Errorf ''sold out'')), w') \<and>
     ks w' = ks w \<and> pg_st w' = pg_st w \<and> published w' = published w"
  using assms unfolding no_stock_def
  by (cases "key = []") (auto simp: Reserve_def checkIdempotency_def shop_simps get_reply)

lemma Reserve_rejected_run:
  assumes orc: "delivered orc" and st: "has_stock (ks w) (uuid_String L sale) a b" and a: "0 < a" "in64 (b + 1)"
    and key: "key = [] \<or> ks w (idempotencyKeyName (uuid_String L sale) key) = None"
    and r: "r = new_reservation svc u sale item (if key = [] then shift orc else shift (shift orc))"
    and bad: "\<not> reservation_ok (tb w) r"
  shows "\<exists>w'. run S (Reserve L svc u sale item key) orc w =
       (Returned (Inl (Wrapf ''failed to create reservation'' PgErr)), w') \<and>
     ks w' = ks w \<and> tb w' = tb w \<and> published w' = published w"
proof -
  have ks: "(ks w)(availableKey (uuid_String L sale) \<mapsto> cnt a, reservedKey (uuid_String L sale) \<mapsto> cnt b) = ks w"
    using has_stockD [OF st] by auto
  have "in64 (a - 1)" using a has_stockD(3) [OF st] by (simp add: in64_def)
  with orc a key bad ks show ?thesis
    by (cases "key = []")
       (auto simp: Reserve_def checkIdempotency_def reserve_record_def shop_simps has_stockD [OF st]
        get_reply r new_reservation_def numeral_2_eq_2 fun_upd_twist)
qed

lemma Reserve_replay_run:
  assumes "delivered orc" "key \<noteq> []"
    and "ks w (idempotencyKeyName (uuid_String L sale) key) = Some (Str (uuid_String L i), t)"
    and "filter (\<lambda>r. res_ID r = i) (map fst (t_reservations (tb w))) = r # rs"
  shows "\<exists>w'. run S (Reserve L svc u sale item key) orc w = (Returned (Inr (r\<lparr>res_ConfirmedAt := None\<rparr>)), w') \<and>
     ks w' = ks w \<and> pg_st w' = pg_st w \<and> published w' = published w"
  using assms by (simp add: Reserve_def checkIdempotency_def shop_simps get_reply parse_string)

end

section \<open>Confirm\<close>

context shop
begin

lemma confirm_tx_run:
  assumes "delivered orc" "order_ok (tb w) (new_order r key orc)"
  shows "\<exists>w'. run S (confirm_tx L (res_ID r) r key) orc w = (Returned (Inr (new_order r key orc)), w') \<and>
     ks w' = ks w \<and> tb w' = confirmed_db L (res_ID r) (new_order r key orc) (tb w) \<and> published w' = published w"
  using assms
  by (simp add: confirm_tx_def shop_simps new_order_def numeral_2_eq_2 confirmed_db_def audit_entry_def)

lemma Confirm_run:
  assumes orc: "delivered orc" and ok: "db_ok (tb w)" and r: "(r, p) \<in> set (t_reservations (tb w))"
    "res_Status r = Reserved" and st: "has_stock (ks w) (uuid_String L (res_SaleID r)) a b" "0 < b"
    and x: "x = new_order r key (if key = [] then shift (shift (shift orc)) else shift (shift (shift (shift orc))))"
    and new: "order_ok (tb w) x"
  shows "\<exists>w'. run S (Confirm L (res_ID r) key) orc w = (Returned (Inr x), w') \<and>
     ks w' = (ks w)(reservedKey (uuid_String L (res_SaleID r)) \<mapsto> cnt (b - 1)) \<and>
     tb w' = confirmed_db L (res_ID r) x (tb w) \<and> published w' = published w"
proof -
  let ?o = "if key = [] then shift (shift (shift orc)) else shift (shift (shift (shift orc)))"
  have "ord_IdempotencyKey x = key" by (simp add: x new_order_def)
  with new have "key \<noteq> [] \<Longrightarrow> filter (\<lambda>x. ord_IdempotencyKey x = key) (t_orders (tb w)) = []"
    by (metis (mono_tags, lifting) filter_empty_conv image_eqI order_ok_def)
  then have "\<exists>w1. run S (Confirm L (res_ID r) key) orc w = run S (confirm_tx L (res_ID r) r key) ?o w1 \<and>
      ks w1 = (ks w)(reservedKey (uuid_String L (res_SaleID r)) \<mapsto> cnt (b - 1)) \<and> pg_st w1 = pg_st w \<and>
      published w1 = published w"
    using orc r(2) st(2) has_stockD [OF st(1)] select_reservation [OF ok r(1)]
    by (cases "key = []") (simp_all add: Confirm_def getOrderByIdempotencyKey_def shop_simps,
        (intro exI conjI, rule refl, simp_all)+)
  then obtain w1 where run: "run S (Confirm L (res_ID r) key) orc w = run S (confirm_tx L (res_ID r) r key) ?o w1"
    and w1: "ks w1 = (ks w)(reservedKey (uuid_String L (res_SaleID r)) \<mapsto> cnt (b - 1))" "pg_st w1 = pg_st w"
      "published w1 = published w" by blast
  from confirm_tx_run [of ?o w1 r key] orc new show ?thesis by (simp add: run w1 x)
qed

lemma Confirm_replay_run:
  assumes "delivered orc" "key \<noteq> []" "filter (\<lambda>x. ord_IdempotencyKey x = key) (t_orders (tb w)) = x # xs"
  shows "run S (Confirm L i key) orc w = (Returned (Inr x), w)"
  using assms by (simp add: Confirm_def getOrderByIdempotencyKey_def shop_simps)

lemma Confirm_rejected_run:
  assumes orc: "delivered orc" and ok: "db_ok (tb w)" and r: "(r, p) \<in> set (t_reservations (tb w))"
    "res_Status r = Reserved" and st: "has_stock (ks w) (uuid_String L (res_SaleID r)) a b" "0 < b" "in64 (a + 1)"
    and key: "key \<noteq> [] \<Longrightarrow> filter (\<lambda>x. ord_IdempotencyKey x = key) (t_orders (tb w)) = []"
    and x: "x = new_order r key (if key = [] then shift (shift (shift orc)) else shift (shift (shift (shift orc))))"
    and bad: "\<not> order_ok (tb w) x"
  shows "\<exists>w'. run S (Confirm L (res_ID r) key) orc w = (Returned (Inl (Wrapf ''failed to create order'' PgErr)), w') \<and>
     ks w' = set_counters (uuid_String L (res_SaleID r)) (a + 1) (b - 2) (ks w) \<and>
     tb w' = tb w \<and> published w' = published w"
proof -
  have "in64 (b - 1)" "in64 (b - 2)" using st(2) has_stockD(6) [OF st(1)] by (auto simp: in64_def)
  then show ?thesis
    using orc r(2) st(2,3) has_stockD [OF st(1)] select_reservation [OF ok r(1)] key bad
    by (cases "key = []") (simp_all add: Confirm_def getOrderByIdempotencyKey_def shop_simps confirm_tx_def
        confirm_abort_def x new_order_def numeral_2_eq_2 set_counters_def fun_upd_twist)
qed

lemma Confirm_refused_run:
  assumes "delivered orc" "filter (\<lambda>x. res_ID x = i) (map fst (t_reservations (tb w))) = rs"
    and "key \<noteq> [] \<Longrightarrow> filter (\<lambda>x. ord_IdempotencyKey x = key) (t_orders (tb w)) = []"
  shows "rs = [] \<Longrightarrow> run S (Confirm L i key) orc w = (Returned (Inl (Wrapf ''reservation not found'' NoRows)), w)"
    and "rs = r # rs' \<Longrightarrow> res_Status r \<noteq> Reserved \<Longrightarrow>
      run S (Confirm L i key) orc w = (Returned (Inl (Errorf ''reservation not in reserved state'')), w)"
  using assms by (cases "key = []"; simp add: Confirm_def getOrderByIdempotencyKey_def shop_simps)+

end

section \<open>Release\<close>

context shop
begin

lemma Release_run:
  assumes orc: "delivered orc" and ok: "db_ok (tb w)" and r: "(r, p) \<in> set (t_reservations (tb w))"
    "res_Status r = Reserved" and st: "has_stock (ks w) (uuid_String L (res_SaleID r)) a b" "in64 (a + 1)" "in64 (b - 1)"
  shows "\<exists>w'. run S (Release L svc (res_ID r)) orc w = (Returned (Inr ()), w') \<and>
     ks w' = set_counters (uuid_String L (res_SaleID r)) (a + 1) (b - 1) (ks w) \<and>
     tb w' = closed_db L r Released ''released'' (tb w) \<and>
     published w' = published w @ (if publisher svc
       then [(saleChannel (uuid_String L (res_SaleID r)), stock_update (a + 1))] else [])"
  using orc r(2) st(2,3) has_stockD [OF st(1)] select_reservation [OF ok r(1)]
    unconfirm_update [OF ok r(1), of Released]
  by (simp add: Release_def shop_simps set_counters_def closed_db_def audit_entry_def)

lemma Release_refused_run:
  assumes "delivered orc" "filter (\<lambda>x. res_ID x = i) (map fst (t_reservations (tb w))) = rs"
  shows "rs = [] \<Longrightarrow> run S (Release L svc i) orc w = (Returned (Inl (Wrapf ''reservation not found'' NoRows)), w)"
    and "rs = r # rs' \<Longrightarrow> res_Status r \<noteq> Reserved \<Longrightarrow>
      run S (Release L svc i) orc w = (Returned (Inl (Errorf ''reservation not in reserved state'')), w)"
  using assms by (simp_all add: Release_def shop_simps)

end

section \<open>Properties\<close>

text \<open>
  C11: A successful reservation.  With a unit available, a fresh identifier and valid references, and the
  idempotency key absent (or none given), \<open>Reserve\<close> returns the new reservation; it moves one unit from
  available to reserved, sets the TTL key and the idempotency key, inserts the row and the audit entry, and
  publishes the new stock, and the end of the sale exactly when the last unit went.
\<close>

theorem Reserve_success:
  assumes "shop S view tables L" "delivered orc" "has_stock (view (redis_st w)) (uuid_String L sale) a b"
    "0 < a" "in64 (b + 1)"
    "key = [] \<or> view (redis_st w) (idempotencyKeyName (uuid_String L sale) key) = None"
    "r = new_reservation svc u sale item (if key = [] then shift orc else shift (shift orc))"
    "reservation_ok (tables (pg_st w)) r"
  shows "\<exists>w'. run S (Reserve L svc u sale item key) orc w = (Returned (Inr r), w') \<and>
     view (redis_st w') = reserved_keys L svc r key
       (set_counters (uuid_String L sale) (a - 1) (b + 1) (view (redis_st w))) \<and>
     tables (pg_st w') = (tables (pg_st w))\<lparr>t_reservations := t_reservations (tables (pg_st w)) @ [(stored_reservation r, False)],
       t_audit_log := t_audit_log (tables (pg_st w)) @ [reserved_audit L r]\<rparr> \<and>
     published w' = published w @ stock_events svc (uuid_String L sale) (a - 1)"
  using shop.Reserve_run [OF assms] .

definition demo_svc :: ReservationService where
  "demo_svc = \<lparr>reservationTTL = 600, publisher = True\<rparr>"

lemma demo_reservation_ok:
  "\<forall>i. ch_uuid (orc i) \<notin> (res_ID \<circ> fst) ` set (t_reservations d) \<Longrightarrow> t_users d = [1, 2] \<Longrightarrow>
     t_sales d = [demo_sale] \<Longrightarrow> t_sale_items d = [(5, 7)] \<Longrightarrow> reservation_ok d (new_reservation svc 1 7 5 orc)"
  by (simp add: reservation_ok_def new_reservation_def demo_sale_def valid_confirmation_def)

theorem Reserve_success_witness:
  "\<exists>r w'. run mem_services (Reserve canonical_uuid demo_svc 1 7 5 ''k'') demo_orc demo_world = (Returned (Inr r), w') \<and>
     pg_st w' = demo_db\<lparr>t_reservations := [(stored_reservation r, False)], t_audit_log := [reserved_audit canonical_uuid r]\<rparr>"
  using Reserve_success [OF mem_shop_ok demo_orc_delivered, of demo_world 7 2 0 "''k''" _ demo_svc 1 5]
    demo_has_stock [of 2 0] demo_no_other_key(1) [of 2 0 "''k''"]
    demo_reservation_ok [of "shift (shift demo_orc)" demo_db demo_svc]
  by (fastforce simp: demo_in64 demo_db_def)

text \<open>
  A sold-out sale.  When the available counter is missing or not positive, \<open>Reserve\<close> answers "sold out" and
  changes neither Redis nor the database, and publishes nothing.
\<close>

theorem Reserve_sold_out:
  assumes "shop S view tables L" "delivered orc" "no_stock (view (redis_st w)) (availableKey (uuid_String L sale))"
    "key = [] \<or> view (redis_st w) (idempotencyKeyName (uuid_String L sale) key) = None"
  shows "\<exists>w'. run S (Reserve L svc u sale item key) orc w = (Returned (Inl (Errorf ''sold out'')), w') \<and>
     view (redis_st w') = view (redis_st w) \<and> pg_st w' = pg_st w \<and> published w' = published w"
  using shop.Reserve_sold_out_run [OF assms] .

theorem Reserve_sold_out_witness:
  "\<exists>w'. run mem_services (Reserve canonical_uuid demo_svc 1 7 5 []) demo_orc (demo_world\<lparr>redis_st := demo_keys 0 2\<rparr>) =
     (Returned (Inl (Errorf ''sold out'')), w')"
  using Reserve_sold_out [OF mem_shop_ok demo_orc_delivered, of "demo_world\<lparr>redis_st := demo_keys 0 2\<rparr>" 7 "[]" demo_svc 1 5]
    has_stockD [OF demo_has_stock [of 0 2]] by (auto simp: no_stock_def demo_in64)

text \<open>
  C22: A rejected insert is compensated.  When PostgreSQL rejects the reservation row (an unknown user, sale or
  item), \<open>Reserve\<close> returns the error and has put the unit back: both counters, every other key and every table are as
  before, and nothing was published.
\<close>

theorem Reserve_compensates:
  assumes "shop S view tables L" "delivered orc" "has_stock (view (redis_st w)) (uuid_String L sale) a b"
    "0 < a" "in64 (b + 1)"
    "key = [] \<or> view (redis_st w) (idempotencyKeyName (uuid_String L sale) key) = None"
    "r = new_reservation svc u sale item (if key = [] then shift orc else shift (shift orc))"
    "\<not> reservation_ok (tables (pg_st w)) r"
  shows "\<exists>w'. run S (Reserve L svc u sale item key) orc w =
       (Returned (Inl (Wrapf ''failed to create reservation'' PgErr)), w') \<and>
     view (redis_st w') = view (redis_st w) \<and> tables (pg_st w') = tables (pg_st w) \<and> published w' = published w"
  using shop.Reserve_rejected_run [OF assms] .

theorem Reserve_compensates_witness:
  "\<exists>w'. run mem_services (Reserve canonical_uuid demo_svc 9 7 5 []) demo_orc demo_world =
      (Returned (Inl (Wrapf ''failed to create reservation'' PgErr)), w') \<and> redis_st w' = demo_keys 2 0"
  using Reserve_compensates [OF mem_shop_ok demo_orc_delivered, of demo_world 7 2 0 "[]" _ demo_svc 9 5]
    demo_has_stock [of 2 0]
  by (auto simp: demo_in64 reservation_ok_def new_reservation_def demo_db_def)

text \<open>
  C12: Replaying a reservation request.  Repeating a successful \<open>Reserve\<close> with the same non-empty idempotency key, before
  anything else happens, returns the same reservation as the database holds it (the times cut to microseconds, every other field equal) and takes no second unit: Redis, the tables
  and the published events are unchanged.
\<close>

theorem Reserve_idempotent:
  assumes "shop S view tables L" "delivered orc" "delivered orc2" "has_stock (view (redis_st w)) (uuid_String L sale) a b"
    "0 < a" "in64 (b + 1)" "key \<noteq> []" "view (redis_st w) (idempotencyKeyName (uuid_String L sale) key) = None"
    "r = new_reservation svc u sale item (shift (shift orc))" "reservation_ok (tables (pg_st w)) r"
  shows "\<exists>w' w''. run S (Reserve L svc u sale item key) orc w = (Returned (Inr r), w') \<and>
     run S (Reserve L svc u sale item key) orc2 w' = (Returned (Inr (stored_reservation r)), w'') \<and>
     view (redis_st w'') = view (redis_st w') \<and> pg_st w'' = pg_st w' \<and> published w'' = published w'"
proof -
  obtain w' where run: "run S (Reserve L svc u sale item key) orc w = (Returned (Inr r), w')"
    and ks: "view (redis_st w') = reserved_keys L svc r key
       (set_counters (uuid_String L sale) (a - 1) (b + 1) (view (redis_st w)))"
    and tb: "t_reservations (tables (pg_st w')) = t_reservations (tables (pg_st w)) @ [(stored_reservation r, False)]"
    using shop.Reserve_run [OF assms(1,2,4-6), of key r svc u item] assms(7-10) by auto
  have r: "res_SaleID r = sale" "(stored_reservation r)\<lparr>res_ConfirmedAt := None\<rparr> = stored_reservation r"
    by (simp_all add: assms(9) new_reservation_def stored_reservation_def)
  have "res_ID r \<notin> (res_ID \<circ> fst) ` set (t_reservations (tables (pg_st w)))"
    using assms(10) by (simp add: reservation_ok_def)
  then have "\<forall>x \<in> set (map fst (t_reservations (tables (pg_st w)))). res_ID x \<noteq> res_ID r" by force
  then have rows: "filter (\<lambda>x. res_ID x = res_ID r) (map fst (t_reservations (tables (pg_st w')))) = [stored_reservation r]"
    by (simp add: tb filter_empty_conv)
  have "view (redis_st w') (idempotencyKeyName (uuid_String L sale) key) =
      Some (Str (uuid_String L (res_ID r)), ttl_arg (24 * 3600 * second))"
    using assms(7) by (simp add: ks reserved_keys_def r(1))
  from shop.Reserve_replay_run [OF assms(1,3,7) this rows, of svc u item] run r(2) show ?thesis by auto
qed

theorem Reserve_idempotent_witness:
  "\<exists>r w' w''. run mem_services (Reserve canonical_uuid demo_svc 1 7 5 ''k'') demo_orc demo_world = (Returned (Inr r), w') \<and>
     run mem_services (Reserve canonical_uuid demo_svc 1 7 5 ''k'') demo_orc w' = (Returned (Inr (stored_reservation r)), w'') \<and>
     redis_st w'' = redis_st w'"
  using Reserve_idempotent [OF mem_shop_ok demo_orc_delivered demo_orc_delivered, of demo_world 7 2 0 "''k''" _ demo_svc 1 5]
    demo_has_stock [of 2 0] demo_no_other_key(1) [of 2 0 "''k''"]
    demo_reservation_ok [of "shift (shift demo_orc)" demo_db demo_svc]
  by (fastforce simp: demo_in64 demo_db_def)

text \<open>
  C13: A successful confirmation.  For a reservation in state reserved, with the reserved counter positive and an order the
  schema accepts, \<open>Confirm\<close> returns the new order; the reserved counter drops by one and no other key changes; the row is
  confirmed with its time in microseconds, the order and the audit entry are stored.
\<close>

theorem Confirm_success:
  assumes "shop S view tables L" "delivered orc" "db_ok (tables (pg_st w))"
    "(r, p) \<in> set (t_reservations (tables (pg_st w)))" "res_Status r = Reserved"
    "has_stock (view (redis_st w)) (uuid_String L (res_SaleID r)) a b" "0 < b"
    "x = new_order r key (if key = [] then shift (shift (shift orc)) else shift (shift (shift (shift orc))))"
    "order_ok (tables (pg_st w)) x"
  shows "\<exists>w'. run S (Confirm L (res_ID r) key) orc w = (Returned (Inr x), w') \<and>
     view (redis_st w') = (view (redis_st w))(reservedKey (uuid_String L (res_SaleID r)) \<mapsto> cnt (b - 1)) \<and>
     tables (pg_st w') = confirmed_db L (res_ID r) x (tables (pg_st w)) \<and> published w' = published w"
  using shop.Confirm_run [OF assms] .

lemma demo_key: "varchar_fits 255 ''k''" "varchar_fits 255 []"
  by (simp_all add: varchar_fits_def utf8_tail_def)

lemma demo_order_ok: "varchar_fits 255 key \<Longrightarrow> order_ok demo_held_db (new_order demo_res key orc)"
  by (simp add: order_ok_def new_order_def order_status_ok_def) (simp add: demo_held_db_def demo_db_def demo_sale_def)

theorem Confirm_success_witness:
  "\<exists>x w'. run mem_services (Confirm canonical_uuid 11 ''k'') demo_orc demo_held = (Returned (Inr x), w') \<and>
     t_orders (pg_st w') = [stored_order x] \<and> redis_st w' (reservedKey (uuid_String canonical_uuid 7)) = Some (cnt 0)"
  using Confirm_success [OF mem_shop_ok demo_orc_delivered, of demo_held demo_res False 1 1 _ "''k''"]
    demo_held_db_ok demo_has_stock [of 1 1] demo_order_ok [OF demo_key(1)]
  by (fastforce simp: demo_in64 confirmed_db_def)

text \<open>
  C14: Replaying a confirmation.  Repeating a successful \<open>Confirm\<close> with the same non-empty idempotency key returns the same
  order as the database holds it (its time cut to microseconds, every other field equal) and changes nothing at all.
\<close>

theorem Confirm_idempotent:
  assumes "shop S view tables L" "delivered orc" "delivered orc2" "db_ok (tables (pg_st w))"
    "(r, p) \<in> set (t_reservations (tables (pg_st w)))" "res_Status r = Reserved"
    "has_stock (view (redis_st w)) (uuid_String L (res_SaleID r)) a b" "0 < b"
    "x = new_order r key (shift (shift (shift (shift orc))))" "order_ok (tables (pg_st w)) x" "key \<noteq> []"
  shows "\<exists>w'. run S (Confirm L (res_ID r) key) orc w = (Returned (Inr x), w') \<and>
     run S (Confirm L (res_ID r) key) orc2 w' = (Returned (Inr (stored_order x)), w')"
proof -
  obtain w' where run: "run S (Confirm L (res_ID r) key) orc w = (Returned (Inr x), w')"
    and tb: "tables (pg_st w') = confirmed_db L (res_ID r) x (tables (pg_st w))"
    using shop.Confirm_run [OF assms(1,2,4-8), of x key] assms(9-11) by auto
  have key: "ord_IdempotencyKey x = key" by (simp add: assms(9) new_order_def)
  then have "key \<notin> ord_IdempotencyKey ` set (t_orders (tables (pg_st w)))"
    using assms(10) by (simp add: order_ok_def)
  then have "\<forall>y \<in> set (t_orders (tables (pg_st w))). ord_IdempotencyKey y \<noteq> key" by (metis imageI)
  then have "filter (\<lambda>y. ord_IdempotencyKey y = key) (t_orders (tables (pg_st w'))) = stored_order x # []"
    using key by (simp add: tb confirmed_db_def filter_empty_conv)
  from shop.Confirm_replay_run [OF assms(1,3,11) this] run show ?thesis by auto
qed

theorem Confirm_idempotent_witness:
  "\<exists>x w'. run mem_services (Confirm canonical_uuid 11 ''k'') demo_orc demo_held = (Returned (Inr x), w') \<and>
     run mem_services (Confirm canonical_uuid 11 ''k'') demo_orc w' = (Returned (Inr (stored_order x)), w')"
  using Confirm_idempotent [OF mem_shop_ok demo_orc_delivered demo_orc_delivered, of demo_held demo_res False 1 1 _ "''k''"]
    demo_held_db_ok demo_has_stock [of 1 1] demo_order_ok [OF demo_key(1)]
  by (fastforce simp: demo_in64)

lemma find_filter: "find P xs = (case filter P xs of [] \<Rightarrow> None | x # _ \<Rightarrow> Some x)"
  by (induction xs) auto

text \<open>
  C23: A closed reservation stays closed.  For a reservation that is confirmed, released or expired, \<open>Release\<close> answers "reservation not in reserved
  state"; \<open>Confirm\<close> answers with the order that is already stored under its idempotency key, if it has a key and there is one, and otherwise with the same error.
  Neither changes anything.
\<close>

theorem closed_refused:
  assumes "shop S view tables L" "delivered orc" "db_ok (tables (pg_st w))"
    "(r, p) \<in> set (t_reservations (tables (pg_st w)))" "res_Status r \<noteq> Reserved"
  shows "run S (Release L svc (res_ID r)) orc w = (Returned (Inl (Errorf ''reservation not in reserved state'')), w) \<and>
     run S (Confirm L (res_ID r) key) orc w =
       (Returned (case if key = [] then None else find (\<lambda>x. ord_IdempotencyKey x = key) (t_orders (tables (pg_st w))) of
          None \<Rightarrow> Inl (Errorf ''reservation not in reserved state'') | Some x \<Rightarrow> Inr x), w)"
proof -
  note row = select_reservation [OF assms(3,4)]
  have "run S (Release L svc (res_ID r)) orc w = (Returned (Inl (Errorf ''reservation not in reserved state'')), w)"
    using shop.Release_refused_run(2) [OF assms(1,2) row, of r "[]" svc] assms(5) by simp
  moreover have "run S (Confirm L (res_ID r) key) orc w = (Returned (Inl (Errorf ''reservation not in reserved state'')), w)"
    if "key \<noteq> [] \<Longrightarrow> filter (\<lambda>x. ord_IdempotencyKey x = key) (t_orders (tables (pg_st w))) = []"
    using shop.Confirm_refused_run(2) [OF assms(1,2) row that] assms(5) by simp
  ultimately show ?thesis
    using shop.Confirm_replay_run [OF assms(1,2), of key w]
    by (cases "filter (\<lambda>x. ord_IdempotencyKey x = key) (t_orders (tables (pg_st w)))") (auto simp: find_filter)
qed

theorem closed_refused_witness:
  "run mem_services (Release canonical_uuid demo_svc 11) demo_orc
     (demo_held\<lparr>pg_st := demo_held_db\<lparr>t_reservations := [(demo_res\<lparr>res_Status := Released\<rparr>, False)]\<rparr>\<rparr>) =
   (Returned (Inl (Errorf ''reservation not in reserved state'')),
     demo_held\<lparr>pg_st := demo_held_db\<lparr>t_reservations := [(demo_res\<lparr>res_Status := Released\<rparr>, False)]\<rparr>\<rparr>)"
proof -
  let ?d = "demo_held_db\<lparr>t_reservations := [(demo_res\<lparr>res_Status := Released\<rparr>, False)]\<rparr>"
  have "db_ok ?d" by (simp add: db_ok_def reservation_refs_def order_refs_def confirmations_ok_def demo_held_db_def
      demo_db_def row_key_def demo_res_def demo_sale_def valid_confirmation_def)
  then show ?thesis
    using closed_refused [OF mem_shop_ok demo_orc_delivered, of "demo_held\<lparr>pg_st := ?d\<rparr>"
        "demo_res\<lparr>res_Status := Released\<rparr>" False demo_svc] by simp
qed

text \<open>
  C29: A failed confirmation leaves the counters wrong.  When the database rejects the order (and no order is stored under the client's key yet) after \<open>confirm.lua\<close> has already
  taken the unit out of the reserved counter, the compensation runs \<open>release.lua\<close>: the available counter has gained a
  unit and the reserved counter has lost two, although the tables are unchanged and the reservation is still in state reserved, so that
  nothing should have moved.
\<close>

theorem Confirm_rejected_drift:
  assumes "shop S view tables L" "delivered orc" "db_ok (tables (pg_st w))"
    "(r, p) \<in> set (t_reservations (tables (pg_st w)))" "res_Status r = Reserved"
    "has_stock (view (redis_st w)) (uuid_String L (res_SaleID r)) a b" "0 < b" "in64 (a + 1)"
    "key = [] \<or> key \<notin> ord_IdempotencyKey ` set (t_orders (tables (pg_st w)))"
    "x = new_order r key (if key = [] then shift (shift (shift orc)) else shift (shift (shift (shift orc))))"
    "\<not> order_ok (tables (pg_st w)) x"
  shows "\<exists>w'. run S (Confirm L (res_ID r) key) orc w = (Returned (Inl (Wrapf ''failed to create order'' PgErr)), w') \<and>
     view (redis_st w') = set_counters (uuid_String L (res_SaleID r)) (a + 1) (b - 2) (view (redis_st w)) \<and>
     tables (pg_st w') = tables (pg_st w)"
proof -
  have "filter (\<lambda>x. ord_IdempotencyKey x = key) (t_orders (tables (pg_st w))) = []" if "key \<noteq> []"
    using assms(9) that by (auto simp: filter_empty_conv)
  from shop.Confirm_rejected_run [OF assms(1-8) this assms(10,11)] show ?thesis by auto
qed

theorem Confirm_rejected_drift_witness:
  "\<exists>w'. run mem_services (Confirm canonical_uuid 11 []) demo_orc
      (demo_held\<lparr>pg_st := demo_held_db\<lparr>t_orders := [new_order demo_res [] (\<lambda>_. demo_orc 0)]\<rparr>\<rparr>) =
        (Returned (Inl (Wrapf ''failed to create order'' PgErr)), w') \<and>
     redis_st w' = set_counters (uuid_String canonical_uuid 7) 2 (- 1) (demo_keys 1 1)"
proof -
  let ?d = "demo_held_db\<lparr>t_orders := [new_order demo_res [] (\<lambda>_. demo_orc 0)]\<rparr>"
  have "db_ok ?d" by (simp add: db_ok_def reservation_refs_def order_refs_def confirmations_ok_def demo_held_db_def
      demo_db_def row_key_def demo_res_def demo_sale_def valid_confirmation_def new_order_def order_status_ok_def)
  moreover have "\<not> order_ok ?d (new_order demo_res [] (shift (shift (shift demo_orc))))"
    by (simp add: order_ok_def new_order_def)
  ultimately show ?thesis
    using Confirm_rejected_drift [OF mem_shop_ok demo_orc_delivered, of "demo_held\<lparr>pg_st := ?d\<rparr>" demo_res False 1 1 "[]"]
      demo_has_stock [of 1 1] by (auto simp: demo_in64)
qed

text \<open>
  At most one order without an idempotency key.  The key column is unique and an absent \<open>Idempotency-Key\<close> header is
  stored as the empty string, so once any order was placed without a key, every later \<open>Confirm\<close> without a key fails.
\<close>

theorem keyless_order_once:
  assumes "shop S view tables L" "delivered orc" "db_ok (tables (pg_st w))"
    "(r, p) \<in> set (t_reservations (tables (pg_st w)))" "res_Status r = Reserved"
    "has_stock (view (redis_st w)) (uuid_String L (res_SaleID r)) a b" "0 < b" "in64 (a + 1)"
    "y \<in> set (t_orders (tables (pg_st w)))" "ord_IdempotencyKey y = []"
  shows "fst (run S (Confirm L (res_ID r) []) orc w) = Returned (Inl (Wrapf ''failed to create order'' PgErr))"
proof -
  have "[] \<in> ord_IdempotencyKey ` set (t_orders (tables (pg_st w)))" using assms(9,10) by (metis imageI)
  then have "\<not> order_ok (tables (pg_st w)) (new_order r [] (shift (shift (shift orc))))"
    by (simp add: order_ok_def new_order_def)
  with shop.Confirm_rejected_run [OF assms(1-8), of "[]"] show ?thesis by auto
qed

theorem keyless_order_once_witness:
  "fst (run mem_services (Confirm canonical_uuid 11 []) demo_orc
      (demo_held\<lparr>pg_st := demo_held_db\<lparr>t_orders := [new_order demo_res [] (\<lambda>_. demo_orc 0)]\<rparr>\<rparr>)) =
    Returned (Inl (Wrapf ''failed to create order'' PgErr))"
proof -
  let ?x = "new_order demo_res [] (\<lambda>_. demo_orc 0)"
  let ?d = "demo_held_db\<lparr>t_orders := [?x]\<rparr>"
  have "db_ok ?d" by (simp add: db_ok_def reservation_refs_def order_refs_def confirmations_ok_def demo_held_db_def
      demo_db_def row_key_def demo_res_def demo_sale_def valid_confirmation_def new_order_def order_status_ok_def)
  moreover have "ord_IdempotencyKey ?x = []" by (simp add: new_order_def)
  ultimately show ?thesis
    using keyless_order_once [OF mem_shop_ok demo_orc_delivered, of "demo_held\<lparr>pg_st := ?d\<rparr>" demo_res False 1 1 ?x]
      demo_has_stock [of 1 1] by (simp add: demo_in64)
qed

end
