(* ===== verification/Stock_Ledger.thy ===== *)
theory Stock_Ledger
  imports Program
begin

text \<open>
  The accounting behind "no overselling".  For one sale, the available counter \<open>a\<close>, the
  reserved counter \<open>b\<close>, the number of orders in the database and the number of confirmations
  that goroutines hold but have not yet turned into an order never exceed the
  total stock together.  \<open>disc\<close> is the discipline a program has to follow: it touches the sale's
  counters only through the scripts, and commits an order only after a successful \<open>confirm.lua\<close>.
  Each call keeps the ledger (\<open>exec_ledger\<close>), so every interleaving of disciplined programs
  does (\<open>ledger_reachable\<close>).
\<close>

section \<open>The discipline\<close>

definition order_of :: "uuid \<Rightarrow> stmt \<Rightarrow> bool" where
  "order_of s st = (case st of InsertOrder x \<Rightarrow> ord_SaleID x = s | _ \<Rightarrow> False)"

definition order_inserts :: "uuid \<Rightarrow> stmt list \<Rightarrow> nat" where
  "order_inserts s sts = length (filter (order_of s) sts)"

definition orders :: "uuid \<Rightarrow> db \<Rightarrow> nat" where
  "orders s d = length (filter (\<lambda>x. ord_SaleID x = s) (t_orders d))"

definition cost :: "uuid \<Rightarrow> cmd \<Rightarrow> nat" where
  "cost s c = (case c of PgExec st \<Rightarrow> order_inserts s [st] | TxCommit sts \<Rightarrow> order_inserts s sts | _ \<Rightarrow> 0)"

definition int_reply :: "resp \<Rightarrow> bool" where
  "int_reply r = (case r of Rep rep \<Rightarrow> (case rep of RInt i \<Rightarrow> i \<noteq> - 1 | _ \<Rightarrow> False) | _ \<Rightarrow> False)"

definition gain :: "string \<Rightarrow> cmd \<Rightarrow> resp \<Rightarrow> nat" where
  "gain x c r = (case c of
       EvalSha sc keys argv \<Rightarrow>
         (if sc = Confirm_lua \<and> take 1 keys = [reservedKey x] \<and> int_reply r then 1 else 0)
     | _ \<Rightarrow> 0)"

text \<open>The keys with which the Go client runs each script, for the sale named \<open>y\<close>.\<close>

definition script_keys :: "script \<Rightarrow> string \<Rightarrow> string list" where
  "script_keys sc y = (case sc of
       Reserve_lua \<Rightarrow> [availableKey y, reservedKey y]
     | Release_lua \<Rightarrow> [availableKey y, reservedKey y]
     | Confirm_lua \<Rightarrow> [reservedKey y, availableKey y, metaKey y]
     | Waitlist_join_lua \<Rightarrow> [availableKey y, waitlistKey y]
     | Waitlist_promote_lua \<Rightarrow> [waitlistKey y, availableKey y, reservedKey y]
     | Token_bucket_lua \<Rightarrow> [ratelimitKey y])"

definition permitted :: "string \<Rightarrow> cmd \<Rightarrow> bool" where
  "permitted x c = (case c of
       EvalSha sc keys argv \<Rightarrow> \<exists>y. (colon_free y \<or> sc = Token_bucket_lua) \<and> keys = script_keys sc y
     | Redis rc \<Rightarrow> rreadonly rc \<or> (rkey rc \<noteq> availableKey x \<and> rkey rc \<noteq> reservedKey x)
     | _ \<Rightarrow> True)"

text \<open>A sale that exists is never inserted again.\<close>

definition feasible :: "uuid \<Rightarrow> cmd \<Rightarrow> resp \<Rightarrow> bool" where
  "feasible s c r \<longleftrightarrow> \<not> (\<exists>sl. c = PgExec (InsertSale sl) \<and> sale_ID sl = s \<and> r = PgDone)"

primrec disc :: "uuid \<Rightarrow> string \<Rightarrow> 'a prog \<Rightarrow> nat \<Rightarrow> bool" where
  "disc s x (Ret a) n = True"
| "disc s x Panic n = True"
| "disc s x (Call c k) n =
     (permitted x c \<and> cost s c \<le> n \<and>
      (\<forall>r. feasible s c r \<longrightarrow> disc s x (k r) (n - cost s c + gain x c r)))"

lemma disc_mono: "disc s x p n \<Longrightarrow> n \<le> m \<Longrightarrow> disc s x p m"
proof (induction p arbitrary: n m)
  case (Call c k)
  show ?case unfolding bindP.simps disc.simps
  proof (intro conjI allI impI)
    show "permitted x c" "cost s c \<le> m" using Call.prems by auto
    fix r assume "feasible s c r"
    with Call.prems(1) have "disc s x (k r) (n - cost s c + gain x c r)" by (simp only: disc.simps)
    then show "disc s x (k r) (m - cost s c + gain x c r)"
      by (rule Call.IH [OF rangeI]) (use Call.prems in simp)
  qed
qed simp_all

lemma disc_bind:
  assumes "disc s x p m" "\<And>a. disc s x (f a) n"
  shows "disc s x (bindP p f) (m + n)"
  using assms(1)
proof (induction p arbitrary: m)
  case (Ret a)
  then show ?case by (simp add: disc_mono [OF assms(2)])
next
  case (Call c k)
  show ?case unfolding bindP.simps disc.simps
  proof (intro conjI allI impI)
    show "permitted x c" "cost s c \<le> m + n" using Call.prems by auto
    fix r assume "feasible s c r"
    with Call have "disc s x (bindP (k r) f) (m - cost s c + gain x c r + n)"
      by (intro Call.IH) auto
    moreover have "cost s c \<le> m" using Call.prems by simp
    ultimately show "disc s x (bindP (k r) f) (m + n - cost s c + gain x c r)"
      by (simp add: ac_simps)
  qed
qed simp

text \<open>Programs that neither touch the counters nor insert orders need no credit.\<close>

lemma disc_bind0: "disc s x p 0 \<Longrightarrow> (\<And>a. disc s x (f a) n) \<Longrightarrow> disc s x (bindP p f) n"
  using disc_bind [of s x p 0 f n] by simp

lemma disc_void: "disc s x p n \<Longrightarrow> disc s x (void p) n"
  using disc_bind [of s x p n "\<lambda>_. Ret ()" 0] by (simp add: void_def)

section \<open>Counting orders\<close>

lemma orders_apply_stmt:
  "apply_stmt st d = Some d' \<Longrightarrow> orders s d' = orders s d + order_inserts s [st]"
  by (cases st) (auto simp: orders_def order_inserts_def order_of_def update_reservation_def split: if_splits)

lemma order_inserts_Cons: "order_inserts s (st # sts) = order_inserts s [st] + order_inserts s sts"
  by (simp add: order_inserts_def)

lemma orders_apply_stmts:
  "apply_stmts sts d = Some d' \<Longrightarrow> orders s d' = orders s d + order_inserts s sts"
proof (induction sts arbitrary: d)
  case Nil
  then show ?case by (simp add: order_inserts_def)
next
  case (Cons st sts)
  then show ?case
    by (auto simp: order_inserts_Cons [of s st sts] orders_apply_stmt split: option.splits)
qed

lemma sale_kept: "apply_stmts sts d = Some d' \<Longrightarrow> s \<in> sale_ID ` set (t_sales d) \<Longrightarrow>
    s \<in> sale_ID ` set (t_sales d')"
proof (induction sts arbitrary: d)
  case (Cons st sts)
  have one: "s \<in> sale_ID ` set (t_sales d1)" if "apply_stmt st d = Some d1" for d1
  proof (cases st)
    case (UpdateSaleStatus t i)
    with that have "map sale_ID (t_sales d1) = map sale_ID (t_sales d)" by (auto split: if_splits)
    then show ?thesis using Cons.prems(2) by (metis list.set_map)
  qed (use that Cons.prems(2) in \<open>auto simp: update_reservation_def split: if_splits\<close>)
  with Cons show ?case by (auto split: option.splits)
qed simp

section \<open>The ledger\<close>

definition ledger :: "uuid \<Rightarrow> string \<Rightarrow> int \<Rightarrow> keyspace \<Rightarrow> db \<Rightarrow> nat \<Rightarrow> bool" where
  "ledger s x T ks d n \<longleftrightarrow>
     s \<in> sale_ID ` set (t_sales d) \<and>
     (\<exists>a b. stock_at ks (availableKey x) (reservedKey x) (a, b) \<and> 0 \<le> a \<and> 0 \<le> a + b \<and>
        a + b + int (orders s d) + int n \<le> T)"

lemma ledger_mono: "ledger s x T ks d n \<Longrightarrow> m \<le> n \<Longrightarrow> ledger s x T ks d m"
  by (fastforce simp: ledger_def)

lemma ledger_no_oversell: "ledger s x T ks d n \<Longrightarrow> int (orders s d) + int n \<le> T"
  by (auto simp: ledger_def)

lemma ledger_frame:
  assumes "ledger s x T ks d n" "ks' (availableKey x) = ks (availableKey x)"
    "ks' (reservedKey x) = ks (reservedKey x)"
  shows "ledger s x T ks' d n"
  using assms by (simp add: ledger_def stock_at_def)

text \<open>The counters under each script, started with a non-negative number of available units.\<close>

definition moved :: "keyspace \<Rightarrow> string \<Rightarrow> string \<Rightarrow> int \<Rightarrow> bool" where
  "moved ks k1 k2 t \<longleftrightarrow> (\<exists>a b. stock_at ks k1 k2 (a, b) \<and> 0 \<le> a \<and> a + b = t)"

definition stock_inv :: "keyspace \<Rightarrow> string \<Rightarrow> string \<Rightarrow> int \<Rightarrow> int \<Rightarrow> bool" where
  "stock_inv ks k1 k2 a b \<longleftrightarrow> stock_at ks k1 k2 (a, b) \<and> 0 \<le> a \<and> 0 \<le> a + b \<and> a + b < 2 ^ 63 - 1"

lemma stock_inv_bounds:
  assumes "stock_inv ks k1 k2 a b"
  shows "0 < a \<Longrightarrow> in64 (b + 1)" "in64 (a + 1) \<Longrightarrow> in64 (b - 1)" "is_cnt (ks k1)" "cval (ks k1) = a"
    "is_cnt (ks k2)" "cval (ks k2) = b"
  using assms by (auto simp: stock_inv_def stock_at_def in64_def)

lemma moved_same: "stock_inv ks k1 k2 a b \<Longrightarrow> moved ks k1 k2 (a + b)"
  by (auto simp: stock_inv_def moved_def)

lemma moved_set: "stock_inv ks k1 k2 a b \<Longrightarrow> 0 \<le> a' \<Longrightarrow> a' + b' = a + b \<Longrightarrow> in64 a' \<Longrightarrow> in64 b' \<Longrightarrow>
    moved (set_stock ks k1 k2 (a', b')) k1 k2 (a + b)"
  unfolding moved_def stock_inv_def
  by (intro exI [of _ a'] exI [of _ b']) (auto simp: stock_at_def set_stock_def)

context redis_server
begin

lemma waitlist_join_frame:
  assumes "k \<noteq> k2"
  shows "view (snd (run_script R Waitlist_join_lua [k1, k2] argv r)) k = view r k"
proof -
  have get: "view (snd (lua_call R (GET k1) r f)) k = view r k"
    if "\<And>rep r'. view (snd (f rep r')) k = view r' k" for f r
    using that by (auto simp: lua_call_def split: prod.splits reply.splits)
      (metis read_view(1) snd_conv)+
  show ?thesis using assms
    by (auto simp: run_script_def waitlist_join_lua_def Let_def lua_call_frame get split: list.split)
qed

lemma reserve_moved:
  assumes inv: "stock_inv (view r) k1 k2 a b"
  shows "moved (view (snd (reserve_lua R k1 k2 r))) k1 k2 (a + b)"
proof (cases "0 < a")
  case True
  have "stock_at (view r) k1 k2 (a, b)" using inv by (simp add: stock_inv_def)
  from reserve_lua_ok(2) [OF this True] stock_inv_bounds(1) [OF inv True]
  show ?thesis using inv True
    by (simp, intro moved_set [OF inv]) (auto simp: stock_inv_def stock_at_def in64_def)
next
  case False
  then show ?thesis
    using reserve_lua_sold_out(2) [of r k1 k2] stock_inv_bounds(3,4) [OF inv] moved_same [OF inv] by simp
qed

lemma release_moved:
  assumes inv: "stock_inv (view r) k1 k2 a b"
  shows "moved (view (snd (release_lua R k1 k2 r))) k1 k2 (a + b)"
proof (cases "in64 (a + 1)")
  case True
  have "stock_at (view r) k1 k2 (a, b)" using inv by (simp add: stock_inv_def)
  from release_lua_ok(2) [OF this True] stock_inv_bounds(2) [OF inv True] True
  show ?thesis using inv by (simp, intro moved_set [OF inv]) (auto simp: stock_inv_def)
next
  case False
  then show ?thesis using release_lua_full(2) [of r k1 a k2] moved_same [OF inv] inv
    by (simp add: stock_inv_def stock_at_def)
qed

lemma promote_moved:
  assumes inv: "stock_inv (view r) k2 k3 a b" and d: "k1 \<noteq> k2" "k1 \<noteq> k3"
  shows "moved (view (snd (waitlist_promote_lua R k1 k2 k3 r))) k2 k3 (a + b)"
proof (cases "0 < a")
  case False
  then have "no_stock (view r) k2" using stock_inv_bounds(3,4) [OF inv] by (simp add: no_stock_def)
  then show ?thesis using waitlist_promote_none(2) moved_same [OF inv] by simp
next
  case True
  define r1 where "r1 = snd (redis_call R (ZPOPMIN k1) (snd (redis_call R (GET k2) r)))"
  define rep where "rep = fst (redis_call R (ZPOPMIN k1) (snd (redis_call R (GET k2) r)))"
  have v: "view r1 k2 = view r k2" "view r1 k3 = view r k3"
    using d frame [of _ "ZPOPMIN k1"] by (simp_all add: r1_def)
  with inv have inv1: "stock_inv (view r1) k2 k3 a b" by (simp add: stock_inv_def stock_at_def)
  note b1 = stock_inv_bounds [OF inv1]
  have "in64 (a - 1)" using inv True by (simp add: stock_inv_def stock_at_def in64_def)
  moreover have "k3 \<noteq> k2" using inv by (auto simp: stock_inv_def stock_at_def)
  ultimately have go: "moved (view (snd (lua_call R (DECR k2) r1 (\<lambda>_ r.
      lua_call R (INCR k3) r (\<lambda>_ r. (RBulk u, r)))))) k2 k3 (a + b)" for u
    using inv1 True b1(1) [OF True] b1(3-6) moved_set [OF inv1, of "a - 1" "b + 1"]
    by (simp add: lua_simps set_stock_def)
  have "waitlist_promote_lua R k1 k2 k3 r = (case rep of
      RArr (u # us) \<Rightarrow> lua_call R (DECR k2) r1 (\<lambda>_ r. lua_call R (INCR k3) r (\<lambda>_ r. (RBulk u, r)))
    | RErr e \<Rightarrow> (RErr e, r1) | _ \<Rightarrow> (RBulk ''-1'', r1))"
    using True stock_inv_bounds(3,4) [OF inv] is_cnt_in64 [of "view r k2"] unfolding waitlist_promote_lua_def
    by (simp add: lua_simps lua_call_def [of R "ZPOPMIN k1"] r1_def rep_def split: prod.split reply.split list.split)
  then show ?thesis using go moved_same [OF inv1] by (auto split: reply.split list.split)
qed

lemma confirm_moved:
  assumes inv: "stock_inv (view r) k1 k2 a b"
  shows "if int_reply (Rep (fst (confirm_lua R k2 r)))
     then stock_at (view (snd (confirm_lua R k2 r))) k1 k2 (a, b - 1) \<and> 0 < b
     else view (snd (confirm_lua R k2 r)) = view r"
proof (cases "0 < b")
  case True
  then show ?thesis using confirm_lua_ok [of r k2] stock_inv_bounds(5,6) [OF inv] inv
    by (auto simp: int_reply_def stock_inv_def stock_at_def in64_def)
next
  case False
  then show ?thesis using confirm_lua_refused [of r k2] stock_inv_bounds(5,6) [OF inv]
    by (simp add: int_reply_def)
qed

end

section \<open>Every call keeps the ledger\<close>

lemma ledger_stock_inv:
  assumes "ledger s x T ks d n" "T < 2 ^ 63 - 1"
  shows "\<exists>a b. stock_inv ks (availableKey x) (reservedKey x) a b \<and> a + b + int (orders s d) + int n \<le> T"
  using assms by (fastforce simp: ledger_def stock_inv_def)

lemma ledger_moved:
  assumes "ledger s x T ks d n" "stock_inv ks (availableKey x) (reservedKey x) a b"
    "moved ks' (availableKey x) (reservedKey x) (a + b)"
  shows "ledger s x T ks' d n"
proof -
  from assms(1,2) have "s \<in> sale_ID ` set (t_sales d)" "a + b + int (orders s d) + int n \<le> T" "0 \<le> a + b"
    by (auto simp: ledger_def stock_inv_def dest: stock_at_unique)
  with assms(3) show ?thesis unfolding ledger_def moved_def by (metis (no_types, lifting))
qed

lemma script_keys_other:
  assumes "colon_free x" "colon_free y" "x \<noteq> y"
  shows "availableKey x \<notin> set (script_keys sc y)" "reservedKey x \<notin> set (script_keys sc y)"
  using assms by (simp_all add: script_keys_def colon_simps split: script.split)

context redis_server
begin

lemma token_ledger:
  assumes "ledger s x T (view r) d n"
  shows "ledger s x T (view (snd (run_script R Token_bucket_lua [ratelimitKey u] argv r))) d n"
  using assms by (simp add: ledger_frame run_script_frame)

lemma script_ledger:
  fixes sc :: script and argv :: "string list"
  assumes l: "ledger s x T (view r) d n" and cf: "colon_free x" "colon_free y" and T: "T < 2 ^ 63 - 1"
  defines "res \<equiv> run_script R sc (script_keys sc y) argv r"
  shows "ledger s x T (view (snd res)) d (n + gain x (EvalSha sc (script_keys sc y) argv) (Rep (fst res)))"
proof (cases "x = y")
  case False
  have "gain x (EvalSha sc (script_keys sc y) argv) (Rep (fst res)) = 0"
    using False cf by (auto simp: gain_def script_keys_def colon_simps)
  then show ?thesis unfolding res_def
    using l script_keys_other [OF cf False] by (simp add: ledger_frame run_script_frame)
next
  case True
  obtain a b where inv: "stock_inv (view r) (availableKey x) (reservedKey x) a b"
    and sum: "a + b + int (orders s d) + int n \<le> T"
    using ledger_stock_inv [OF l T] by blast
  have "gain x (EvalSha sc (script_keys sc y) argv) q = 0" if "sc \<noteq> Confirm_lua" for q
    using that by (simp add: gain_def)
  note keep = ledger_moved [OF l inv]
  show ?thesis
  proof (cases sc)
    case Confirm_lua
    with True cf have res: "res = confirm_lua R (reservedKey x) r"
      by (simp add: res_def script_keys_def)
    have g: "gain x (EvalSha sc (script_keys sc y) argv) q = (if int_reply q then 1 else 0)" for q
      using Confirm_lua True by (simp add: gain_def script_keys_def)
    show ?thesis
      using confirm_moved [OF inv] l sum inv unfolding g res
      by (fastforce simp: ledger_def stock_inv_def split: if_splits)
  qed (use True keep reserve_moved [OF inv] release_moved [OF inv] cf
      promote_moved [OF inv, of "waitlistKey x"] ledger_frame [OF l] token_ledger [OF l] in
      \<open>auto simp: res_def script_keys_def gain_def colon_simps waitlist_join_frame\<close>)
qed

end

lemma ledger_pg:
  assumes "ledger s x T ks d n" "apply_stmts sts d = Some d'" "order_inserts s sts \<le> n"
  shows "ledger s x T ks d' (n - order_inserts s sts)"
proof -
  have "int (n - order_inserts s sts) = int n - int (order_inserts s sts)" using assms(3) by simp
  then show ?thesis using assms(1) sale_kept [OF assms(2), of s]
    by (auto simp: ledger_def orders_apply_stmts [OF assms(2)] add.assoc)
qed

lemma gain_simps [simp]: "gain x (Redis rc) r = 0" "gain x (PgExec st) r = 0" "gain x (TxCommit sts) r = 0"
  "gain x (Publish ch e) r = 0" "gain x (PgQuery q) r = 0" "gain x TxBegin r = 0"
  "gain x (TxExec sts st) r = 0" "gain x TxRollback r = 0" "gain x UuidNew r = 0" "gain x Now r = 0"
  "gain x (Metric m) r = 0" "gain x (HubCall h) r = 0" "gain x c NetErr = 0" "gain x c (cut_reply n r) = 0"
  by (simp_all add: gain_def int_reply_def cut_reply_def split: cmd.split resp.split)

lemma cut_reply_PgDone [simp]: "cut_reply n r \<noteq> PgDone"
  by (simp add: cut_reply_def split: resp.split)

context services
begin

lemma pg_ledger:
  assumes "ledger s x T k (tables p) C" "order_inserts s sts \<le> C"
  shows "ledger s x T k (tables (snd (pg_exec (srv_pg S) sts p))) (C - order_inserts s sts)"
  using assms ledger_pg [OF assms(1)] ledger_mono [OF assms(1), of "C - order_inserts s sts"]
  by (auto simp: pg_simps split: option.split)

lemma serve_ledger:
  assumes l: "ledger s x T (ks w) (tb w) C" and x: "colon_free x" and T: "T < 2 ^ 63 - 1"
    and p: "permitted x c" "cost s c \<le> C"
  shows "ledger s x T (ks (snd (serve S now c w))) (tb (snd (serve S now c w)))
     (C - cost s c + gain x c (fst (serve S now c w)))"
proof (cases c)
  case (EvalSha sc keys argv)
  with p obtain y where y: "colon_free y \<or> sc = Token_bucket_lua" and k: "keys = script_keys sc y"
    by (auto simp: permitted_def)
  from y show ?thesis
  proof
    assume "colon_free y"
    with EvalSha k script_ledger [OF l x _ T, of y sc argv] show ?thesis
      by (simp add: serve_def cost_def case_prod_beta)
  next
    assume "sc = Token_bucket_lua"
    with EvalSha k token_ledger [OF l, of y argv] show ?thesis
      by (simp add: serve_def cost_def case_prod_beta gain_def script_keys_def)
  qed
next
  case (Redis rc)
  then have "ks (snd (serve S now c w)) k = ks w k" if "k \<in> {availableKey x, reservedKey x}" for k
    using that p(1) frame [of k rc "redis_st w"] readonly [of rc "redis_st w"]
    by (auto simp: serve_def permitted_def split: prod.split)
  with Redis show ?thesis
    using ledger_frame [OF l, of "ks (snd (serve S now c w))"] by (simp add: serve_def cost_def case_prod_beta)
next
  case (PgExec st)
  then show ?thesis using p(2) pg_ledger [OF l, of "[st]"]
    by (simp add: serve_def cost_def case_prod_beta)
next
  case (TxCommit sts)
  then show ?thesis using p(2) pg_ledger [OF l, of sts]
    by (simp add: serve_def cost_def case_prod_beta)
qed (use l in \<open>simp_all add: serve_def cost_def\<close>)

lemma exec_ledger:
  assumes l: "ledger s x T (ks w) (tb w) C" and x: "colon_free x" and T: "T < 2 ^ 63 - 1"
    and p: "permitted x c" "cost s c \<le> C" and e: "exec S ch c w = (r, w')"
  shows "ledger s x T (ks w') (tb w') (C - cost s c + gain x c r)" and "feasible s c r"
proof -
  let ?w = "snd (serve S (ch_now ch) c w)"
  have served: "ledger s x T (ks ?w) (tb ?w) (C - cost s c)"
    using ledger_mono [OF serve_ledger [OF l x T p]] by simp
  have lost: "ledger s x T (ks w) (tb w) (C - cost s c)" using ledger_mono [OF l] by simp
  consider "(r, w') = serve S (ch_now ch) c w" | "gain x c r = 0" "r \<noteq> PgDone" "w' \<in> {w, ?w}"
  proof (cases "\<exists>n. ch_net ch = ReplyCut n")
    case True
    then show ?thesis using e that
      by (cases c) (auto simp: exec_def case_prod_beta split: hub_call.splits if_splits)
  next
    case False
    then show ?thesis using e that
      by (cases c; cases "ch_net ch") (auto simp: exec_def split: hub_call.splits if_splits)
  qed
  then show "ledger s x T (ks w') (tb w') (C - cost s c + gain x c r)"
    using serve_ledger [OF l x T p, of "ch_now ch"] served lost by cases (auto, metis fst_conv snd_conv)
  show "feasible s c r"
  proof (unfold feasible_def, clarify)
    fix sl assume c: "c = PgExec (InsertSale sl)" and s: "s = sale_ID sl" and r: "r = PgDone"
    then have "apply_stmts [InsertSale sl] (tb w) \<noteq> None"
      using e by (auto simp: exec_def serve_def exec_fst split: delivery.splits prod.splits if_splits
          dest: arg_cong [of _ _ fst])
    then have "sale_ID sl \<notin> sale_ID ` set (t_sales (tb w))" by (auto simp: sale_ok_def split: if_splits)
    with l s show False by (simp add: ledger_def)
  qed
qed

end

section \<open>Every interleaving keeps the ledger\<close>

text \<open>Each goroutine holds some credits, and the ledger holds their sum.\<close>

context expiring_services
begin

definition pool_ok :: "uuid \<Rightarrow> string \<Rightarrow> int \<Rightarrow> ('r, 'p) config \<Rightarrow> bool" where
  "pool_ok s x T cf \<longleftrightarrow>
     (\<exists>ns. list_all2 (disc s x) (snd cf) ns \<and> ledger s x T (ks (fst cf)) (tb (fst cf)) (sum_list ns))"

lemma pool_ok_step:
  assumes "pool_step S expire H cf cf'" "pool_ok s x T cf" "\<And>p. p \<in> H \<Longrightarrow> disc s x p 0"
    and x: "colon_free x" and T: "T < 2 ^ 63 - 1"
  shows "pool_ok s x T cf'"
  using assms(1)
proof cases
  case (act i ts c k ch w r w')
  obtain ns where d: "list_all2 (disc s x) ts ns" and l: "ledger s x T (ks w) (tb w) (sum_list ns)"
    using assms(2) act(1) by (auto simp: pool_ok_def)
  have i: "i < length ns" using d act(3) by (simp add: list_all2_lengthD)
  have "disc s x (Call c k) (ns ! i)" using list_all2_nthD [OF d act(3)] by (simp only: act(4))
  then have c: "permitted x c" "cost s c \<le> ns ! i"
    "\<And>r. feasible s c r \<Longrightarrow> disc s x (k r) (ns ! i - cost s c + gain x c r)"
    unfolding disc.simps by blast+
  define ns' where "ns' = ns[i := ns ! i - cost s c + gain x c r]"
  have "ns ! i \<le> sum_list ns" using i by (simp add: member_le_sum_list)
  then have C: "cost s c \<le> sum_list ns" using c(2) by simp
  have eq: "sum_list ns - cost s c + gain x c r = sum_list ns'"
    using sum_list_update_nat [OF i, of "ns ! i - cost s c + gain x c r"] c(2) C by (simp add: ns'_def)
  have "ledger s x T (ks w') (tb w') (sum_list ns')" "feasible s c r"
    using exec_ledger [OF l x T c(1) C act(5)] by (simp_all add: eq)
  moreover from this(2) have "list_all2 (disc s x) (ts[i := k r]) ns'"
    using c(3) d by (simp add: ns'_def list_all2_update_cong)
  ultimately show ?thesis using act(2) by (auto simp: pool_ok_def)
next
  case (spawn p w ts)
  obtain ns where "list_all2 (disc s x) ts ns" "ledger s x T (ks w) (tb w) (sum_list ns)"
    using assms(2) spawn(1) by (auto simp: pool_ok_def)
  then show ?thesis using assms(3) [OF spawn(3)] spawn(2) unfolding pool_ok_def
    by (intro exI [of _ "ns @ [0]"]) (auto intro: list_all2_appendI)
next
  case (expiry w ts k)
  have "ledger s x T (view (expire k (redis_st w))) (tb w) n" if "ledger s x T (ks w) (tb w) n" for n
    using that by (intro ledger_frame [OF that] expire_other) (auto simp: ledger_def stock_at_def)
  then show ?thesis using assms(2) expiry by (auto simp: pool_ok_def)
qed

lemma pool_ok_reachable:
  assumes "reachable S expire H w0 cf" "ledger s x T (ks w0) (tb w0) 0"
    and "\<And>p. p \<in> H \<Longrightarrow> disc s x p 0" "colon_free x" "T < 2 ^ 63 - 1"
  shows "pool_ok s x T cf"
  using assms(1)
proof induction
  case start
  show ?case using assms(2) by (auto simp: pool_ok_def intro!: exI [of _ "[]"])
next
  case (step cf cf')
  from step(2,3) assms(3-5) show ?case by (rule pool_ok_step)
qed

lemma ledger_reachable:
  assumes "reachable S expire H w0 (w, ts)" "ledger s x T (ks w0) (tb w0) 0"
    and "\<And>p. p \<in> H \<Longrightarrow> disc s x p 0" "colon_free x" "T < 2 ^ 63 - 1"
  shows "ledger s x T (ks w) (tb w) 0"
  using pool_ok_reachable [OF assms] by (auto simp: pool_ok_def intro: ledger_mono)

end

end
