(* ===== verification/Accounting.thy ===== *)
theory Accounting
  imports Reservation_Correct Stock_Ledger Example_World
begin

text \<open>
  The sale as its users see it: units on the shelf, reservations that hold a unit, units sold.
  \<open>shelf\<close> is that abstract state with its three operations; \<open>shelf_of\<close> reads it off the Redis
  counters and the tables, and \<open>consistent\<close> says that the counters agree with the tables.  Each
  service operation, run alone with every call delivered, implements the abstract operation and
  keeps the counters consistent.
\<close>

section \<open>The abstract sale\<close>

record shelf =
  on_shelf :: int
  held :: "uuid set"
  sold :: nat

definition shelf_reserve :: "uuid \<Rightarrow> shelf \<Rightarrow> shelf option" where
  "shelf_reserve i sh = (if on_shelf sh \<le> 0 then None
     else Some (sh\<lparr>on_shelf := on_shelf sh - 1, held := insert i (held sh)\<rparr>))"

definition shelf_confirm :: "uuid \<Rightarrow> shelf \<Rightarrow> shelf option" where
  "shelf_confirm i sh = (if i \<in> held sh
     then Some (sh\<lparr>held := held sh - {i}, sold := sold sh + 1\<rparr>) else None)"

definition shelf_release :: "uuid \<Rightarrow> shelf \<Rightarrow> shelf option" where
  "shelf_release i sh = (if i \<in> held sh
     then Some (sh\<lparr>on_shelf := on_shelf sh + 1, held := held sh - {i}\<rparr>) else None)"

definition holds_unit :: "uuid \<Rightarrow> Reservation \<Rightarrow> bool" where
  "holds_unit s r \<longleftrightarrow> res_SaleID r = s \<and> res_Status r = Reserved"

definition held_rows :: "uuid \<Rightarrow> db \<Rightarrow> Reservation list" where
  "held_rows s d = filter (holds_unit s) (map fst (t_reservations d))"

definition shelf_of :: "uuid_lib \<Rightarrow> uuid \<Rightarrow> keyspace \<Rightarrow> db \<Rightarrow> shelf" where
  "shelf_of L s ks d = \<lparr>on_shelf = cval (ks (availableKey (uuid_String L s))),
     held = res_ID ` set (held_rows s d), sold = orders s d\<rparr>"

definition consistent :: "uuid_lib \<Rightarrow> uuid \<Rightarrow> int \<Rightarrow> keyspace \<Rightarrow> db \<Rightarrow> bool" where
  "consistent L s T ks d \<longleftrightarrow> db_ok d \<and> 0 \<le> T \<and> T < 2 ^ 62 \<and>
     int (length (held_rows s d)) + int (orders s d) \<le> T \<and>
     has_stock ks (uuid_String L s) (T - int (length (held_rows s d)) - int (orders s d))
       (int (length (held_rows s d)))"

section \<open>Rows that hold a unit\<close>

lemma held_update:
  assumes "distinct (map (res_ID \<circ> fst) rows)" "(r, p) \<in> set rows" "holds_unit s r"
    and "keeps_key f" "\<And>x. res_Status (f x) \<noteq> Reserved"
  shows "filter (holds_unit s) (map fst (update_rows f (res_ID r) rows)) =
      filter (\<lambda>x. res_ID x \<noteq> res_ID r) (filter (holds_unit s) (map fst rows))"
    and "Suc (length (filter (\<lambda>x. res_ID x \<noteq> res_ID r) (filter (holds_unit s) (map fst rows)))) =
      length (filter (holds_unit s) (map fst rows))"
proof -
  show "filter (holds_unit s) (map fst (update_rows f (res_ID r) rows)) =
      filter (\<lambda>x. res_ID x \<noteq> res_ID r) (filter (holds_unit s) (map fst rows))"
    using assms(5) by (induction rows) (auto simp: update_rows_def holds_unit_def)
  show "Suc (length (filter (\<lambda>x. res_ID x \<noteq> res_ID r) (filter (holds_unit s) (map fst rows)))) =
      length (filter (holds_unit s) (map fst rows))"
    using assms(1-3)
  proof (induction rows)
    case (Cons y ys)
    show ?case
    proof (cases "y = (r, p)")
      case True
      have "\<forall>x \<in> set (map fst ys). res_ID x \<noteq> res_ID r" using Cons.prems(1) True by force
      then have "filter (\<lambda>x. res_ID x \<noteq> res_ID r) (filter (holds_unit s) (map fst ys)) =
          filter (holds_unit s) (map fst ys)" by (intro filter_True) auto
      with True Cons.prems(3) show ?thesis by simp
    next
      case False
      with Cons.prems have "(r, p) \<in> set ys" by auto
      moreover from this have "res_ID (fst y) \<noteq> res_ID r" using Cons.prems(1) by force
      ultimately show ?thesis using Cons by auto
    qed
  qed simp
qed

lemma held_rows_close:
  assumes "db_ok d" "(r, p) \<in> set (t_reservations d)" "holds_unit s r" "keeps_key f" "\<And>x. res_Status (f x) \<noteq> Reserved"
    and "t_reservations d' = update_rows f (res_ID r) (t_reservations d)"
  shows "Suc (length (held_rows s d')) = length (held_rows s d)"
    and "res_ID ` set (held_rows s d') = res_ID ` set (held_rows s d) - {res_ID r}"
proof -
  have "distinct (map (res_ID \<circ> fst) (t_reservations d))"
    using assms(1) by (simp add: db_ok_def reservation_refs_def)
  note u = held_update [OF this assms(2-5)]
  show "Suc (length (held_rows s d')) = length (held_rows s d)"
    using u by (simp add: held_rows_def assms(6))
  show "res_ID ` set (held_rows s d') = res_ID ` set (held_rows s d) - {res_ID r}"
    unfolding held_rows_def assms(6) u(1) by auto
qed

lemma held_member: "(r, p) \<in> set (t_reservations d) \<Longrightarrow> holds_unit s r \<Longrightarrow> res_ID r \<in> res_ID ` set (held_rows s d)"
  by (force simp: held_rows_def)

lemma orders_simps [simp]:
  "orders s (d\<lparr>t_reservations := rows\<rparr>) = orders s d" "orders s (d\<lparr>t_audit_log := es\<rparr>) = orders s d"
  "orders s (d\<lparr>t_orders := t_orders d @ [x]\<rparr>) = orders s d + (if ord_SaleID x = s then 1 else 0)"
  by (simp_all add: orders_def)

section \<open>The tables after each operation\<close>

lemma confirmed_db_apply: "order_ok d x \<Longrightarrow>
    apply_stmts [UpdateReservationConfirmed Confirmed (ord_CreatedAt x) i, InsertOrder x,
      InsertAudit (audit_entry i ''confirmed'' [(''order_id'', uuid_String L (ord_ID x))])] d = Some (confirmed_db L i x d)"
  by (simp add: confirmed_db_def audit_entry_def)

lemma closed_db_apply:
  assumes "db_ok d" "(r, p) \<in> set (t_reservations d)" "res_Status r = Reserved" "st \<noteq> Confirmed" "varchar_fits 100 ev"
  shows "apply_stmts [UpdateReservationStatus st (res_ID r),
      InsertAudit (audit_entry (res_ID r) ev [(''sale_id'', uuid_String L (res_SaleID r))])] d = Some (closed_db L r st ev d)"
  using unconfirm_update [OF assms(1,2), of st] assms(3-5) by (simp add: closed_db_def audit_entry_def)

lemma reserved_db_apply: "reservation_ok d r \<Longrightarrow>
    apply_stmts [InsertReservation r False, InsertAudit (reserved_audit L r)] d =
      Some (d\<lparr>t_reservations := t_reservations d @ [(stored_reservation r, False)], t_audit_log := t_audit_log d @ [reserved_audit L r]\<rparr>)"
  by (simp add: reserved_audit_def audit_entry_def)

lemmas tables_ok = apply_stmts_ok [OF confirmed_db_apply] apply_stmts_ok [OF closed_db_apply]
  apply_stmts_ok [OF reserved_db_apply]

text \<open>Counters after an update, with the names of one sale.\<close>

lemma has_stock_set_counters [simp]:
  assumes "has_stock ks x a b"
  shows "has_stock (set_counters x a' b' ks) x a' b' \<longleftrightarrow> in64 a' \<and> in64 b'"
    and "cval (set_counters x a' b' ks (availableKey x)) = cval (Some (cnt a'))"
  using has_stockD(9) [OF assms] by (auto simp: has_stock_def stock_at_def set_counters_def)

context shop
begin

lemma consistentD:
  assumes "consistent L s T k d"
  shows "db_ok d" "has_stock k (uuid_String L s) (T - int (length (held_rows s d)) - int (orders s d)) (int (length (held_rows s d)))"
    "int (length (held_rows s d)) + int (orders s d) \<le> T" "T < 2 ^ 62" "0 \<le> T"
  using assms by (simp_all add: consistent_def)

lemma Confirm_consistent:
  assumes orc: "delivered orc" and c: "consistent L s T (ks w) (tb w)"
    and r: "(r, p) \<in> set (t_reservations (tb w))" "holds_unit s r"
    and x: "x = new_order r key (if key = [] then shift (shift (shift orc)) else shift (shift (shift (shift orc))))"
    and new: "order_ok (tb w) x"
  shows "\<exists>w'. run S (Confirm L (res_ID r) key) orc w = (Returned (Inr x), w') \<and> consistent L s T (ks w') (tb w') \<and>
     shelf_confirm (res_ID r) (shelf_of L s (ks w) (tb w)) = Some (shelf_of L s (ks w') (tb w'))"
proof -
  note cD = consistentD [OF c]
  let ?d = "confirmed_db L (res_ID r) x (tb w)"
  let ?f = "\<lambda>r. r\<lparr>res_Status := Confirmed, res_ConfirmedAt := Some (pg_time (ord_CreatedAt x))\<rparr>"
  have s: "res_SaleID r = s" "res_Status r = Reserved" using r(2) by (simp_all add: holds_unit_def)
  have rows: "Suc (length (held_rows s ?d)) = length (held_rows s (tb w))"
    "res_ID ` set (held_rows s ?d) = res_ID ` set (held_rows s (tb w)) - {res_ID r}"
    by (rule held_rows_close [OF cD(1) r, where f = ?f]; simp add: confirmed_db_def)+
  have sold: "orders s ?d = Suc (orders s (tb w))"
    using s(1) by (simp add: confirmed_db_def orders_def x new_order_def)
  have pos: "0 < int (length (held_rows s (tb w)))" using rows(1) by linarith
  from Confirm_run [OF orc cD(1) r(1) s(2) _ pos x new] cD(2) s(1)
  obtain w' where run: "run S (Confirm L (res_ID r) key) orc w = (Returned (Inr x), w')"
    and ks': "ks w' = (ks w)(reservedKey (uuid_String L s) \<mapsto> cnt (int (length (held_rows s (tb w))) - 1))"
    and tb': "tb w' = ?d" by auto
  have "has_stock (ks w') (uuid_String L s) (T - int (length (held_rows s (tb w))) - int (orders s (tb w)))
      (int (length (held_rows s (tb w))) - 1)"
    using has_stockD [OF cD(2)] pos by (auto simp: ks' has_stock_def stock_at_def in64_def)
  then have "consistent L s T (ks w') (tb w')"
    using cD(3-5) tables_ok(1) [OF new cD(1)] by (simp add: consistent_def tb' sold rows(1) [symmetric] algebra_simps)
  then show ?thesis
    using run held_member [OF r] rows(2) sold has_stockD(9) [OF cD(2)]
    by (simp add: tb' shelf_confirm_def shelf_of_def ks')
qed

lemma closed_consistent:
  assumes c: "consistent L s T k d" and r: "(r, p) \<in> set (t_reservations d)" "holds_unit s r"
    and st: "st \<noteq> Reserved" "st \<noteq> Confirmed" "varchar_fits 100 ev"
    and k': "k' = set_counters (uuid_String L s) (T - int (length (held_rows s d)) - int (orders s d) + 1)
        (int (length (held_rows s d)) - 1) k"
    and d': "d' = closed_db L r st ev d"
  shows "consistent L s T k' d'" "shelf_release (res_ID r) (shelf_of L s k d) = Some (shelf_of L s k' d')"
proof -
  note cD = consistentD [OF c]
  have s: "res_SaleID r = s" "res_Status r = Reserved" using r(2) by (simp_all add: holds_unit_def)
  have rows: "Suc (length (held_rows s d')) = length (held_rows s d)"
    "res_ID ` set (held_rows s d') = res_ID ` set (held_rows s d) - {res_ID r}"
    by (rule held_rows_close [OF cD(1) r, where f = "\<lambda>r. r\<lparr>res_Status := st\<rparr>"]; simp add: d' st closed_db_def)+
  have sold: "orders s d' = orders s d" by (simp add: d' closed_db_def orders_def)
  have "db_ok d'" using tables_ok(2) [OF cD(1) r(1) s(2) st(2,3) cD(1)] by (simp add: d')
  moreover have ok: "in64 (T - int (length (held_rows s d)) - int (orders s d) + 1)" "in64 (int (length (held_rows s d)) - 1)"
    using cD(3-5) rows(1) by (simp_all add: in64_def)
  ultimately show "consistent L s T k' d'"
    using cD(3-5) by (simp add: consistent_def sold k' has_stock_set_counters(1) [OF cD(2)]
        rows(1) [symmetric] algebra_simps)
  show "shelf_release (res_ID r) (shelf_of L s k d) = Some (shelf_of L s k' d')"
    using held_member [OF r] rows(2) sold ok(1)
    by (simp add: shelf_release_def shelf_of_def k' has_stock_set_counters(2) [OF cD(2)] has_stockD(2) [OF cD(2)])
qed

lemma consistent_room:
  assumes "consistent L s T k d" "(r, p) \<in> set (t_reservations d)" "holds_unit s r"
  shows "in64 (T - int (length (held_rows s d)) - int (orders s d) + 1)" "in64 (int (length (held_rows s d)) - 1)"
  using consistentD(3-5) [OF assms(1)] by (simp_all add: in64_def)

lemma Release_consistent:
  assumes orc: "delivered orc" and c: "consistent L s T (ks w) (tb w)"
    and r: "(r, p) \<in> set (t_reservations (tb w))" "holds_unit s r"
  shows "\<exists>w'. run S (Release L svc (res_ID r)) orc w = (Returned (Inr ()), w') \<and> consistent L s T (ks w') (tb w') \<and>
     shelf_release (res_ID r) (shelf_of L s (ks w) (tb w)) = Some (shelf_of L s (ks w') (tb w'))"
proof -
  note cD = consistentD [OF c]
  have s: "res_SaleID r = s" "res_Status r = Reserved" using r(2) by (simp_all add: holds_unit_def)
  from Release_run [OF orc cD(1) r(1) s(2) _ consistent_room [OF c r], of svc] cD(2) s(1)
    closed_consistent [OF c r, of Released "''released''"]
  show ?thesis by auto
qed

lemma Reserve_consistent:
  assumes orc: "delivered orc" and c: "consistent L s T (ks w) (tb w)"
    and a: "0 < on_shelf (shelf_of L s (ks w) (tb w))"
    and key: "key = [] \<or> ks w (idempotencyKeyName (uuid_String L s) key) = None"
    and r: "r = new_reservation svc u s item (if key = [] then shift orc else shift (shift orc))"
    and ok: "reservation_ok (tb w) r"
  shows "\<exists>w'. run S (Reserve L svc u s item key) orc w = (Returned (Inr r), w') \<and> consistent L s T (ks w') (tb w') \<and>
     shelf_reserve (res_ID r) (shelf_of L s (ks w) (tb w)) = Some (shelf_of L s (ks w') (tb w'))"
proof -
  note cD = consistentD [OF c]
  let ?n = "int (length (held_rows s (tb w)))"
  let ?a = "T - ?n - int (orders s (tb w))"
  have pos: "0 < ?a" using a has_stockD(2) [OF cD(2)] by (simp add: shelf_of_def)
  have rng: "in64 (?n + 1)" "in64 (?a - 1)" using cD(3-5) pos by (simp_all add: in64_def)
  have hu: "holds_unit s r" by (simp add: holds_unit_def r new_reservation_def)
  from Reserve_run [OF orc cD(2) pos rng(1) key r ok]
  obtain w' where run: "run S (Reserve L svc u s item key) orc w = (Returned (Inr r), w')"
    and ks': "ks w' = reserved_keys L svc r key (set_counters (uuid_String L s) (?a - 1) (?n + 1) (ks w))"
    and tb': "tb w' = (tb w)\<lparr>t_reservations := t_reservations (tb w) @ [(stored_reservation r, False)],
       t_audit_log := t_audit_log (tb w) @ [reserved_audit L r]\<rparr>" by auto
  have keys: "ks w' (availableKey (uuid_String L s)) = Some (cnt (?a - 1))"
    "ks w' (reservedKey (uuid_String L s)) = Some (cnt (?n + 1))"
    by (simp_all add: ks' reserved_keys_def set_counters_def Let_def codec_keys r new_reservation_def)
  have rows: "held_rows s (tb w') = held_rows s (tb w) @ [stored_reservation r]" "orders s (tb w') = orders s (tb w)"
    using hu by (simp_all add: tb' held_rows_def orders_def holds_unit_def)
  have "db_ok (tb w')" using tables_ok(3) [OF ok cD(1)] by (simp add: tb')
  then have "consistent L s T (ks w') (tb w')"
    using cD(3-5) rng keys pos by (simp add: consistent_def rows has_stock_def stock_at_def codec_keys algebra_simps)
  then show ?thesis
    using run a rng(2) by (simp add: shelf_reserve_def shelf_of_def rows keys has_stockD(2) [OF cD(2)])
qed

end

section \<open>Properties\<close>

lemma demo_consistent: "consistent canonical_uuid 7 2 (demo_keys 2 0) demo_db"
  "consistent canonical_uuid 7 2 (demo_keys 1 1) demo_held_db"
  using demo_has_stock [of 2 0] demo_has_stock [of 1 1] demo_db_ok demo_held_db_ok
  by (simp_all add: consistent_def held_rows_def orders_def demo_in64 holds_unit_def) (simp_all add: demo_db_def)

text \<open>
  C3: \<open>Reserve\<close> implements the abstract reservation.  From a state where the counters agree with the tables and a unit is on
  the shelf, \<open>Reserve\<close> takes exactly one unit off the shelf and adds exactly the returned reservation to the held ones, and the counters
  agree with the tables again.
\<close>

theorem Reserve_refines:
  assumes "shop S view tables L" "delivered orc" "consistent L s T (view (redis_st w)) (tables (pg_st w))"
    "0 < on_shelf (shelf_of L s (view (redis_st w)) (tables (pg_st w)))"
    "key = [] \<or> view (redis_st w) (idempotencyKeyName (uuid_String L s) key) = None"
    "r = new_reservation svc u s item (if key = [] then shift orc else shift (shift orc))"
    "reservation_ok (tables (pg_st w)) r"
  shows "\<exists>w'. run S (Reserve L svc u s item key) orc w = (Returned (Inr r), w') \<and>
     consistent L s T (view (redis_st w')) (tables (pg_st w')) \<and>
     shelf_reserve (res_ID r) (shelf_of L s (view (redis_st w)) (tables (pg_st w))) =
       Some (shelf_of L s (view (redis_st w')) (tables (pg_st w')))"
  using shop.Reserve_consistent [OF assms] .

theorem Reserve_refines_witness:
  "\<exists>r w'. run mem_services (Reserve canonical_uuid demo_svc 1 7 5 []) demo_orc demo_world = (Returned (Inr r), w') \<and>
     consistent canonical_uuid 7 2 (redis_st w') (pg_st w')"
proof -
  have "on_shelf (shelf_of canonical_uuid 7 (demo_keys 2 0) demo_db) = 2"
    using has_stockD(2) [OF demo_has_stock [of 2 0]] by (simp add: shelf_of_def demo_in64)
  moreover have "reservation_ok demo_db (new_reservation demo_svc 1 7 5 (shift demo_orc))"
    using demo_reservation_ok [of "shift demo_orc" demo_db demo_svc] by (simp add: demo_db_def)
  ultimately show ?thesis
    using Reserve_refines [OF mem_shop_ok demo_orc_delivered, of 7 2 demo_world "[]" _ demo_svc 1 5] demo_consistent(1)
    by fastforce
qed

text \<open>
  C4: \<open>Confirm\<close> implements the abstract sale of a held unit.  Confirming a held reservation moves exactly that reservation from
  held to sold, leaves the shelf alone, and keeps the counters in agreement with the tables.
\<close>

theorem Confirm_refines:
  assumes "shop S view tables L" "delivered orc" "consistent L s T (view (redis_st w)) (tables (pg_st w))"
    "(r, p) \<in> set (t_reservations (tables (pg_st w)))" "holds_unit s r"
    "x = new_order r key (if key = [] then shift (shift (shift orc)) else shift (shift (shift (shift orc))))"
    "order_ok (tables (pg_st w)) x"
  shows "\<exists>w'. run S (Confirm L (res_ID r) key) orc w = (Returned (Inr x), w') \<and>
     consistent L s T (view (redis_st w')) (tables (pg_st w')) \<and>
     shelf_confirm (res_ID r) (shelf_of L s (view (redis_st w)) (tables (pg_st w))) =
       Some (shelf_of L s (view (redis_st w')) (tables (pg_st w')))"
  using shop.Confirm_consistent [OF assms] .

theorem Confirm_refines_witness:
  "\<exists>x w'. run mem_services (Confirm canonical_uuid 11 []) demo_orc demo_held = (Returned (Inr x), w') \<and>
     consistent canonical_uuid 7 2 (redis_st w') (pg_st w')"
  using Confirm_refines [OF mem_shop_ok demo_orc_delivered, of 7 2 demo_held demo_res False _ "[]"] demo_consistent(2)
    demo_order_ok [OF demo_key(2)] by (fastforce simp: holds_unit_def)

text \<open>
  C5: \<open>Release\<close> implements the abstract release.  Releasing a held reservation puts exactly one unit back on the shelf, removes
  exactly that reservation from the held ones, and keeps the counters in agreement with the tables.
\<close>

theorem Release_refines:
  assumes "shop S view tables L" "delivered orc" "consistent L s T (view (redis_st w)) (tables (pg_st w))"
    "(r, p) \<in> set (t_reservations (tables (pg_st w)))" "holds_unit s r"
  shows "\<exists>w'. run S (Release L svc (res_ID r)) orc w = (Returned (Inr ()), w') \<and>
     consistent L s T (view (redis_st w')) (tables (pg_st w')) \<and>
     shelf_release (res_ID r) (shelf_of L s (view (redis_st w)) (tables (pg_st w))) =
       Some (shelf_of L s (view (redis_st w')) (tables (pg_st w')))"
  using shop.Release_consistent [OF assms] .

theorem Release_refines_witness:
  "\<exists>w'. run mem_services (Release canonical_uuid demo_svc 11) demo_orc demo_held = (Returned (Inr ()), w') \<and>
     consistent canonical_uuid 7 2 (redis_st w') (pg_st w')"
  using Release_refines [OF mem_shop_ok demo_orc_delivered, of 7 2 demo_held demo_res False demo_svc] demo_consistent(2)
  by (fastforce simp: holds_unit_def)

end
