(* ===== verification/Inventory_Service.thy ===== *)
theory Inventory_Service
  imports Redis_Client
begin

text \<open>\<open>internal/inventory/service.go\<close>: creating, reading and changing a sale.\<close>

definition unix :: "time \<Rightarrow> int" where
  "unix t = t div second"

section \<open>CreateSale\<close>

text \<open>
  The pipeline sends its three commands whatever their outcome; \<open>pipe.Exec\<close> returns the first
  error.
\<close>

definition first_err :: "unit res list \<Rightarrow> unit res" where
  "first_err xs = (case filter (\<lambda>x. x \<noteq> Inr ()) xs of [] \<Rightarrow> Inr () | x # _ \<Rightarrow> x)"

definition meta_fields :: "Sale \<Rightarrow> (string \<times> string) list" where
  "meta_fields sale =
     [(''total'', Itoa (sale_TotalStock sale)), (''start_time'', Itoa (unix (sale_StartTime sale))),
      (''end_time'', Itoa (unix (sale_EndTime sale))), (''status'', sale_Status sale)]"

definition CreateSale :: "uuid_lib \<Rightarrow> Sale \<Rightarrow> Sale res prog" where
  "CreateSale L input =
     uuid_New (\<lambda>newID. time_Now (\<lambda>now.
     let sale = input\<lparr>sale_ID := newID, sale_CreatedAt := now, sale_Status := SaleStatusPending\<rparr>;
         sid = uuid_String L newID in
     bindP (Db_Exec (InsertSale sale)) (\<lambda>x. case x of
       Inl e \<Rightarrow> Ret (Inl (Wrapf ''failed to create sale'' e))
     | Inr _ \<Rightarrow>
     bindP (Redis_Set (availableKey sid) (Itoa (sale_TotalStock sale)) 0) (\<lambda>a.
     bindP (Redis_Set (reservedKey sid) (Itoa 0) 0) (\<lambda>b.
     bindP (Redis_HSet (metaKey sid) (meta_fields sale)) (\<lambda>c.
     case first_err [a, b, c] of
       Inl e \<Rightarrow> Ret (Inl (Wrapf ''failed to initialize redis data'' e))
     | Inr _ \<Rightarrow> Ret (Inr sale)))))))"

record SaleInput =
  in_Name :: string
  in_TotalStock :: int
  in_StartTime :: time
  in_EndTime :: time

definition CreateSaleAndReturn :: "uuid_lib \<Rightarrow> SaleInput \<Rightarrow> Sale res prog" where
  "CreateSaleAndReturn L input =
     CreateSale L \<lparr>sale_ID = 0, sale_Name = in_Name input, sale_TotalStock = in_TotalStock input,
       sale_StartTime = in_StartTime input, sale_EndTime = in_EndTime input, sale_Status = [],
       sale_CreatedAt = 0\<rparr>"

section \<open>GetSale and UpdateSaleStatus\<close>

definition GetSale :: "uuid_lib \<Rightarrow> uuid \<Rightarrow> (Sale \<times> SaleStats) res prog" where
  "GetSale L saleID =
     Call (PgQuery (SelectSale saleID)) (\<lambda>r. case scan_sale r of
       Inl e \<Rightarrow> Ret (Inl (Wrapf ''failed to get sale'' e))
     | Inr sale \<Rightarrow>
     bindP (Redis_Get_Int (availableKey (uuid_String L saleID))) (\<lambda>a. case a of
       Inl e \<Rightarrow> Ret (Inl (Wrapf ''failed to get available count'' e))
     | Inr available \<Rightarrow>
     bindP (Redis_Get_Int (reservedKey (uuid_String L saleID))) (\<lambda>b. case b of
       Inl e \<Rightarrow> Ret (Inl (Wrapf ''failed to get reserved count'' e))
     | Inr reserved \<Rightarrow>
     Ret (Inr (sale, \<lparr>Available = available, StatsReserved = reserved,
       Total = sale_TotalStock sale\<rparr>)))))"

definition UpdateSale :: "uuid_lib \<Rightarrow> uuid \<Rightarrow> string \<Rightarrow> unit res prog" where
  "UpdateSale L saleID status =
     bindP (Db_Exec (UpdateSaleStatus status saleID)) (\<lambda>x. case x of
       Inl e \<Rightarrow> Ret (Inl (Wrapf ''failed to update sale status'' e))
     | Inr _ \<Rightarrow>
     bindP (Redis_HSet (metaKey (uuid_String L saleID)) [(''status'', status)]) (\<lambda>y. case y of
       Inl e \<Rightarrow> Ret (Inl (Wrapf ''failed to update redis status'' e))
     | Inr _ \<Rightarrow> Ret (Inr ())))"

end
