(* ===== verification/Waitlist_Service.thy ===== *)
theory Waitlist_Service
  imports Inventory_Service
begin

text \<open>\<open>internal/waitlist/service.go\<close>: joining, asking for one's position, leaving.\<close>

record JoinResponse =
  join_Position :: int
  join_JoinedAt :: time

record PositionResponse =
  pos_Position :: int
  pos_TotalWaiting :: int

definition Join :: "uuid_lib \<Rightarrow> uuid \<Rightarrow> uuid \<Rightarrow> JoinResponse res prog" where
  "Join L saleID userID =
     time_Now (\<lambda>now.
     let timestamp = unix now in
     bindP (Client_WaitlistJoin (uuid_String L saleID) (uuid_String L userID) timestamp) (\<lambda>x. case x of
       Inl e \<Rightarrow> Ret (Inl (Wrapf ''failed to join waitlist'' e))
     | Inr rank \<Rightarrow>
       if rank = - 1 then Ret (Inl (Errorf ''stock available''))
       else if rank = - 2 then Ret (Inl (Errorf ''already in waitlist''))
       else Ret (Inr \<lparr>join_Position = rank + 1, join_JoinedAt = timestamp * second\<rparr>)))"

definition GetPosition :: "uuid_lib \<Rightarrow> uuid \<Rightarrow> uuid \<Rightarrow> PositionResponse res prog" where
  "GetPosition L saleID userID =
     bindP (Redis_int_reply (ZRANK (waitlistKey (uuid_String L saleID)) (uuid_String L userID))) (\<lambda>x. case x of
       Inl _ \<Rightarrow> Ret (Inl (Errorf ''user not in waitlist''))
     | Inr rank \<Rightarrow>
     bindP (Redis_int_reply (ZCARD (waitlistKey (uuid_String L saleID)))) (\<lambda>y. case y of
       Inl e \<Rightarrow> Ret (Inl (Wrapf ''failed to get waitlist size'' e))
     | Inr waiting \<Rightarrow> Ret (Inr \<lparr>pos_Position = rank + 1, pos_TotalWaiting = waiting\<rparr>)))"

definition Leave :: "uuid_lib \<Rightarrow> uuid \<Rightarrow> uuid \<Rightarrow> unit res prog" where
  "Leave L saleID userID =
     bindP (Redis_int_reply (ZREM (waitlistKey (uuid_String L saleID)) (uuid_String L userID))) (\<lambda>x. case x of
       Inl e \<Rightarrow> Ret (Inl (Wrapf ''failed to leave waitlist'' e))
     | Inr removed \<Rightarrow>
       if removed = 0 then Ret (Inl (Errorf ''user not in waitlist'')) else Ret (Inr ()))"

end
