(* ===== verification/Expiry_Handler.thy ===== *)
theory Expiry_Handler
  imports Reservation_Service Waitlist_Service
begin

text \<open>
  \<open>internal/queue/expiry_handler.go\<close>: releasing a reservation whose TTL key expired, promoting
  the next user of the waitlist, and the expiry warnings.  The handler's struct has the same
  fields as the reservation service and reuses its record.
\<close>

section \<open>Promotion\<close>

definition promote_record :: "uuid_lib \<Rightarrow> ReservationService \<Rightarrow> uuid \<Rightarrow> uuid \<Rightarrow> unit prog" where
  "promote_record L h saleID userID =
     (let sid = uuid_String L saleID in
     uuid_New (\<lambda>newID. uuid_New (\<lambda>itemID. time_Now (\<lambda>reservedAt. time_Now (\<lambda>now.
     let newReservation = \<lparr>res_ID = newID, res_UserID = userID, res_SaleID = saleID,
           res_ItemID = itemID, res_Status = Reserved, res_ReservedAt = reservedAt,
           res_ConfirmedAt = None, res_ExpiresAt = now + ttl_duration h\<rparr> in
     bindP (Db_Exec (InsertReservation newReservation True)) (\<lambda>x. case x of
       Inl _ \<Rightarrow> bindP (Client_Release sid) (\<lambda>_. Ret ())
     | Inr _ \<Rightarrow>
     bindP (Redis_Set (ttlKey (uuid_String L newID)) ''1'' (ttl_duration h)) (\<lambda>_.
     bindP (if publisher h
            then bindP (Publisher_WaitlistPromoted (uuid_String L userID) (uuid_String L newID)) (\<lambda>_.
                 bindP (Redis_Get_Int (availableKey sid)) (\<lambda>a.
                 Publisher_StockUpdate sid (int_or_zero a)))
            else Ret (Inr ())) (\<lambda>_.
     bindP (audit_Log (audit_entry newID ''promoted''
              [(''user_id'', uuid_String L userID), (''sale_id'', sid)])) (\<lambda>_.
     Ret ())))))))))"

definition promoteNextUser :: "uuid_lib \<Rightarrow> ReservationService \<Rightarrow> uuid \<Rightarrow> unit prog" where
  "promoteNextUser L h saleID =
     bindP (Client_WaitlistPromote (uuid_String L saleID)) (\<lambda>x. case x of
       Inl _ \<Rightarrow> Ret ()
     | Inr userIDStr \<Rightarrow>
       if userIDStr = ''-1'' then Ret ()
       else (case uuid_Parse L userIDStr of
           None \<Rightarrow> Ret ()
         | Some userID \<Rightarrow> promote_record L h saleID userID))"

section \<open>Expiry\<close>

definition handleExpiredReservation :: "uuid_lib \<Rightarrow> ReservationService \<Rightarrow> string \<Rightarrow> unit prog" where
  "handleExpiredReservation L h key =
     (let parts = Split key in
      if length parts \<noteq> 3 then Ret ()
      else case uuid_Parse L (parts ! 1) of
        None \<Rightarrow> Ret ()
      | Some reservationID \<Rightarrow>
      Call (PgQuery (SelectReservation reservationID)) (\<lambda>r. case scan_reservation r of
        Inl _ \<Rightarrow> Ret ()
      | Inr reservation \<Rightarrow>
      if res_Status reservation \<noteq> Reserved then Ret ()
      else
      let sid = uuid_String L (res_SaleID reservation) in
      bindP (Client_Release sid) (\<lambda>x. case x of
        Inl _ \<Rightarrow> Ret ()
      | Inr _ \<Rightarrow>
      bindP (Db_Exec (UpdateReservationStatus Expired reservationID)) (\<lambda>y. case y of
        Inl _ \<Rightarrow> Ret ()
      | Inr _ \<Rightarrow>
      bindP (Redis_Get_Int (availableKey sid)) (\<lambda>a.
      bindP (if publisher h then Publisher_StockUpdate sid (int_or_zero a) else Ret (Inr ())) (\<lambda>_.
      bindP (audit_Log (audit_entry reservationID ''expired'' [(''sale_id'', sid)])) (\<lambda>_.
      promoteNextUser L h (res_SaleID reservation))))))))"

definition has_prefix :: "string \<Rightarrow> string \<Rightarrow> bool" where
  "has_prefix p s \<longleftrightarrow> take (length p) s = p"

definition has_suffix :: "string \<Rightarrow> string \<Rightarrow> bool" where
  "has_suffix p s \<longleftrightarrow> has_prefix (rev p) (rev s)"

text \<open>The body of the subscription loop for one message: a goroutine is started for TTL keys only.\<close>

definition on_expired_message :: "uuid_lib \<Rightarrow> ReservationService \<Rightarrow> string \<Rightarrow> unit prog" where
  "on_expired_message L h payload =
     (if has_prefix ''reservation:'' payload \<and> has_suffix '':ttl'' payload
      then handleExpiredReservation L h payload else Ret ())"

text \<open>
  The subscription loop, over the results of \<open>ReceiveMessage\<close> so far: the goroutines it has started.  A failed receive ends the loop only when the context is done.
\<close>

datatype received = Message string | ReceiveError bool     \<comment> \<open>whether \<open>ctx.Err() != nil\<close>\<close>

primrec subscription_loop :: "uuid_lib \<Rightarrow> ReservationService \<Rightarrow> received list \<Rightarrow> unit prog list" where
  "subscription_loop L h [] = []"
| "subscription_loop L h (x # xs) = (case x of
       Message payload \<Rightarrow>
         (if has_prefix ''reservation:'' payload \<and> has_suffix '':ttl'' payload
          then handleExpiredReservation L h payload # subscription_loop L h xs
          else subscription_loop L h xs)
     | ReceiveError ctx_done \<Rightarrow> if ctx_done then [] else subscription_loop L h xs)"

lemma subscription_messages:
  "p \<in> set (subscription_loop L h xs) \<Longrightarrow> \<exists>payload. p = on_expired_message L h payload"
  by (induction xs) (auto simp: on_expired_message_def split: received.splits if_splits)

section \<open>Warnings\<close>

text \<open>\<open>int(d.Seconds())\<close> truncates towards zero; negative values become 0.\<close>

definition seconds_left :: "time \<Rightarrow> time \<Rightarrow> int" where
  "seconds_left now expiresAt =
     (let d = expiresAt - now; s = (if d < 0 then - ((- d) div second) else d div second)
      in if s < 0 then 0 else s)"

primrec notify_rows :: "uuid_lib \<Rightarrow> Reservation list \<Rightarrow> unit prog" where
  "notify_rows L [] = Ret ()"
| "notify_rows L (row # rows) =
     time_Now (\<lambda>now.
     bindP (Publisher_ReservationExpiring (uuid_String L (res_UserID row))
              (seconds_left now (res_ExpiresAt row))) (\<lambda>_.
     notify_rows L rows))"

definition notifyExpiringReservations :: "uuid_lib \<Rightarrow> ReservationService \<Rightarrow> unit prog" where
  "notifyExpiringReservations L h =
     (if \<not> publisher h then Ret ()
      else Call (PgQuery SelectExpiring) (\<lambda>r. case r of
        Rows (ReservationRows rows) \<Rightarrow> notify_rows L rows
      | RowsCut (ReservationRows rows) \<Rightarrow> notify_rows L rows
      | _ \<Rightarrow> Ret ()))"

primrec runExpiryWarningTicker :: "uuid_lib \<Rightarrow> ReservationService \<Rightarrow> wakeup list \<Rightarrow> unit prog" where
  "runExpiryWarningTicker L h [] = Ret ()"
| "runExpiryWarningTicker L h (x # xs) = (case x of
       CtxDone \<Rightarrow> Ret ()
     | Ticked \<Rightarrow> bindP (notifyExpiringReservations L h) (\<lambda>_. runExpiryWarningTicker L h xs))"

end
