(* ===== verification/Expiry_Correct.thy ===== *)
theory Expiry_Correct
  imports Accounting Expiry_Handler
begin

text \<open>
  The expiry handler: which keys it reacts to, that an expired reservation returns its unit
  exactly once, and what promotion does with the head of the waitlist.
\<close>

text \<open>The reservation a promotion builds: its item identifier is a fresh random UUID.\<close>

definition promoted_reservation :: "ReservationService \<Rightarrow> uuid \<Rightarrow> uuid \<Rightarrow> schedule \<Rightarrow> Reservation" where
  "promoted_reservation h saleID userID orc =
     \<lparr>res_ID = ch_uuid (orc 0), res_UserID = userID, res_SaleID = saleID, res_ItemID = ch_uuid (orc 1),
      res_Status = Reserved, res_ReservedAt = ch_now (orc 2), res_ConfirmedAt = None,
      res_ExpiresAt = ch_now (orc 3) + ttl_duration h\<rparr>"

section \<open>Which messages are handled\<close>

lemma ttlKey_accepted: "has_prefix ''reservation:'' (ttlKey u) \<and> has_suffix '':ttl'' (ttlKey u)"
  by (simp add: has_prefix_def has_suffix_def ttlKey_def)

context shop
begin

lemma ttl_message: "on_expired_message L h (ttlKey (uuid_String L i)) =
    handleExpiredReservation L h (ttlKey (uuid_String L i))"
  by (simp add: on_expired_message_def ttlKey_accepted)

lemma expired_refused_run:
  assumes "delivered orc" "filter (\<lambda>x. res_ID x = i) (map fst (t_reservations (tb w))) = rs"
    "rs = [] \<or> (\<exists>r rs'. rs = r # rs' \<and> res_Status r \<noteq> Reserved)"
  shows "run S (on_expired_message L h (ttlKey (uuid_String L i))) orc w = (Returned (), w)"
  using assms by (auto simp: ttl_message handleExpiredReservation_def Split_ttlKey string_colon_free parse_string shop_simps)

lemma expired_run:
  assumes orc: "delivered orc" and ok: "db_ok (tb w)" and r: "(r, p) \<in> set (t_reservations (tb w))"
    "res_Status r = Reserved" and st: "has_stock (ks w) (uuid_String L (res_SaleID r)) a b" "in64 (a + 1)" "in64 (b - 1)"
  shows "\<exists>orc' w'. run S (on_expired_message L h (ttlKey (uuid_String L (res_ID r)))) orc w =
      run S (promoteNextUser L h (res_SaleID r)) orc' w' \<and> (\<forall>P. (\<forall>i. P (orc i)) \<longrightarrow> (\<forall>i. P (orc' i))) \<and>
     ks w' = set_counters (uuid_String L (res_SaleID r)) (a + 1) (b - 1) (ks w) \<and>
     tb w' = closed_db L r Expired ''expired'' (tb w) \<and>
     published w' = published w @ (if publisher h
       then [(saleChannel (uuid_String L (res_SaleID r)), stock_update (a + 1))] else [])"
proof -
  note u = unconfirm_update [OF ok r(1), of Expired, simplified r(2), simplified]
  show ?thesis
    using orc st(2,3)
    by (cases "publisher h")
       (simp add: ttl_message handleExpiredReservation_def Split_ttlKey string_colon_free parse_string
          shop_simps select_reservation [OF ok r(1)] r(2) has_stockD [OF st(1)] u audit_entry_def,
        intro exI conjI, rule refl,
        simp_all add: shop_simps has_stockD [OF st(1)] u set_counters_def closed_db_def audit_entry_def)+
qed

section \<open>Promotion\<close>

lemma promote_idle_run:
  assumes "delivered orc" "has_stock (ks w) (uuid_String L s) a b"
    and "a \<le> 0 \<or> holds_zset (ks w (waitlistKey (uuid_String L s))) []"
  shows "\<exists>w'. run S (promoteNextUser L h s) orc w = (Returned (), w') \<and> ks w' = ks w \<and> pg_st w' = pg_st w \<and>
     published w' = published w"
proof (cases "a \<le> 0")
  case True
  then have "no_stock (ks w) (availableKey (uuid_String L s))"
    using has_stockD [OF assms(2)] by (simp add: no_stock_def)
  from waitlist_promote_none [OF this] assms(1) show ?thesis
    by (simp add: promoteNextUser_def shop_simps)
next
  case False
  with assms waitlist_promote_empty [of "redis_st w" "availableKey (uuid_String L s)" "waitlistKey (uuid_String L s)"
      "reservedKey (uuid_String L s)"] has_stockD [OF assms(2)]
  show ?thesis by (simp add: promoteNextUser_def shop_simps)
qed

lemma promote_pop:
  assumes "delivered orc" and st: "has_stock (ks w) (uuid_String L s) a b" and a: "0 < a" "in64 (b + 1)"
    and z: "holds_zset (ks w (waitlistKey (uuid_String L s))) ((t, uuid_String L u) # zs)"
  shows "\<exists>w1. run S (promoteNextUser L h s) orc w = run S (promote_record L h s u) (shift orc) w1 \<and>
     ks w1 = set_counters (uuid_String L s) (a - 1) (b + 1)
       ((ks w)(waitlistKey (uuid_String L s) := zput zs (ttl_of (ks w (waitlistKey (uuid_String L s)))))) \<and>
     pg_st w1 = pg_st w \<and> published w1 = published w"
proof -
  note p = waitlist_promote_ok [OF st [unfolded has_stock_def] a z]
  show ?thesis
    by (insert assms(1), simp add: promoteNextUser_def shop_simps p string_not_minus_one parse_string,
        intro exI conjI, rule refl, simp_all add: p codec_keys set_stock_def set_counters_def)
qed

lemma promote_record_ok_run:
  assumes "delivered orc" and st: "has_stock (ks w) (uuid_String L s) a b"
    and r: "r = promoted_reservation h s u orc" "reservation_ok (tb w) r"
  shows "\<exists>w'. run S (promote_record L h s u) orc w = (Returned (), w') \<and>
     ks w' = (ks w)(ttlKey (uuid_String L (res_ID r)) \<mapsto> (Str ''1'', ttl_arg (ttl_duration h))) \<and>
     tb w' = (tb w)\<lparr>t_reservations := t_reservations (tb w) @ [(stored_reservation r, True)],
       t_audit_log := t_audit_log (tb w) @ [audit_entry (res_ID r) ''promoted''
         [(''user_id'', uuid_String L u), (''sale_id'', uuid_String L s)]]\<rparr> \<and>
     published w' = published w @ (if publisher h
       then [(userChannel (uuid_String L u), waitlist_promoted (uuid_String L (res_ID r))),
             (saleChannel (uuid_String L s), stock_update a)] else [])"
  using assms(1) r(2)
  by (simp add: promote_record_def shop_simps r(1) promoted_reservation_def numeral_2_eq_2 numeral_3_eq_3
      has_stockD [OF st] audit_entry_def)

lemma promote_record_rejected_run:
  assumes "delivered orc" and st: "has_stock (ks w) (uuid_String L s) a b" "in64 (a + 1)" "in64 (b - 1)"
    and r: "\<not> reservation_ok (tb w) (promoted_reservation h s u orc)"
  shows "\<exists>w'. run S (promote_record L h s u) orc w = (Returned (), w') \<and>
     ks w' = set_counters (uuid_String L s) (a + 1) (b - 1) (ks w) \<and> tb w' = tb w \<and> published w' = published w"
  using assms(1) r st(2,3)
  by (simp add: promote_record_def shop_simps promoted_reservation_def numeral_2_eq_2 numeral_3_eq_3
      has_stockD [OF st(1)] set_counters_def)

lemma promote_rejected_run:
  assumes orc: "delivered orc" and st: "has_stock (ks w) (uuid_String L s) a b" and a: "0 < a" "in64 (b + 1)"
    and z: "holds_zset (ks w (waitlistKey (uuid_String L s))) ((t, uuid_String L u) # zs)"
    and item: "ch_uuid (orc 2) \<notin> fst ` set (t_sale_items (tb w))"
  shows "\<exists>w'. run S (promoteNextUser L h s) orc w = (Returned (), w') \<and>
     ks w' = (ks w)(waitlistKey (uuid_String L s) := zput zs (ttl_of (ks w (waitlistKey (uuid_String L s))))) \<and>
     tb w' = tb w \<and> published w' = published w"
proof -
  from promote_pop [OF orc st a z, of h] obtain w1 where
    run: "run S (promoteNextUser L h s) orc w = run S (promote_record L h s u) (shift orc) w1"
    and ks1: "ks w1 = set_counters (uuid_String L s) (a - 1) (b + 1)
       ((ks w)(waitlistKey (uuid_String L s) := zput zs (ttl_of (ks w (waitlistKey (uuid_String L s))))))"
    and w1: "pg_st w1 = pg_st w" "published w1 = published w" by blast
  note D = has_stockD [OF st]
  have rng: "in64 (a - 1)" "in64 a" "in64 b" using a D(3,6) by (auto simp: in64_def)
  then have "has_stock (ks w1) (uuid_String L s) (a - 1) (b + 1)"
    using a D(9) by (simp add: ks1 has_stock_def stock_at_def set_counters_def)
  from promote_record_rejected_run [OF _ this, of "shift orc" h u] orc item rng
  obtain w' where "run S (promote_record L h s u) (shift orc) w1 = (Returned (), w')"
    "ks w' = set_counters (uuid_String L s) a b (ks w1)" "tb w' = tb w" "published w' = published w"
    by (auto simp: w1 reservation_ok_def promoted_reservation_def numeral_2_eq_2)
  moreover have "set_counters (uuid_String L s) a b (ks w1) =
      (ks w)(waitlistKey (uuid_String L s) := zput zs (ttl_of (ks w (waitlistKey (uuid_String L s)))))"
    using D(7-10) by (auto simp: ks1 set_counters_def fun_eq_iff codec_keys)
  ultimately show ?thesis by (simp add: run)
qed

end

section \<open>Properties\<close>

text \<open>
  What is left of the handler once the unit is back: with nobody waiting, or with a promotion whose random item identifier is unknown, the counters and the tables stay.
\<close>

definition promotion_fails :: "uuid_lib \<Rightarrow> schedule \<Rightarrow> (int \<times> string) list \<Rightarrow> db \<Rightarrow> bool" where
  "promotion_fails L orc zs d \<longleftrightarrow> zs = [] \<or>
     ((\<exists>t u zs'. zs = (t, uuid_String L u) # zs') \<and> (\<forall>i. ch_uuid (orc i) \<notin> fst ` set (t_sale_items d)))"

context shop
begin

lemma promote_nothing_run:
  assumes orc: "delivered orc" and st: "has_stock (ks w) (uuid_String L s) a b" "0 < a" "in64 (b + 1)"
    and z: "holds_zset (ks w (waitlistKey (uuid_String L s))) zs" "promotion_fails L orc zs (tb w)"
  shows "\<exists>w'. run S (promoteNextUser L h s) orc w = (Returned (), w') \<and> tb w' = tb w \<and>
     (\<forall>k. k \<noteq> waitlistKey (uuid_String L s) \<longrightarrow> ks w' k = ks w k)"
proof (cases zs)
  case Nil
  with promote_idle_run [OF orc st(1), of h] z(1) show ?thesis by auto
next
  case (Cons e zs')
  with z(2) obtain t u where e: "e = (t, uuid_String L u)" and item: "ch_uuid (orc 2) \<notin> fst ` set (t_sale_items (tb w))"
    by (auto simp: promotion_fails_def)
  from promote_rejected_run [OF orc st z(1) [unfolded Cons e] item, of h] show ?thesis by auto
qed

lemma expired_again_run:
  assumes "delivered orc" "db_ok (tb w)" "(r, p) \<in> set (t_reservations (tb w))" "res_Status r \<noteq> Reserved"
  shows "run S (on_expired_message L h (ttlKey (uuid_String L (res_ID r)))) orc w = (Returned (), w)"
  using expired_refused_run [OF assms(1) select_reservation [OF assms(2,3)]] assms(4) by auto

lemma closed_row:
  "(r, p) \<in> set (t_reservations d) \<Longrightarrow> (r\<lparr>res_Status := st\<rparr>, p) \<in> set (t_reservations (closed_db L r st ev d))"
  by (force simp: closed_db_def update_rows_def)

end

text \<open>
  C15: An expired reservation returns its unit, once.  When the TTL key of a held reservation expires and the handler runs undisturbed, it
  marks the reservation expired and puts its unit back on the shelf, with the counters in agreement with the
  tables; nobody waits for the sale, or the promotion fails because its random item identifier is no item of the database.  Every later message for the same key that is handled while the
  row is still closed changes nothing, whatever else has happened.  (Handlers that run at the same time can return a unit twice.)
\<close>

theorem expiry_releases_once:
  assumes "shop S view tables L" "delivered orc"
    "consistent L s T (view (redis_st w)) (tables (pg_st w))"
    "(r, p) \<in> set (t_reservations (tables (pg_st w)))" "holds_unit s r"
    "holds_zset (view (redis_st w) (waitlistKey (uuid_String L s))) zs" "promotion_fails L orc zs (tables (pg_st w))"
  shows "\<exists>w'. run S (on_expired_message L h (ttlKey (uuid_String L (res_ID r)))) orc w = (Returned (), w') \<and>
     tables (pg_st w') = closed_db L r Expired ''expired'' (tables (pg_st w)) \<and>
     consistent L s T (view (redis_st w')) (tables (pg_st w')) \<and>
     shelf_release (res_ID r) (shelf_of L s (view (redis_st w)) (tables (pg_st w))) =
       Some (shelf_of L s (view (redis_st w')) (tables (pg_st w'))) \<and>
     (\<forall>orc2 w2 r2 p2. delivered orc2 \<and> db_ok (tables (pg_st w2)) \<and> (r2, p2) \<in> set (t_reservations (tables (pg_st w2))) \<and>
        res_ID r2 = res_ID r \<and> res_Status r2 \<noteq> Reserved \<longrightarrow>
        run S (on_expired_message L h (ttlKey (uuid_String L (res_ID r)))) orc2 w2 = (Returned (), w2)) \<and>
     (r\<lparr>res_Status := Expired\<rparr>, p) \<in> set (t_reservations (tables (pg_st w')))"
proof -
  note shop = assms(1)
  note c = assms(3)
  note cD = shop.consistentD [OF shop c]
  have s: "res_SaleID r = s" "res_Status r = Reserved" using assms(5) by (simp_all add: holds_unit_def)
  let ?n = "int (length (held_rows s (tables (pg_st w))))"
  let ?a = "T - ?n - int (orders s (tables (pg_st w)))"
  note room = shop.consistent_room [OF shop c assms(4,5)]
  obtain orc' w1 where run: "run S (on_expired_message L h (ttlKey (uuid_String L (res_ID r)))) orc w =
      run S (promoteNextUser L h s) orc' w1" and o': "\<forall>P. (\<forall>i. P (orc i)) \<longrightarrow> (\<forall>i. P (orc' i))"
    and w1: "view (redis_st w1) = set_counters (uuid_String L s) (?a + 1) (?n - 1) (view (redis_st w))"
      "tables (pg_st w1) = closed_db L r Expired ''expired'' (tables (pg_st w))"
    using shop.expired_run [OF shop assms(2) cD(1) assms(4) s(2) _ room, of h] cD(2) s(1) by auto
  note closed = shop.closed_consistent [OF shop c assms(4,5) _ _ _ w1]
  have st: "has_stock (view (redis_st w1)) (uuid_String L s) (?a + 1) (?n - 1)" "0 < ?a + 1" "in64 (?n - 1 + 1)"
    using room cD(3-5) has_stockD(6) [OF cD(2)] by (simp_all add: w1(1) has_stock_set_counters(1) [OF cD(2)])
  have codec: "uuid_codec L" using shop by (simp add: shop_def)
  then have "holds_zset (view (redis_st w1) (waitlistKey (uuid_String L s))) zs"
    using assms(6) by (simp add: w1(1) set_counters_def uuid_codec.codec_keys)
  moreover have "promotion_fails L orc' zs (tables (pg_st w1))"
    using assms(7) o' [rule_format, of "\<lambda>x. ch_uuid x \<notin> fst ` set (t_sale_items (tables (pg_st w)))"]
    unfolding promotion_fails_def w1(2) closed_db_def by auto
  moreover have "delivered orc'" using assms(2) o' [rule_format, of "\<lambda>x. ch_net x = Delivered"] by (simp add: delivered_def)
  ultimately obtain w' where run': "run S (promoteNextUser L h s) orc' w1 = (Returned (), w')"
    and w': "\<forall>k. k \<noteq> waitlistKey (uuid_String L s) \<longrightarrow> view (redis_st w') k = view (redis_st w1) k" "tables (pg_st w') = tables (pg_st w1)"
    using shop.promote_nothing_run [OF shop _ st, of orc' zs h] by blast
  have keys: "view (redis_st w') (availableKey (uuid_String L s)) = view (redis_st w1) (availableKey (uuid_String L s))"
    "view (redis_st w') (reservedKey (uuid_String L s)) = view (redis_st w1) (reservedKey (uuid_String L s))"
    using w'(1) codec by (simp_all add: uuid_codec.codec_keys)
  then have "consistent L s T (view (redis_st w')) = consistent L s T (view (redis_st w1))"
    "shelf_of L s (view (redis_st w')) = shelf_of L s (view (redis_st w1))"
    by (auto simp: fun_eq_iff consistent_def has_stock_def stock_at_def shelf_of_def)
  moreover have "\<forall>orc2 w2 r2 p2. delivered orc2 \<and> db_ok (tables (pg_st w2)) \<and> (r2, p2) \<in> set (t_reservations (tables (pg_st w2))) \<and>
        res_ID r2 = res_ID r \<and> res_Status r2 \<noteq> Reserved \<longrightarrow>
        run S (on_expired_message L h (ttlKey (uuid_String L (res_ID r)))) orc2 w2 = (Returned (), w2)"
    using shop.expired_again_run [OF shop] by metis
  ultimately show ?thesis using run run' closed w'(2) w1(2) shop.closed_row [OF shop assms(4)] by auto
qed

theorem expiry_releases_once_witness:
  "\<exists>w'. run mem_services (on_expired_message canonical_uuid demo_svc (ttlKey (uuid_String canonical_uuid 11))) demo_orc demo_held =
      (Returned (), w') \<and> consistent canonical_uuid 7 2 (redis_st w') (pg_st w')"
  using expiry_releases_once [OF mem_shop_ok demo_orc_delivered, of 7 2 demo_held demo_res False "[]" demo_svc]
    demo_consistent(2) demo_no_other_key(2) [of 1 1] by (fastforce simp: holds_unit_def holds_zset_def promotion_fails_def)

text \<open>The demonstration sale with user 2 waiting.\<close>

definition demo_waiting :: "(keyspace, db) world" where
  "demo_waiting = demo_world\<lparr>redis_st := (demo_keys 2 0)(waitlistKey (uuid_String canonical_uuid 7) \<mapsto>
     (ZSet [(3, uuid_String canonical_uuid 2)], None))\<rparr>"

lemma demo_waiting_simps [simp]: "pg_st demo_waiting = demo_db"
  "redis_st demo_waiting = (demo_keys 2 0)(waitlistKey (uuid_String canonical_uuid 7) \<mapsto>
     (ZSet [(3, uuid_String canonical_uuid 2)], None))"
  by (simp_all add: demo_waiting_def)

lemma demo_waiting_stock: "has_stock (redis_st demo_waiting) (uuid_String canonical_uuid 7) 2 0"
  using demo_has_stock [of 2 0] by (simp add: has_stock_def stock_at_def canonical.codec_keys demo_in64)

text \<open>
  A promotion that works.  With a unit available and the generated item identifier known to the schema, \<open>promoteNextUser\<close>
  takes the first user off the waitlist, moves one unit from available to reserved, sets the TTL key, stores a
  promoted reservation of that user and its audit entry, and tells the user and then the sale's
  subscribers.
\<close>

theorem promotion_success:
  assumes "shop S view tables L" "delivered orc" "has_stock (view (redis_st w)) (uuid_String L s) a b" "0 < a" "in64 (b + 1)"
    "holds_zset (view (redis_st w) (waitlistKey (uuid_String L s))) ((t, uuid_String L u) # zs)"
    "r = promoted_reservation h s u (shift orc)" "reservation_ok (tables (pg_st w)) r"
  shows "\<exists>w'. run S (promoteNextUser L h s) orc w = (Returned (), w') \<and>
     view (redis_st w') = (set_counters (uuid_String L s) (a - 1) (b + 1) ((view (redis_st w))(waitlistKey (uuid_String L s) :=
         zput zs (ttl_of (view (redis_st w) (waitlistKey (uuid_String L s)))))))
       (ttlKey (uuid_String L (res_ID r)) \<mapsto> (Str ''1'', ttl_arg (ttl_duration h))) \<and>
     t_reservations (tables (pg_st w')) = t_reservations (tables (pg_st w)) @ [(stored_reservation r, True)] \<and>
     published w' = published w @ (if publisher h
       then [(userChannel (uuid_String L u), waitlist_promoted (uuid_String L (res_ID r))),
             (saleChannel (uuid_String L s), stock_update (a - 1))] else [])"
proof -
  note shop = assms(1)
  obtain w1 where run: "run S (promoteNextUser L h s) orc w = run S (promote_record L h s u) (shift orc) w1"
    and ks1: "view (redis_st w1) = set_counters (uuid_String L s) (a - 1) (b + 1)
       ((view (redis_st w))(waitlistKey (uuid_String L s) := zput zs (ttl_of (view (redis_st w) (waitlistKey (uuid_String L s))))))"
    and w1: "pg_st w1 = pg_st w" "published w1 = published w"
    using shop.promote_pop [OF shop assms(2-6), of h] by blast
  have "in64 (a - 1)" using assms(4) has_stockD(3) [OF assms(3)] by (simp add: in64_def)
  then have "has_stock (view (redis_st w1)) (uuid_String L s) (a - 1) (b + 1)"
    using assms(5) has_stockD(9) [OF assms(3)] by (simp add: ks1 has_stock_def stock_at_def set_counters_def)
  from shop.promote_record_ok_run [OF shop _ this assms(7)] assms(2,8) run show ?thesis by (auto simp: w1 ks1)
qed

theorem promotion_success_witness:
  "\<exists>r w'. run mem_services (promoteNextUser canonical_uuid demo_svc 7) (\<lambda>i. demo_orc i\<lparr>ch_uuid := 5\<rparr>) demo_waiting = (Returned (), w') \<and>
     t_reservations (pg_st w') = [(stored_reservation r, True)]"
proof -
  let ?o = "\<lambda>i. demo_orc i\<lparr>ch_uuid := 5\<rparr>"
  have o: "delivered ?o" by (simp add: delivered_def demo_orc_def)
  have "reservation_ok demo_db (promoted_reservation demo_svc 7 2 (shift ?o))"
    by (simp add: reservation_ok_def promoted_reservation_def demo_db_def demo_sale_def valid_confirmation_def)
  then show ?thesis
    using promotion_success [OF mem_shop_ok o, of demo_waiting 7 2 0 3 2 "[]" _ demo_svc] demo_waiting_stock
    by (fastforce simp: demo_in64 demo_db_def)
qed

text \<open>
  C26: A promotion loses the user.  The promoted reservation carries a freshly generated item identifier, so unless that identifier
  happens to be an item of the database, the insert violates the foreign key: the unit goes back, no
  reservation is created, nobody is told, and yet the first user is gone from the waitlist.
\<close>

theorem promotion_loses_user:
  assumes "shop S view tables L" "delivered orc" "has_stock (view (redis_st w)) (uuid_String L s) a b" "0 < a" "in64 (b + 1)"
    "holds_zset (view (redis_st w) (waitlistKey (uuid_String L s))) ((t, uuid_String L u) # zs)"
    "ch_uuid (orc 2) \<notin> fst ` set (t_sale_items (tables (pg_st w)))"
  shows "\<exists>w'. run S (promoteNextUser L h s) orc w = (Returned (), w') \<and>
     view (redis_st w') = (view (redis_st w))(waitlistKey (uuid_String L s) :=
       zput zs (ttl_of (view (redis_st w) (waitlistKey (uuid_String L s))))) \<and>
     tables (pg_st w') = tables (pg_st w) \<and> published w' = published w"
  using shop.promote_rejected_run [OF assms] .

theorem promotion_loses_user_witness:
  "\<exists>w'. run mem_services (promoteNextUser canonical_uuid demo_svc 7) demo_orc demo_waiting = (Returned (), w') \<and>
     redis_st w' (waitlistKey (uuid_String canonical_uuid 7)) = None \<and> pg_st w' = demo_db"
  using promotion_loses_user [OF mem_shop_ok demo_orc_delivered, of demo_waiting 7 2 0 3 2 "[]" demo_svc] demo_waiting_stock
  by (fastforce simp: demo_in64 demo_db_def demo_orc_def zput_def)

section \<open>Warnings\<close>

primrec warnings :: "uuid_lib \<Rightarrow> schedule \<Rightarrow> Reservation list \<Rightarrow> (string \<times> Event) list" where
  "warnings L orc [] = []"
| "warnings L orc (row # rows) =
     (userChannel (uuid_String L (res_UserID row)), reservation_expiring (seconds_left (ch_now (orc 0)) (res_ExpiresAt row))) #
     warnings L (shift (shift orc)) rows"

lemma warnings_nth:
  "length (warnings L orc rows) = length rows"
  "i < length rows \<Longrightarrow> warnings L orc rows ! i = (userChannel (uuid_String L (res_UserID (rows ! i))),
     reservation_expiring (seconds_left (ch_now (orc (2 * i))) (res_ExpiresAt (rows ! i))))"
proof (induction rows arbitrary: orc i)
  case (Cons row rows)
  { case 1 show ?case using Cons.IH(1) by simp }
  { case 2 then show ?case using Cons.IH(2) [of "i - 1" "shift (shift orc)"] by (cases i) (simp_all add: shift_def) }
qed simp_all

lemma seconds_left_eq: "seconds_left now e = max 0 ((e - now) div second)"
proof (cases "e < now")
  case True
  then have "(e - now) div second < 0" by (simp add: neg_imp_zdiv_neg_iff second_def)
  moreover have "0 \<le> (now - e) div second" using True by (simp add: pos_imp_zdiv_nonneg_iff second_def)
  ultimately show ?thesis using True by (auto simp: seconds_left_def Let_def)
qed (simp add: seconds_left_def Let_def max_def)

lemma seconds_left_bounds:
  assumes "e \<le> now + 90 * second"
  shows "0 \<le> seconds_left now e" "seconds_left now e \<le> 90"
  using assms zdiv_mono1 [of "e - now" "90 * second" second] by (simp_all add: seconds_left_eq second_def)

definition expiring_rows :: "time \<Rightarrow> db \<Rightarrow> Reservation list" where
  "expiring_rows now d = filter (\<lambda>r. res_Status r = Reserved \<and> now + 55 * second \<le> res_ExpiresAt r \<and>
     res_ExpiresAt r \<le> now + 90 * second) (map fst (t_reservations d))"

context shop
begin

lemma notify_rows_run:
  "delivered orc \<Longrightarrow> \<exists>w'. run S (notify_rows L rows) orc w = (Returned (), w') \<and> redis_st w' = redis_st w \<and>
     pg_st w' = pg_st w \<and> published w' = published w @ warnings L orc rows"
proof (induction rows arbitrary: orc w)
  case (Cons row rows)
  let ?ev = "(userChannel (uuid_String L (res_UserID row)), reservation_expiring (seconds_left (ch_now (orc 0)) (res_ExpiresAt row)))"
  have head: "run S (notify_rows L (row # rows)) orc w =
      run S (notify_rows L rows) (shift (shift orc)) (w\<lparr>published := published w @ [?ev]\<rparr>)"
    using Cons.prems by (simp add: shop_simps Publisher_ReservationExpiring_def Publisher_PublishToUser_def)
  obtain w' where "run S (notify_rows L rows) (shift (shift orc)) (w\<lparr>published := published w @ [?ev]\<rparr>) = (Returned (), w')"
    "redis_st w' = redis_st w" "pg_st w' = pg_st w" "published w' = published w @ ?ev # warnings L (shift (shift orc)) rows"
    using Cons.IH [OF delivered_shift [OF delivered_shift [OF Cons.prems]], of "w\<lparr>published := published w @ [?ev]\<rparr>"]
    by (simp add: shift_def) blast
  then show ?case unfolding head warnings.simps by blast
qed simp

lemma notify_run:
  assumes "delivered orc" "publisher h"
  shows "\<exists>w'. run S (notifyExpiringReservations L h) orc w = (Returned (), w') \<and> redis_st w' = redis_st w \<and>
     pg_st w' = pg_st w \<and> published w' = published w @ warnings L (shift orc) (expiring_rows (ch_now (orc 0)) (tb w))"
  using assms notify_rows_run [of "shift orc" "expiring_rows (ch_now (orc 0)) (tb w)" w]
  by (simp add: notifyExpiringReservations_def shop_simps expiring_rows_def)

end

text \<open>
  C36: Expiry warnings.  One round of the warning job publishes, in order, exactly one event for each reserved reservation that
  expires in 55 to 90 seconds, on the channel of its user, with the whole seconds that are left at the clock reading taken for it, or 0 if none are; while the clock does not run backwards this
  is at most 90.  Redis and the database stay as they are.
\<close>

theorem expiry_warnings:
  assumes "shop S view tables L" "delivered orc" "publisher h"
    and "rows = expiring_rows (ch_now (orc 0)) (tables (pg_st w))"
    and "secs = (\<lambda>i. max 0 ((res_ExpiresAt (rows ! i) - ch_now (orc (Suc (2 * i)))) div second))"
  shows "\<exists>w' evs. run S (notifyExpiringReservations L h) orc w = (Returned (), w') \<and>
     redis_st w' = redis_st w \<and> pg_st w' = pg_st w \<and> published w' = published w @ evs \<and> length evs = length rows \<and>
     (\<forall>i < length rows. evs ! i = (userChannel (uuid_String L (res_UserID (rows ! i))), reservation_expiring (secs i)) \<and>
        (ch_now (orc 0) \<le> ch_now (orc (Suc (2 * i))) \<longrightarrow> secs i \<le> 90))"
proof -
  let ?evs = "warnings L (shift orc) rows"
  have "secs i \<le> 90" if "i < length rows" "ch_now (orc 0) \<le> ch_now (orc (Suc (2 * i)))" for i
  proof -
    have "res_ExpiresAt (rows ! i) \<le> ch_now (orc 0) + 90 * second"
      using nth_mem [OF that(1)] by (auto simp: assms(4) expiring_rows_def)
    also have "\<dots> \<le> ch_now (orc (Suc (2 * i))) + 90 * second" using that(2) by simp
    finally show ?thesis using seconds_left_bounds by (simp add: assms(5) seconds_left_eq)
  qed
  moreover have "?evs ! i = (userChannel (uuid_String L (res_UserID (rows ! i))), reservation_expiring (secs i))" if "i < length rows" for i
    using warnings_nth(2) [OF that, of L "shift orc"] by (simp add: assms(5) seconds_left_eq)
  ultimately show ?thesis using shop.notify_run [OF assms(1-3), of w] by (auto simp: warnings_nth(1) assms(4))
qed

theorem expiry_warnings_witness:
  "\<exists>w'. run mem_services (notifyExpiringReservations canonical_uuid demo_svc) (\<lambda>i. (demo_orc i)\<lparr>ch_now := 530 * second\<rparr>) demo_held =
     (Returned (), w') \<and> published w' = [(userChannel (uuid_String canonical_uuid 1), reservation_expiring 70)]"
proof -
  let ?o = "\<lambda>i. (demo_orc i)\<lparr>ch_now := 530 * second\<rparr>"
  have o: "delivered ?o" by (simp add: delivered_def demo_orc_def)
  have rows: "[demo_res] = expiring_rows (ch_now (?o 0)) (pg_st demo_held)"
    by (simp add: expiring_rows_def second_def)
  obtain w' evs where r: "run mem_services (notifyExpiringReservations canonical_uuid demo_svc) ?o demo_held = (Returned (), w')"
    "published w' = published demo_held @ evs" "length evs = 1"
    "evs ! 0 = (userChannel (uuid_String canonical_uuid (res_UserID ([demo_res] ! 0))), reservation_expiring 70)"
    using expiry_warnings [OF mem_shop_ok o _ rows refl, of demo_svc] by (auto simp: demo_svc_def second_def)
  have "published demo_held = []" by (simp add: demo_held_def)
  with r show ?thesis by (cases evs) auto
qed

end
