(* ===== verification/Waitlist_Correct.thy ===== *)
theory Waitlist_Correct
  imports Execution Waitlist_Service Example_World
begin

text \<open>
  The waitlist: who may join, the position a user gets, and that leaving and promotion take
  exactly one entry out of the sorted set.
\<close>

section \<open>Ranks\<close>

lemma zindex_append_last: "m \<notin> zmembers zs \<Longrightarrow> zindex m (zs @ [(t, m)]) = int (length zs)"
  by (induction zs) (auto simp: zindex_def)

lemma insort_last: "\<forall>e \<in> set zs. fst e < t \<Longrightarrow> insort (t, m) zs = zs @ [(t, m)]"
  for t :: int and m :: string
  by (induction zs) (auto simp: less_eq_prod_def)

lemma zindex_bounds: "m \<in> zmembers zs \<Longrightarrow> 0 \<le> zindex m zs \<and> zindex m zs < int (length zs)"
  by (induction zs) (auto simp: zindex_def)

lemma zindex_split: "distinct (map snd (xs @ (t, m) # ys)) \<Longrightarrow> zindex m (xs @ (t, m) # ys) = int (length xs)"
  by (induction xs) (auto simp: zindex_def)

section \<open>Join, GetPosition and Leave\<close>

context shop
begin

lemma Join_run:
  assumes orc: "delivered orc" and z: "holds_zset (ks w (waitlistKey (uuid_String L s))) zs"
    and ns: "no_stock (ks w) (availableKey (uuid_String L s))"
    and t: "t = unix (ch_now (orc 0))" "\<bar>t\<bar> \<le> 2 ^ 53" and new: "uuid_String L u \<notin> zmembers zs"
  shows "\<exists>w'. run S (Join L s u) orc w =
      (Returned (Inr \<lparr>join_Position = zindex (uuid_String L u) (insort (t, uuid_String L u) zs) + 1,
         join_JoinedAt = t * second\<rparr>), w') \<and>
     ks w' = (ks w)(waitlistKey (uuid_String L s) \<mapsto>
       (ZSet (insort (t, uuid_String L u) zs), ttl_of (ks w (waitlistKey (uuid_String L s))))) \<and>
     pg_st w' = pg_st w \<and> published w' = published w"
proof -
  have nn: "zindex m x \<noteq> - 1" "zindex m x \<noteq> - 2" for m x by (simp_all add: zindex_def)
  from waitlist_join_new [OF ns z new t(2)] orc show ?thesis
    by (simp add: Join_def shop_simps nn flip: t(1))
qed

lemma Join_member_run:
  assumes "delivered orc" "no_stock (ks w) (availableKey (uuid_String L s))"
    and "holds_zset (ks w (waitlistKey (uuid_String L s))) zs" "uuid_String L u \<in> zmembers zs"
  shows "\<exists>w'. run S (Join L s u) orc w = (Returned (Inl (Errorf ''already in waitlist'')), w') \<and>
     ks w' = ks w \<and> pg_st w' = pg_st w \<and> published w' = published w"
  using waitlist_join_member [OF assms(2-4)] assms(1) by (simp add: Join_def shop_simps)

lemma Join_stock_run:
  assumes "delivered orc" "has_stock (ks w) (uuid_String L s) a b" "0 < a"
  shows "\<exists>w'. run S (Join L s u) orc w = (Returned (Inl (Errorf ''stock available'')), w') \<and>
     ks w' = ks w \<and> pg_st w' = pg_st w \<and> published w' = published w"
  using waitlist_join_stock [of "redis_st w" "availableKey (uuid_String L s)"] assms has_stockD [OF assms(2)]
  by (simp add: Join_def shop_simps)

lemma GetPosition_run:
  assumes orc: "delivered orc" and z: "holds_zset (ks w (waitlistKey (uuid_String L s))) zs"
  shows "\<exists>w'. run S (GetPosition L s u) orc w = (Returned (if uuid_String L u \<in> zmembers zs
       then Inr \<lparr>pos_Position = zindex (uuid_String L u) zs + 1, pos_TotalWaiting = int (length zs)\<rparr>
       else Inl (Errorf ''user not in waitlist'')), w') \<and>
     ks w' = ks w \<and> pg_st w' = pg_st w \<and> published w' = published w"
  using orc by (simp add: GetPosition_def shop_simps zrank_reply [OF z] zcard_reply [where zs = zs] z)

lemma Leave_run:
  assumes orc: "delivered orc" and z: "holds_zset (ks w (waitlistKey (uuid_String L s))) zs"
  shows "\<exists>w'. run S (Leave L s u) orc w = (Returned (if uuid_String L u \<in> zmembers zs
       then Inr () else Inl (Errorf ''user not in waitlist'')), w') \<and>
     ks w' = (ks w)(waitlistKey (uuid_String L s) := zput (filter (\<lambda>e. snd e \<noteq> uuid_String L u) zs)
       (ttl_of (ks w (waitlistKey (uuid_String L s))))) \<and>
     pg_st w' = pg_st w \<and> published w' = published w"
  using orc zrem [OF z] zrem_view [OF z] by (simp add: Leave_def shop_simps)

end

section \<open>Properties\<close>

text \<open>
  C24: Joining and asking for the position agree.  When a sale has no stock and the user is not yet waiting, \<open>Join\<close> adds the user and
  returns a position, and \<open>GetPosition\<close> straight after returns the same position and counts one more
  waiting user; positions lie between 1 and the number of waiting users.
\<close>

theorem join_then_position:
  assumes "shop S view tables L" "delivered orc" "delivered orc2"
    "holds_zset (view (redis_st w) (waitlistKey (uuid_String L s))) zs"
    "no_stock (view (redis_st w)) (availableKey (uuid_String L s))"
    "\<bar>unix (ch_now (orc 0))\<bar> \<le> 2 ^ 53" "uuid_String L u \<notin> zmembers zs"
  shows "\<exists>j w' w''. run S (Join L s u) orc w = (Returned (Inr j), w') \<and>
     run S (GetPosition L s u) orc2 w' =
       (Returned (Inr \<lparr>pos_Position = join_Position j, pos_TotalWaiting = int (length zs) + 1\<rparr>), w'') \<and>
     1 \<le> join_Position j \<and> join_Position j \<le> int (length zs) + 1 \<and>
     view (redis_st w'') = view (redis_st w')"
proof -
  let ?t = "unix (ch_now (orc 0))" and ?u = "uuid_String L u"
  obtain w' where run: "run S (Join L s u) orc w = (Returned (Inr \<lparr>join_Position = zindex ?u (insort (?t, ?u) zs) + 1,
         join_JoinedAt = ?t * second\<rparr>), w')"
    and ks: "view (redis_st w') (waitlistKey (uuid_String L s)) =
       Some (ZSet (insort (?t, ?u) zs), ttl_of (view (redis_st w) (waitlistKey (uuid_String L s))))"
    using shop.Join_run [OF assms(1,2,4,5) refl assms(6,7)] by auto
  have "holds_zset (view (redis_st w') (waitlistKey (uuid_String L s))) (insort (?t, ?u) zs)" by (simp add: ks)
  from shop.GetPosition_run [OF assms(1,3) this, of u] run zindex_bounds [of ?u "insort (?t, ?u) zs"]
  show ?thesis by auto
qed

definition demo_empty :: "(keyspace, db) world" where
  "demo_empty = demo_world\<lparr>redis_st := demo_keys 0 2\<rparr>"

lemma demo_empty_facts: "no_stock (redis_st demo_empty) (availableKey (uuid_String canonical_uuid 7))"
  "holds_zset (redis_st demo_empty (waitlistKey (uuid_String canonical_uuid 7))) []"
  "\<bar>unix (ch_now (demo_orc 0))\<bar> \<le> 2 ^ 53"
  using has_stockD [OF demo_has_stock [of 0 2]] demo_no_other_key(2) [of 0 2]
  by (simp_all add: demo_empty_def no_stock_def holds_zset_def demo_in64 unix_def demo_orc_def second_def)

theorem join_then_position_witness:
  "\<exists>j w' w''. run mem_services (Join canonical_uuid 7 1) demo_orc demo_empty = (Returned (Inr j), w') \<and>
     run mem_services (GetPosition canonical_uuid 7 1) demo_orc w' =
       (Returned (Inr \<lparr>pos_Position = join_Position j, pos_TotalWaiting = 1\<rparr>), w'') \<and> join_Position j = 1"
  using join_then_position [OF mem_shop_ok demo_orc_delivered demo_orc_delivered, of demo_empty 7 "[]" 1] demo_empty_facts
  by fastforce

text \<open>
  First come, first served, second by second.  A user who joins in a later second than everyone waiting gets the last position, and the
  others keep theirs.
\<close>

theorem join_goes_last:
  assumes "shop S view tables L" "delivered orc"
    "holds_zset (view (redis_st w) (waitlistKey (uuid_String L s))) zs"
    "no_stock (view (redis_st w)) (availableKey (uuid_String L s))"
    "\<bar>unix (ch_now (orc 0))\<bar> \<le> 2 ^ 53" "uuid_String L u \<notin> zmembers zs"
    "\<forall>e \<in> set zs. fst e < unix (ch_now (orc 0))"
  shows "\<exists>j w'. run S (Join L s u) orc w = (Returned (Inr j), w') \<and> join_Position j = int (length zs) + 1 \<and>
     holds_zset (view (redis_st w') (waitlistKey (uuid_String L s))) (zs @ [(unix (ch_now (orc 0)), uuid_String L u)])"
  using shop.Join_run [OF assms(1-4) refl assms(5,6)] insort_last [OF assms(7)] zindex_append_last [OF assms(6)] by auto

theorem join_goes_last_witness:
  "\<exists>j w'. run mem_services (Join canonical_uuid 7 1) demo_orc demo_empty = (Returned (Inr j), w') \<and> join_Position j = 1"
  using join_goes_last [OF mem_shop_ok demo_orc_delivered, of demo_empty 7 "[]" 1] demo_empty_facts by fastforce

text \<open>
  Within one second the order is by identifier.  The score is the Unix time in whole seconds, so a user who joins in the same second as the only
  waiting user, but whose identifier sorts before, gets position 1, ahead of the user who came first.
\<close>

theorem join_same_second_overtakes:
  assumes "shop S view tables L" "delivered orc"
    "holds_zset (view (redis_st w) (waitlistKey (uuid_String L s))) [(unix (ch_now (orc 0)), uuid_String L v)]"
    "no_stock (view (redis_st w)) (availableKey (uuid_String L s))"
    "\<bar>unix (ch_now (orc 0))\<bar> \<le> 2 ^ 53" "uuid_String L u < uuid_String L v"
  shows "\<exists>j w'. run S (Join L s u) orc w = (Returned (Inr j), w') \<and> join_Position j = 1"
proof -
  let ?t = "unix (ch_now (orc 0))"
  have "insort (?t, uuid_String L u) [(?t, uuid_String L v)] = [(?t, uuid_String L u), (?t, uuid_String L v)]"
    using less_imp_le [OF assms(6)] by (simp add: less_eq_prod_def)
  moreover have "uuid_String L u \<notin> zmembers [(?t, uuid_String L v)]" using assms(6) by auto
  ultimately show ?thesis using shop.Join_run [OF assms(1-4) refl assms(5), of u] by (auto simp: zindex_def)
qed

lemma demo_ids_order: "uuid_String canonical_uuid 1 < uuid_String canonical_uuid 2"
proof -
  have hy: "hyphenate (h @ [c]) = hyphenate h @ [c]" if "length h = 31" for h c
    using that by (simp add: hyphenate_def)
  have "uuid_String canonical_uuid n = hyphenate (hex 31 0) @ [hexdigit (unat n)]" if "unat n < 16" for n
    using that hex.simps(2) [of 31 "unat n"] hy [OF length_hex] by (simp add: canonical_uuid_def del: hex.simps)
  moreover have "xs @ ys < xs @ zs \<longleftrightarrow> ys < zs" for xs ys zs :: string
    by (induction xs) auto
  ultimately show ?thesis by (simp add: hexdigit_def less_char_def)
qed

theorem join_same_second_overtakes_witness:
  "\<exists>j w'. run mem_services (Join canonical_uuid 7 1) demo_orc (demo_empty\<lparr>redis_st := (demo_keys 0 2)(waitlistKey (uuid_String canonical_uuid 7) \<mapsto>
       (ZSet [(0, uuid_String canonical_uuid 2)], None))\<rparr>) = (Returned (Inr j), w') \<and> join_Position j = 1"
proof -
  let ?w = "demo_empty\<lparr>redis_st := (demo_keys 0 2)(waitlistKey (uuid_String canonical_uuid 7) \<mapsto>
       (ZSet [(0, uuid_String canonical_uuid 2)], None))\<rparr>"
  have t: "unix (ch_now (demo_orc 0)) = 0" by (simp add: unix_def demo_orc_def second_def)
  have "no_stock (redis_st ?w) (availableKey (uuid_String canonical_uuid 7))"
    using demo_empty_facts(1) by (simp add: no_stock_def demo_empty_def canonical.codec_keys)
  then show ?thesis
    using join_same_second_overtakes [OF mem_shop_ok demo_orc_delivered, of ?w 7 2 1] demo_ids_order by (simp add: t)
qed

text \<open>
  Leaving the waitlist.  A waiting user who leaves is gone, the order of the others is unchanged, and asking for the position or
  leaving again answers "user not in waitlist".
\<close>

theorem leave_then_gone:
  assumes "shop S view tables L" "delivered orc" "delivered orc2"
    "holds_zset (view (redis_st w) (waitlistKey (uuid_String L s))) zs" "uuid_String L u \<in> zmembers zs"
  shows "\<exists>w'. run S (Leave L s u) orc w = (Returned (Inr ()), w') \<and>
     holds_zset (view (redis_st w') (waitlistKey (uuid_String L s))) (filter (\<lambda>e. snd e \<noteq> uuid_String L u) zs) \<and>
     fst (run S (GetPosition L s u) orc2 w') = Returned (Inl (Errorf ''user not in waitlist'')) \<and>
     fst (run S (Leave L s u) orc2 w') = Returned (Inl (Errorf ''user not in waitlist''))"
proof -
  let ?zs = "filter (\<lambda>e. snd e \<noteq> uuid_String L u) zs"
  obtain w' where run: "run S (Leave L s u) orc w = (Returned (Inr ()), w')"
    and z: "holds_zset (view (redis_st w') (waitlistKey (uuid_String L s))) ?zs"
    using shop.Leave_run [OF assms(1,2,4), of u] assms(5) by auto
  have "uuid_String L u \<notin> zmembers ?zs" by (auto simp: zmembers_def)
  with shop.GetPosition_run [OF assms(1,3) z, of u] shop.Leave_run [OF assms(1,3) z, of u] run z show ?thesis by auto
qed

theorem leave_then_gone_witness:
  "\<exists>w'. run mem_services (Leave canonical_uuid 7 2) demo_orc
      (demo_empty\<lparr>redis_st := [waitlistKey (uuid_String canonical_uuid 7) \<mapsto> (ZSet [(0, uuid_String canonical_uuid 2)], None)]\<rparr>) =
    (Returned (Inr ()), w')"
  using leave_then_gone [OF mem_shop_ok demo_orc_delivered demo_orc_delivered,
    of "demo_empty\<lparr>redis_st := [waitlistKey (uuid_String canonical_uuid 7) \<mapsto> (ZSet [(0, uuid_String canonical_uuid 2)], None)]\<rparr>" 7
      "[(0, uuid_String canonical_uuid 2)]" 2] by auto

text \<open>
  Who may not join.  While a unit is available, and for a user who already waits, \<open>Join\<close> is refused with the corresponding
  message and nothing changes, so a user is never on the list twice.
\<close>

theorem join_refused:
  assumes "shop S view tables L" "delivered orc"
    "has_stock (view (redis_st w)) (uuid_String L s) a b"
    "holds_zset (view (redis_st w) (waitlistKey (uuid_String L s))) zs" "0 < a \<or> uuid_String L u \<in> zmembers zs"
  shows "\<exists>w'. run S (Join L s u) orc w =
      (Returned (Inl (Errorf (if 0 < a then ''stock available'' else ''already in waitlist''))), w') \<and>
     view (redis_st w') = view (redis_st w) \<and> pg_st w' = pg_st w"
proof (cases "0 < a")
  case True
  with shop.Join_stock_run [OF assms(1-3) True, of u] show ?thesis by auto
next
  case False
  then have "no_stock (view (redis_st w)) (availableKey (uuid_String L s))"
    using has_stockD [OF assms(3)] by (simp add: no_stock_def)
  with shop.Join_member_run [OF assms(1,2) this assms(4)] False assms(5) show ?thesis by auto
qed

theorem join_refused_witness:
  "\<exists>w'. run mem_services (Join canonical_uuid 7 1) demo_orc demo_world = (Returned (Inl (Errorf ''stock available'')), w')"
  using join_refused [OF mem_shop_ok demo_orc_delivered, of demo_world 7 2 0 "[]" 1] demo_has_stock [of 2 0]
    demo_no_other_key(2) [of 2 0] by (auto simp: demo_in64 holds_zset_def)

end
