(* ===== verification/Inventory_Correct.thy ===== *)
theory Inventory_Correct
  imports Execution Inventory_Service Example_World
begin

text \<open>Creating a sale puts its whole stock on the shelf; reading it back returns what was stored: the times are cut to microseconds, and blanks
  beyond the width of the name's column are gone.\<close>

definition new_sale :: "Sale \<Rightarrow> schedule \<Rightarrow> Sale" where
  "new_sale input orc = input\<lparr>sale_ID := ch_uuid (orc 0), sale_CreatedAt := ch_now (orc 1),
     sale_Status := SaleStatusPending\<rparr>"

definition sale_keys :: "uuid_lib \<Rightarrow> Sale \<Rightarrow> keyspace \<Rightarrow> keyspace" where
  "sale_keys L sale ks =
     (let sid = uuid_String L (sale_ID sale) in
      ks(availableKey sid \<mapsto> cnt (sale_TotalStock sale), reservedKey sid \<mapsto> cnt 0,
         metaKey sid \<mapsto> (Hash (map_of (rev (meta_fields sale))), None)))"

lemma new_sale_ID [simp]: "sale_ID (new_sale input orc) = ch_uuid (orc 0)"
  "sale_TotalStock (new_sale input orc) = sale_TotalStock input"
  by (simp_all add: new_sale_def)

lemma meta_fields_nonempty [simp]: "meta_fields sale \<noteq> []"
  by (simp add: meta_fields_def)

context shop
begin

lemma hset_new:
  assumes "view r k = None" "fvs \<noteq> []"
  shows "\<exists>n. fst (redis_call (srv_redis S) (HSET k fvs) r) = RInt n"
    and "view (snd (redis_call (srv_redis S) (HSET k fvs) r)) = (view r)(k \<mapsto> (Hash (map_of (rev fvs)), None))"
proof -
  have h: "holds_hash (view r k) Map.empty" using assms(1) by (simp add: holds_hash_def)
  show "\<exists>n. fst (redis_call (srv_redis S) (HSET k fvs) r) = RInt n" using hset [OF h assms(2)] by blast
  show "view (snd (redis_call (srv_redis S) (HSET k fvs) r)) = (view r)(k \<mapsto> (Hash (map_of (rev fvs)), None))"
    using hset_view [OF h assms(2)] assms(1) by simp
qed

lemma redis_status_HSET:
  assumes "view r k = None" "fvs \<noteq> []"
  shows "redis_status (Rep (fst (redis_call (srv_redis S) (HSET k fvs) r))) = Inr ()"
  using hset_new(1) [OF assms] by auto

lemma CreateSale_run:
  assumes orc: "delivered orc" and sale: "sale = new_sale input orc" "sale_ok (tb w) sale"
    and free: "ks w (metaKey (uuid_String L (sale_ID sale))) = None"
  shows "\<exists>w'. run S (CreateSale L input) orc w = (Returned (Inr sale), w') \<and>
     ks w' = sale_keys L sale (ks w) \<and> tb w' = (tb w)\<lparr>t_sales := t_sales (tb w) @ [stored_sale sale]\<rparr> \<and>
     published w' = published w"
  using orc sale(2) free
  by (simp add: CreateSale_def shop_simps sale(1) new_sale_def redis_status_HSET hset_new first_err_def
      sale_keys_def ttl_arg_def cnt_def)

lemma CreateSale_rejected_run:
  assumes "delivered orc" "\<not> sale_ok (tb w) (new_sale input orc)"
  shows "\<exists>w'. run S (CreateSale L input) orc w = (Returned (Inl (Wrapf ''failed to create sale'' PgErr)), w') \<and>
     ks w' = ks w \<and> tb w' = tb w"
  using assms by (simp add: CreateSale_def shop_simps new_sale_def)

lemma select_sale:
  assumes "db_ok d" "sale \<in> set (t_sales d)"
  shows "filter (\<lambda>x. sale_ID x = sale_ID sale) (t_sales d) = [sale]"
  using assms by (intro filter_key) (auto simp: db_ok_def)

lemma GetSale_run:
  assumes "delivered orc" "db_ok (tb w)" "sale \<in> set (t_sales (tb w))"
    "has_stock (ks w) (uuid_String L (sale_ID sale)) a b"
  shows "\<exists>w'. run S (GetSale L (sale_ID sale)) orc w =
      (Returned (Inr (sale, \<lparr>Available = a, StatsReserved = b, Total = sale_TotalStock sale\<rparr>)), w') \<and>
     ks w' = ks w \<and> pg_st w' = pg_st w \<and> published w' = published w"
  using assms(1) by (simp add: GetSale_def shop_simps select_sale [OF assms(2,3)] has_stockD [OF assms(4)])

lemma UpdateSale_run:
  assumes "delivered orc" "varchar_ok 50 st" "holds_hash (ks w (metaKey (uuid_String L s))) h"
  shows "\<exists>w'. run S (UpdateSale L s st) orc w = (Returned (Inr ()), w') \<and>
     ks w' = (ks w)(metaKey (uuid_String L s) \<mapsto> (Hash (h(''status'' \<mapsto> st)), ttl_of (ks w (metaKey (uuid_String L s))))) \<and>
     tb w' = (tb w)\<lparr>t_sales := map (\<lambda>x. if sale_ID x = s then x\<lparr>sale_Status := varchar_cut 50 st\<rparr> else x) (t_sales (tb w))\<rparr>"
proof -
  obtain n where "fst (redis_call (srv_redis S) (HSET (metaKey (uuid_String L s)) [(''status'', st)]) (redis_st w)) = RInt n"
    using hset [OF assms(3), of "[(''status'', st)]"] by blast
  with hset_view [OF assms(3)] assms(1,2) show ?thesis
    by (simp add: UpdateSale_def shop_simps)
qed

end

section \<open>Properties\<close>

text \<open>
  C25: Creating a sale and reading it back.  \<open>CreateSale\<close> on a fresh identifier stores the sale as pending and initialises its
  counters and metadata; \<open>GetSale\<close> then returns that sale as the database holds it: the identifier, the stock and the status are equal, the name too if it has at most 255 characters, the
  times are cut to microseconds; all its stock is available and none reserved.
\<close>

theorem create_then_get:
  assumes "shop S view tables L" "delivered orc" "delivered orc2" "db_ok (tables (pg_st w))"
    "sale = new_sale input orc" "sale_ok (tables (pg_st w)) sale"
    "view (redis_st w) (metaKey (uuid_String L (sale_ID sale))) = None"
  shows "\<exists>w' w''. run S (CreateSale L input) orc w = (Returned (Inr sale), w') \<and> sale_Status sale = SaleStatusPending \<and>
     view (redis_st w') = sale_keys L sale (view (redis_st w)) \<and>
     run S (GetSale L (sale_ID sale)) orc2 w' =
       (Returned (Inr (stored_sale sale, \<lparr>Available = sale_TotalStock sale, StatsReserved = 0, Total = sale_TotalStock sale\<rparr>)), w'') \<and>
     sale_Status (stored_sale sale) = SaleStatusPending \<and> (varchar_fits 255 (sale_Name sale) \<longrightarrow> sale_Name (stored_sale sale) = sale_Name sale)"
proof -
  obtain w' where run: "run S (CreateSale L input) orc w = (Returned (Inr sale), w')"
    and ks: "view (redis_st w') = sale_keys L sale (view (redis_st w))"
    and tb: "tables (pg_st w') = (tables (pg_st w))\<lparr>t_sales := t_sales (tables (pg_st w)) @ [stored_sale sale]\<rparr>"
    using shop.CreateSale_run [OF assms(1,2,5-7)] by auto
  have "apply_stmt (InsertSale sale) (tables (pg_st w)) = Some (tables (pg_st w'))" using assms(6) by (simp add: tb)
  then have ok: "db_ok (tables (pg_st w'))" using apply_stmt_ok assms(4) by blast
  have st: "sale_Status sale = SaleStatusPending" "varchar_cut 50 SaleStatusPending = SaleStatusPending"
    by (simp_all add: assms(5) new_sale_def SaleStatusPending_def varchar_fitsD varchar_fits_def utf8_tail_def)
  have "in64 (sale_TotalStock sale)" using assms(6) by (simp add: sale_ok_def in32_in64)
  moreover have "uuid_codec L" using assms(1) by (simp add: shop_def)
  ultimately have "has_stock (view (redis_st w')) (uuid_String L (sale_ID sale)) (sale_TotalStock sale) 0"
    by (simp add: ks sale_keys_def has_stock_def stock_at_def Let_def uuid_codec.codec_keys in64_def)
  then have "has_stock (view (redis_st w')) (uuid_String L (sale_ID (stored_sale sale))) (sale_TotalStock sale) 0" by simp
  from shop.GetSale_run [OF assms(1,3) ok _ this] tb run ks st show ?thesis by (auto simp: stored_sale_def varchar_fitsD)
qed

theorem create_then_get_witness:
  "\<exists>sale w' w''. run mem_services (CreateSale canonical_uuid demo_sale) demo_orc demo_world = (Returned (Inr sale), w') \<and>
     run mem_services (GetSale canonical_uuid (sale_ID sale)) demo_orc w' =
       (Returned (Inr (stored_sale sale, \<lparr>Available = 2, StatsReserved = 0, Total = 2\<rparr>)), w'')"
proof -
  have "sale_ok demo_db (new_sale demo_sale demo_orc)"
    by (simp add: sale_ok_def demo_db_def demo_sale_def new_sale_def demo_orc_def in32_def SaleStatusPending_def
        varchar_ok_def utf8_tail_def)
  moreover have "demo_keys 2 0 (metaKey (uuid_String canonical_uuid u)) = None" for u
    by (simp add: demo_keys_def demo_id_def canonical.codec_keys)
  ultimately have "\<exists>w' w''. run mem_services (CreateSale canonical_uuid demo_sale) demo_orc demo_world =
      (Returned (Inr (new_sale demo_sale demo_orc)), w') \<and>
     run mem_services (GetSale canonical_uuid (sale_ID (new_sale demo_sale demo_orc))) demo_orc w' =
       (Returned (Inr (stored_sale (new_sale demo_sale demo_orc), \<lparr>Available = 2, StatsReserved = 0, Total = 2\<rparr>)), w'')"
    using create_then_get [OF mem_shop_ok demo_orc_delivered demo_orc_delivered _ refl, of demo_world demo_sale] demo_db_ok
    by (auto simp: demo_sale_def)
  then show ?thesis by blast
qed

end
