(* ===== verification/Reconciler.thy ===== *)
theory Reconciler
  imports Inventory_Service
begin

text \<open>
  The periodic reconciliation worker (\<open>internal/worker/reconciler.go\<close>) and the reconciliation at
  start-up (\<open>internal/recovery/reconcile_startup.go\<close>), which recompute a sale's counters from
  the database.
\<close>

section \<open>The worker's view of one sale\<close>

text \<open>The worker reads two counts and the two counters; a failed counter read is 0.\<close>

record drift =
  redis_available :: int
  redis_reserved :: int
  expected_available :: int
  expected_reserved :: int
  postgres_confirmed :: int
  total_stock :: int

definition read_drift :: "uuid_lib \<Rightarrow> uuid \<Rightarrow> int \<Rightarrow> drift res prog" where
  "read_drift L saleID totalStock =
     Call (PgQuery (CountActiveReservations saleID)) (\<lambda>r. case scan_count r of
       Inl e \<Rightarrow> Ret (Inl (Wrapf ''failed to count reservations'' e))
     | Inr pgReserved \<Rightarrow>
     Call (PgQuery (CountOrders saleID)) (\<lambda>r. case scan_count r of
       Inl e \<Rightarrow> Ret (Inl (Wrapf ''failed to count orders'' e))
     | Inr pgConfirmed \<Rightarrow>
     bindP (Redis_Get_Int (availableKey (uuid_String L saleID))) (\<lambda>a.
     bindP (Redis_Get_Int (reservedKey (uuid_String L saleID))) (\<lambda>b.
     Ret (Inr \<lparr>redis_available = int_or_zero a, redis_reserved = int_or_zero b,
       expected_available = totalStock - pgReserved - pgConfirmed, expected_reserved = pgReserved,
       postgres_confirmed = pgConfirmed, total_stock = totalStock\<rparr>)))))"

definition drifted :: "drift \<Rightarrow> bool" where
  "drifted d \<longleftrightarrow> redis_available d \<noteq> expected_available d \<or> redis_reserved d \<noteq> expected_reserved d"

text \<open>Writing the expected counters back; the second write is skipped when the first fails.\<close>

definition correct_drift :: "uuid_lib \<Rightarrow> uuid \<Rightarrow> drift \<Rightarrow> unit res prog" where
  "correct_drift L saleID d =
     bindP (Redis_Set (availableKey (uuid_String L saleID)) (Itoa (expected_available d)) 0) (\<lambda>x. case x of
       Inl e \<Rightarrow> Ret (Inl (Wrapf ''failed to set available'' e))
     | Inr _ \<Rightarrow>
     bindP (Redis_Set (reservedKey (uuid_String L saleID)) (Itoa (expected_reserved d)) 0) (\<lambda>y. case y of
       Inl e \<Rightarrow> Ret (Inl (Wrapf ''failed to set reserved'' e))
     | Inr _ \<Rightarrow> Ret (Inr ())))"

definition drift_payload :: "uuid_lib \<Rightarrow> uuid \<Rightarrow> drift \<Rightarrow> (string \<times> string) list" where
  "drift_payload L saleID d =
     [(''sale_id'', uuid_String L saleID),
      (''redis_available'', Itoa (redis_available d)), (''redis_reserved'', Itoa (redis_reserved d)),
      (''expected_available'', Itoa (expected_available d)),
      (''expected_reserved'', Itoa (expected_reserved d)),
      (''postgres_reserved'', Itoa (expected_reserved d)),
      (''postgres_confirmed'', Itoa (postgres_confirmed d)), (''total_stock'', Itoa (total_stock d))]"

section \<open>The worker\<close>

definition reconcileSingleSale :: "uuid_lib \<Rightarrow> uuid \<Rightarrow> int \<Rightarrow> bool res prog" where
  "reconcileSingleSale L saleID totalStock =
     bindP (read_drift L saleID totalStock) (\<lambda>x. case x of
       Inl e \<Rightarrow> Ret (Inl e)
     | Inr d \<Rightarrow>
     if drifted d
     then bindP (correct_drift L saleID d) (\<lambda>y. case y of
            Inl e \<Rightarrow> Ret (Inl e)
          | Inr _ \<Rightarrow>
          bindP (audit_Log \<lparr>EntityType = ''sale'', EntityID = saleID,
              EventType = ''reconciliation_correction'', Payload = JsonBytes (drift_payload L saleID d)\<rparr>) (\<lambda>_.
          Ret (Inr True)))
     else Ret (Inr False))"

primrec reconcile_loop :: "uuid_lib \<Rightarrow> Sale list \<Rightarrow> int \<Rightarrow> int prog" where
  "reconcile_loop L [] corrections = Ret corrections"
| "reconcile_loop L (s # rows) corrections =
     bindP (reconcileSingleSale L (sale_ID s) (sale_TotalStock s)) (\<lambda>x. case x of
       Inl _ \<Rightarrow> reconcile_loop L rows corrections
     | Inr corrected \<Rightarrow> reconcile_loop L rows (if corrected then corrections + 1 else corrections))"

text \<open>The rest of a round, with the error that \<open>rows.Err()\<close> reports at its end.\<close>

definition reconcile_rows :: "uuid_lib \<Rightarrow> Sale list \<Rightarrow> unit res \<Rightarrow> unit res prog" where
  "reconcile_rows L rows err =
     bindP (reconcile_loop L rows 0) (\<lambda>corrections.
     if corrections > 0
     then metric_then (ReconciliationCorrections corrections) (Ret err)
     else Ret err)"

definition reconcileAllSales :: "uuid_lib \<Rightarrow> unit res prog" where
  "reconcileAllSales L =
     Call (PgQuery SelectActiveSales) (\<lambda>r. case r of
       Rows (SaleRows rows) \<Rightarrow> reconcile_rows L rows (Inr ())
     | RowsCut (SaleRows rows) \<Rightarrow> reconcile_rows L rows (Inl NetworkErr)
     | _ \<Rightarrow> Ret (Inl (Wrapf ''failed to query active sales'' NetworkErr)))"

text \<open>The worker's loop; an error of a round is only logged.\<close>

primrec StartReconciliationWorker :: "uuid_lib \<Rightarrow> wakeup list \<Rightarrow> unit prog" where
  "StartReconciliationWorker L [] = Ret ()"
| "StartReconciliationWorker L (x # xs) = (case x of
       CtxDone \<Rightarrow> Ret ()
     | Ticked \<Rightarrow> bindP (reconcileAllSales L) (\<lambda>_. StartReconciliationWorker L xs))"

section \<open>Start-up\<close>

record ReconciliationResult =
  rc_SaleID :: string
  rc_TotalStock :: int
  rc_ReservedCount :: int
  rc_ConfirmedCount :: int
  rc_ExpectedAvailable :: int
  rc_RedisAvailableBefore :: int
  rc_RedisReservedBefore :: int
  rc_Corrected :: bool

definition reconcileSale :: "uuid_lib \<Rightarrow> uuid \<Rightarrow> int \<Rightarrow> ReconciliationResult res prog" where
  "reconcileSale L saleID totalStock =
     Call (PgQuery (CountActiveReservations saleID)) (\<lambda>r. case scan_count r of
       Inl e \<Rightarrow> Ret (Inl (Wrapf ''failed to count reservations'' e))
     | Inr reservedCount \<Rightarrow>
     Call (PgQuery (CountOrders saleID)) (\<lambda>r. case scan_count r of
       Inl e \<Rightarrow> Ret (Inl (Wrapf ''failed to count orders'' e))
     | Inr confirmedCount \<Rightarrow>
     let expectedAvailable = totalStock - reservedCount - confirmedCount;
         aKey = availableKey (uuid_String L saleID);
         rKey = reservedKey (uuid_String L saleID) in
     bindP (Redis_Get_Int aKey) (\<lambda>a.
     bindP (Redis_Get_Int rKey) (\<lambda>b.
     let redisAvailable = int_or_zero a;
         redisReserved = int_or_zero b;
         result = \<lparr>rc_SaleID = uuid_String L saleID, rc_TotalStock = totalStock, rc_ReservedCount = reservedCount,
           rc_ConfirmedCount = confirmedCount, rc_ExpectedAvailable = expectedAvailable,
           rc_RedisAvailableBefore = redisAvailable, rc_RedisReservedBefore = redisReserved, rc_Corrected = False\<rparr> in
     if redisAvailable \<noteq> expectedAvailable \<or> redisReserved \<noteq> reservedCount
     then bindP (Redis_Set aKey (Itoa expectedAvailable) 0) (\<lambda>x. case x of
            Inl e \<Rightarrow> Ret (Inl (Wrapf ''failed to set available'' e))
          | Inr _ \<Rightarrow>
          bindP (Redis_Set rKey (Itoa reservedCount) 0) (\<lambda>y. case y of
            Inl e \<Rightarrow> Ret (Inl (Wrapf ''failed to set reserved'' e))
          | Inr _ \<Rightarrow> Ret (Inr (result\<lparr>rc_Corrected := True\<rparr>))))
     else Ret (Inr result)))))"

definition result_payload :: "ReconciliationResult \<Rightarrow> (string \<times> string) list" where
  "result_payload x =
     [(''SaleID'', rc_SaleID x), (''TotalStock'', Itoa (rc_TotalStock x)),
      (''ReservedCount'', Itoa (rc_ReservedCount x)),
      (''ConfirmedCount'', Itoa (rc_ConfirmedCount x)),
      (''ExpectedAvailable'', Itoa (rc_ExpectedAvailable x)),
      (''RedisAvailableBefore'', Itoa (rc_RedisAvailableBefore x)),
      (''RedisReservedBefore'', Itoa (rc_RedisReservedBefore x)),
      (''Corrected'', if rc_Corrected x then ''true'' else ''false'')]"

primrec startup_loop :: "uuid_lib \<Rightarrow> Sale list \<Rightarrow> int \<Rightarrow> int \<Rightarrow> (int \<times> int) prog" where
  "startup_loop L [] processed corrections = Ret (processed, corrections)"
| "startup_loop L (s # rows) processed corrections =
     bindP (reconcileSale L (sale_ID s) (sale_TotalStock s)) (\<lambda>x. case x of
       Inl _ \<Rightarrow> startup_loop L rows processed corrections
     | Inr result \<Rightarrow>
         if rc_Corrected result
         then bindP (audit_Log \<lparr>EntityType = ''sale'', EntityID = sale_ID s,
                  EventType = ''startup_reconciliation'', Payload = JsonBytes (result_payload result)\<rparr>) (\<lambda>_.
              startup_loop L rows (processed + 1) (corrections + 1))
         else startup_loop L rows (processed + 1) corrections)"

definition ReconcileOnStartup :: "uuid_lib \<Rightarrow> unit res prog" where
  "ReconcileOnStartup L =
     Call (PgQuery SelectActiveSales) (\<lambda>r. case r of
       Rows (SaleRows rows) \<Rightarrow>
         bindP (startup_loop L rows 0 0) (\<lambda>(processed, corrections).
         metric_then (ReconciliationCorrections corrections) (Ret (Inr ())))
     | RowsCut (SaleRows rows) \<Rightarrow>
         bindP (startup_loop L rows 0 0) (\<lambda>_. Ret (Inl (Wrapf ''error iterating sales'' NetworkErr)))
     | _ \<Rightarrow> Ret (Inl (Wrapf ''failed to query active sales'' NetworkErr)))"

end
