(* ===== verification/Reconciler_Correct.thy ===== *)
theory Reconciler_Correct
  imports Accounting Reconciler
begin

text \<open>
  Reconciliation of one sale, run alone: afterwards the counters equal the database's counts,
  a second run finds nothing to correct, and the worker and the start-up code correct
  alike.
\<close>

section \<open>Expected counters\<close>

definition pg_reserved :: "time \<Rightarrow> uuid \<Rightarrow> db \<Rightarrow> int" where
  "pg_reserved now s d = int (length (active_reservations now s d))"

definition pg_confirmed :: "uuid \<Rightarrow> db \<Rightarrow> int" where
  "pg_confirmed s d = int (length (live_orders s d))"

text \<open>A counter key that is missing counts as 0, as a failed read does in the code.\<close>

definition counter_or_none :: "entry option \<Rightarrow> bool" where
  "counter_or_none e \<longleftrightarrow> e = None \<or> is_cnt e"

definition agrees :: "uuid_lib \<Rightarrow> uuid \<Rightarrow> int \<Rightarrow> time \<Rightarrow> keyspace \<Rightarrow> db \<Rightarrow> bool" where
  "agrees L s T now ks d \<longleftrightarrow>
     cval (ks (availableKey (uuid_String L s))) = T - pg_reserved now s d - pg_confirmed s d \<and>
     cval (ks (reservedKey (uuid_String L s))) = pg_reserved now s d"

definition the_drift :: "uuid_lib \<Rightarrow> uuid \<Rightarrow> int \<Rightarrow> time \<Rightarrow> keyspace \<Rightarrow> db \<Rightarrow> drift" where
  "the_drift L s T now ks d =
     \<lparr>redis_available = cval (ks (availableKey (uuid_String L s))),
      redis_reserved = cval (ks (reservedKey (uuid_String L s))),
      expected_available = T - pg_reserved now s d - pg_confirmed s d,
      expected_reserved = pg_reserved now s d, postgres_confirmed = pg_confirmed s d, total_stock = T\<rparr>"

definition the_result :: "uuid_lib \<Rightarrow> uuid \<Rightarrow> int \<Rightarrow> time \<Rightarrow> keyspace \<Rightarrow> db \<Rightarrow> ReconciliationResult" where
  "the_result L s T now ks d =
     \<lparr>rc_SaleID = uuid_String L s, rc_TotalStock = T, rc_ReservedCount = pg_reserved now s d,
      rc_ConfirmedCount = pg_confirmed s d, rc_ExpectedAvailable = T - pg_reserved now s d - pg_confirmed s d,
      rc_RedisAvailableBefore = cval (ks (availableKey (uuid_String L s))),
      rc_RedisReservedBefore = cval (ks (reservedKey (uuid_String L s))), rc_Corrected = (\<not> agrees L s T now ks d)\<rparr>"

lemma drifted_the_drift: "drifted (the_drift L s T now ks d) \<longleftrightarrow> \<not> agrees L s T now ks d"
  by (auto simp: drifted_def the_drift_def agrees_def)

lemma the_drift_sel [simp]:
  "expected_available (the_drift L s T now ks d) = T - pg_reserved now s d - pg_confirmed s d"
  "expected_reserved (the_drift L s T now ks d) = pg_reserved now s d"
  by (simp_all add: the_drift_def)

text \<open>With every held row unexpired and every order pending or paid, the database's counts are the
  held units and the units sold.\<close>

definition settled :: "time \<Rightarrow> uuid \<Rightarrow> db \<Rightarrow> bool" where
  "settled now s d \<longleftrightarrow> (\<forall>r \<in> set (held_rows s d). now < res_ExpiresAt r) \<and>
     (\<forall>x \<in> set (t_orders d). ord_SaleID x = s \<longrightarrow> ord_Status x = ''pending'' \<or> ord_Status x = ''paid'')"

lemma settled_counts:
  assumes "settled now s d"
  shows "pg_reserved now s d = int (length (held_rows s d))" "pg_confirmed s d = int (orders s d)"
proof -
  have "active_reservations now s d = filter (\<lambda>r. now < res_ExpiresAt r) (held_rows s d)"
    by (simp add: active_reservations_def held_rows_def holds_unit_def conj_ac)
  then show "pg_reserved now s d = int (length (held_rows s d))"
    using assms by (simp add: pg_reserved_def settled_def)
  have "live_orders s d = filter (\<lambda>x. ord_SaleID x = s) (t_orders d)"
    unfolding live_orders_def using assms by (intro filter_cong) (auto simp: settled_def)
  then show "pg_confirmed s d = int (orders s d)" by (simp add: pg_confirmed_def orders_def)
qed

lemma settled_audit [simp]: "held_rows s (d\<lparr>t_audit_log := es\<rparr>) = held_rows s d"
  by (simp add: held_rows_def)

lemma db_ok_audit [simp]: "db_ok (d\<lparr>t_audit_log := es\<rparr>) = db_ok d"
  by (simp add: db_ok_def reservation_refs_def order_refs_def confirmations_ok_def)

context shop
begin

lemma get_counter:
  assumes "counter_or_none (view r k)"
  shows "int_or_zero (case get_string (Rep (fst (redis_call (srv_redis S) (GET k) r))) of
      Inl e \<Rightarrow> Inl e | Inr v \<Rightarrow> (case Atoi v of None \<Rightarrow> Inl ParseErr | Some i \<Rightarrow> Inr i)) = cval (view r k)"
proof (cases "view r k")
  case None
  then show ?thesis by (simp add: get_reply cval_def)
next
  case (Some e)
  with assms have "is_cnt (view r k)" by (simp add: counter_or_none_def)
  then show ?thesis by (simp add: Atoi_Itoa is_cnt_in64)
qed

lemma read_drift_run:
  assumes "delivered orc" "counter_or_none (ks w (availableKey (uuid_String L s)))"
    "counter_or_none (ks w (reservedKey (uuid_String L s)))"
  shows "\<exists>w' orc'. run S (bindP (read_drift L s T) f) orc w =
      run S (f (Inr (the_drift L s T (ch_now (orc 0)) (ks w) (tb w)))) orc' w' \<and> delivered orc' \<and>
      ks w' = ks w \<and> pg_st w' = pg_st w \<and> published w' = published w"
  by (insert assms, simp add: read_drift_def shop_simps get_counter the_drift_def pg_reserved_def pg_confirmed_def,
      intro exI conjI, rule refl, simp_all)

lemma reconcileSingleSale_run:
  assumes orc: "delivered orc" and c: "counter_or_none (ks w (availableKey (uuid_String L s)))"
    "counter_or_none (ks w (reservedKey (uuid_String L s)))"
    and now: "now = ch_now (orc 0)"
  shows "\<exists>w'. run S (reconcileSingleSale L s T) orc w = (Returned (Inr (\<not> agrees L s T now (ks w) (tb w))), w') \<and>
     (if agrees L s T now (ks w) (tb w) then ks w' = ks w \<and> tb w' = tb w
      else ks w' = set_counters (uuid_String L s) (T - pg_reserved now s (tb w) - pg_confirmed s (tb w))
             (pg_reserved now s (tb w)) (ks w) \<and>
        tb w' = (tb w)\<lparr>t_audit_log := t_audit_log (tb w) @ [\<lparr>EntityType = ''sale'', EntityID = s,
          EventType = ''reconciliation_correction'',
          Payload = JsonBytes (drift_payload L s (the_drift L s T now (ks w) (tb w)))\<rparr>]\<rparr>) \<and>
     published w' = published w"
proof -
  let ?d = "the_drift L s T now (ks w) (tb w)"
  let ?f = "\<lambda>x. case x of Inl e \<Rightarrow> Ret (Inl e) | Inr d \<Rightarrow>
     if drifted d then bindP (correct_drift L s d) (\<lambda>y. case y of Inl e \<Rightarrow> Ret (Inl e) | Inr _ \<Rightarrow>
          bindP (audit_Log \<lparr>EntityType = ''sale'', EntityID = s,
              EventType = ''reconciliation_correction'', Payload = JsonBytes (drift_payload L s d)\<rparr>) (\<lambda>_. Ret (Inr True)))
     else Ret (Inr False)"
  obtain w1 orc1 where run: "run S (reconcileSingleSale L s T) orc w = run S (?f (Inr ?d)) orc1 w1"
    and o1: "delivered orc1" and w1: "ks w1 = ks w" "pg_st w1 = pg_st w" "published w1 = published w"
    using read_drift_run [OF orc c, of T ?f] unfolding reconcileSingleSale_def now by blast
  show ?thesis
  proof (cases "agrees L s T now (ks w) (tb w)")
    case True
    then show ?thesis by (simp add: run drifted_the_drift w1)
  next
    case False
    with o1 show ?thesis
      by (simp add: run drifted_the_drift w1 correct_drift_def shop_simps set_counters_def cnt_def
          ttl_arg_def)
  qed
qed

lemma reconcileSale_run:
  assumes orc: "delivered orc" and c: "counter_or_none (ks w (availableKey (uuid_String L s)))"
    "counter_or_none (ks w (reservedKey (uuid_String L s)))"
    and now: "now = ch_now (orc 0)"
  shows "\<exists>w'. run S (reconcileSale L s T) orc w = (Returned (Inr (the_result L s T now (ks w) (tb w))), w') \<and>
     ks w' = (if agrees L s T now (ks w) (tb w) then ks w
       else set_counters (uuid_String L s) (T - pg_reserved now s (tb w) - pg_confirmed s (tb w))
             (pg_reserved now s (tb w)) (ks w)) \<and>
     tb w' = tb w \<and> published w' = published w"
  using orc c unfolding now
  by (cases "agrees L s T (ch_now (orc 0)) (ks w) (tb w)")
     (auto simp: reconcileSale_def shop_simps get_counter the_result_def agrees_def pg_reserved_def pg_confirmed_def
      set_counters_def cnt_def ttl_arg_def)

lemma agrees_set:
  assumes "in64 (T - pg_reserved now s d - pg_confirmed s d)" "in64 (pg_reserved now s d)"
  shows "agrees L s T now (set_counters (uuid_String L s) (T - pg_reserved now s d - pg_confirmed s d)
      (pg_reserved now s d) k) d"
  using assms by (simp add: agrees_def set_counters_def codec_keys)

lemma restored_consistent:
  assumes "db_ok d" "settled now s d" "0 \<le> T" "T < 2 ^ 62" "int (length (held_rows s d)) + int (orders s d) \<le> T"
  shows "consistent L s T (set_counters (uuid_String L s) (T - pg_reserved now s d - pg_confirmed s d)
      (pg_reserved now s d) k) d"
proof -
  have "has_stock (set_counters (uuid_String L s) a b k) (uuid_String L s) a b" if "in64 a" "in64 b" for a b
    using that by (simp add: has_stock_def stock_at_def set_counters_def codec_keys)
  with assms show ?thesis by (simp add: consistent_def settled_counts in64_def)
qed

end

section \<open>Properties\<close>

text \<open>
  C16: Reconciliation repairs the counters.  Whatever the two counters hold, or if they are missing, one undisturbed run of \<open>reconcileSingleSale\<close> leaves them equal to the
  values that the database's counts give: the unexpired reserved rows, and the stock less these and the pending and paid orders.  It reports a correction, and logs it,
  exactly when they were not equal before, and otherwise changes nothing.  If moreover no reserved row is overdue, every order is pending or paid and
  the sale is not oversold, then after a correction the counters are consistent with the reserved rows and orders of the sale.
\<close>

theorem reconcile_restores:
  assumes "shop S view tables L" "delivered orc" "counter_or_none (view (redis_st w) (availableKey (uuid_String L s)))"
    "counter_or_none (view (redis_st w) (reservedKey (uuid_String L s)))"
    and "now = ch_now (orc 0)" "d = tables (pg_st w)" "in64 (T - pg_reserved now s d - pg_confirmed s d)" "in64 (pg_reserved now s d)"
  shows "\<exists>w' es. run S (reconcileSingleSale L s T) orc w = (Returned (Inr (\<not> agrees L s T now (view (redis_st w)) d)), w') \<and>
     agrees L s T now (view (redis_st w')) (tables (pg_st w')) \<and> tables (pg_st w') = d\<lparr>t_audit_log := t_audit_log d @ es\<rparr> \<and>
     (if agrees L s T now (view (redis_st w)) d then view (redis_st w') = view (redis_st w) \<and> es = []
      else length es = 1 \<and> (db_ok d \<and> settled now s d \<and> 0 \<le> T \<and> T < 2 ^ 62 \<and> int (length (held_rows s d)) + int (orders s d) \<le> T \<longrightarrow>
        consistent L s T (view (redis_st w')) (tables (pg_st w'))))"
proof -
  let ?ks = "view (redis_st w)"
  let ?new = "set_counters (uuid_String L s) (T - pg_reserved now s d - pg_confirmed s d) (pg_reserved now s d) ?ks"
  note run = shop.reconcileSingleSale_run [OF assms(1-5), of T, folded assms(6)]
  note set = shop.agrees_set [OF assms(1,7,8), of ?ks]
  have counts: "pg_reserved now s (d\<lparr>t_audit_log := es\<rparr>) = pg_reserved now s d" "pg_confirmed s (d\<lparr>t_audit_log := es\<rparr>) = pg_confirmed s d" for es
    by (simp_all add: pg_reserved_def pg_confirmed_def active_reservations_def live_orders_def)
  show ?thesis
  proof (cases "agrees L s T now ?ks d")
    case True
    with run obtain w' where "run S (reconcileSingleSale L s T) orc w = (Returned (Inr False), w')" "view (redis_st w') = ?ks"
      "tables (pg_st w') = d" by auto
    with True show ?thesis by (intro exI [of _ w'] exI [of _ "[]"]) simp
  next
    case False
    with run obtain w' e where w': "run S (reconcileSingleSale L s T) orc w = (Returned (Inr True), w')" "view (redis_st w') = ?new"
      "tables (pg_st w') = d\<lparr>t_audit_log := t_audit_log d @ [e]\<rparr>" by auto
    have "consistent L s T ?new (tables (pg_st w'))"
      if "db_ok d" "settled now s d" "0 \<le> T" "T < 2 ^ 62" "int (length (held_rows s d)) + int (orders s d) \<le> T"
      using shop.restored_consistent [OF assms(1) that] by (simp add: consistent_def w'(3))
    with w' False set show ?thesis
      by (intro exI [of _ w'] exI [of _ "[e]"]) (simp add: agrees_def counts)
  qed
qed

theorem reconcile_restores_witness:
  "\<exists>w'. run mem_services (reconcileSingleSale canonical_uuid 7 2) demo_orc (demo_held\<lparr>redis_st := Map.empty\<rparr>) =
      (Returned (Inr True), w') \<and> consistent canonical_uuid 7 2 (redis_st w') (pg_st w')"
proof -
  have "held_rows 7 demo_held_db = [demo_res]" by (simp add: held_rows_def holds_unit_def)
  then have s: "settled (ch_now (demo_orc 0)) 7 demo_held_db" "length (held_rows 7 demo_held_db) = 1" "orders 7 demo_held_db = 0"
    by (simp_all add: settled_def orders_def demo_orc_def second_def)
  then have n: "\<not> agrees canonical_uuid 7 2 (ch_now (demo_orc 0)) Map.empty demo_held_db"
    "pg_reserved (ch_now (demo_orc 0)) 7 demo_held_db = 1" "pg_confirmed 7 demo_held_db = 0"
    by (simp_all add: agrees_def settled_counts cval_def)
  have c: "counter_or_none ((Map.empty :: keyspace) k)" for k by (simp add: counter_or_none_def)
  show ?thesis
    using reconcile_restores [OF mem_shop_ok demo_orc_delivered _ _ refl refl, of "demo_held\<lparr>redis_st := Map.empty\<rparr>" 7 2] s n c demo_held_db_ok
    by (auto simp: demo_in64)
qed

text \<open>
  Reconciliation is idempotent.  After a run, a second undisturbed run that sees the same clock finds nothing to correct and changes
  neither the counters nor the tables.
\<close>

theorem reconcile_idempotent:
  assumes "shop S view tables L" "delivered orc" "delivered orc2" "ch_now (orc2 0) = ch_now (orc 0)"
    "counter_or_none (view (redis_st w) (availableKey (uuid_String L s)))"
    "counter_or_none (view (redis_st w) (reservedKey (uuid_String L s)))"
    "in64 (T - pg_reserved (ch_now (orc 0)) s (tables (pg_st w)) - pg_confirmed s (tables (pg_st w)))"
    "in64 (pg_reserved (ch_now (orc 0)) s (tables (pg_st w)))"
  shows "\<exists>c w' w''. run S (reconcileSingleSale L s T) orc w = (Returned (Inr c), w') \<and>
     run S (reconcileSingleSale L s T) orc2 w' = (Returned (Inr False), w'') \<and>
     view (redis_st w'') = view (redis_st w') \<and> tables (pg_st w'') = tables (pg_st w')"
proof -
  let ?d = "tables (pg_st w)" and ?now = "ch_now (orc 0)"
  obtain w' where run: "run S (reconcileSingleSale L s T) orc w = (Returned (Inr (\<not> agrees L s T ?now (view (redis_st w)) ?d)), w')"
    and w': "if agrees L s T ?now (view (redis_st w)) ?d then view (redis_st w') = view (redis_st w) \<and> tables (pg_st w') = ?d
      else view (redis_st w') = set_counters (uuid_String L s) (T - pg_reserved ?now s ?d - pg_confirmed s ?d)
             (pg_reserved ?now s ?d) (view (redis_st w)) \<and> (\<exists>es. tables (pg_st w') = ?d\<lparr>t_audit_log := es\<rparr>)"
    using shop.reconcileSingleSale_run [OF assms(1,2,5,6) refl, of T] by (auto split: if_splits) blast
  have codec: "uuid_codec L" using assms(1) by (simp add: shop_def)
  have counts: "pg_reserved ?now s (?d\<lparr>t_audit_log := es\<rparr>) = pg_reserved ?now s ?d"
    "pg_confirmed s (?d\<lparr>t_audit_log := es\<rparr>) = pg_confirmed s ?d" for es
    by (simp_all add: pg_reserved_def pg_confirmed_def active_reservations_def live_orders_def)
  have "agrees L s T ?now (view (redis_st w')) (tables (pg_st w'))"
    using w' shop.agrees_set [OF assms(1,7,8)] by (auto simp: agrees_def counts split: if_splits)
  moreover have "counter_or_none (view (redis_st w') (availableKey (uuid_String L s)))"
    "counter_or_none (view (redis_st w') (reservedKey (uuid_String L s)))"
    using w' assms(5-8) codec by (auto simp: counter_or_none_def set_counters_def uuid_codec.codec_keys split: if_splits)
  ultimately show ?thesis
    using shop.reconcileSingleSale_run [OF assms(1,3), of w' s ?now T] assms(4) run by auto
qed

theorem reconcile_idempotent_witness:
  "\<exists>c w' w''. run mem_services (reconcileSingleSale canonical_uuid 7 2) demo_orc (demo_held\<lparr>redis_st := Map.empty\<rparr>) = (Returned (Inr c), w') \<and>
     run mem_services (reconcileSingleSale canonical_uuid 7 2) demo_orc w' = (Returned (Inr False), w'')"
proof -
  have "pg_reserved (ch_now (demo_orc 0)) 7 demo_held_db = 1" "pg_confirmed 7 demo_held_db = 0"
    by (simp_all add: pg_reserved_def pg_confirmed_def active_reservations_def live_orders_def demo_orc_def second_def)
  then show ?thesis
    using reconcile_idempotent [OF mem_shop_ok demo_orc_delivered demo_orc_delivered refl, of "demo_held\<lparr>redis_st := Map.empty\<rparr>" 7 2]
    by (fastforce simp: counter_or_none_def demo_in64)
qed

definition result_drift :: "ReconciliationResult \<Rightarrow> drift" where
  "result_drift x = \<lparr>redis_available = rc_RedisAvailableBefore x, redis_reserved = rc_RedisReservedBefore x,
     expected_available = rc_ExpectedAvailable x, expected_reserved = rc_ReservedCount x,
     postgres_confirmed = rc_ConfirmedCount x, total_stock = rc_TotalStock x\<rparr>"

text \<open>
  C27: The worker and the start-up code correct alike.  The two packages contain the routine separately.  As programs, error paths included, the worker's \<open>reconcileSingleSale\<close> is the
  start-up's \<open>reconcileSale\<close> followed by an audit entry where it has corrected: both issue the same calls with the same keys and values in the same
  order, reach the same verdict and return the same errors, whatever the services answer.
\<close>

theorem reconcilers_agree:
  "reconcileSingleSale L s T = bindP (reconcileSale L s T) (\<lambda>x. case x of
       Inl e \<Rightarrow> Ret (Inl e)
     | Inr result \<Rightarrow>
       if rc_Corrected result
       then bindP (audit_Log \<lparr>EntityType = ''sale'', EntityID = s, EventType = ''reconciliation_correction'',
              Payload = JsonBytes (drift_payload L s (result_drift result))\<rparr>) (\<lambda>_. Ret (Inr True))
       else Ret (Inr False))"
  by (auto simp: reconcileSingleSale_def reconcileSale_def read_drift_def correct_drift_def drifted_def Redis_Get_Int_def Redis_Set_def
      audit_Log_def LogWithConn_def Let_def result_drift_def fun_eq_iff split: sum.split)

end
