(* ===== verification/Rate_Limiter.thy ===== *)
theory Rate_Limiter
  imports Execution
begin

text \<open>
  \<open>internal/ratelimit/limiter.go\<close>: one token bucket per user, kept in a Redis hash and updated by
  \<open>token_bucket.lua\<close>.  The formatting of a \<open>float64\<close> argument by the Redis client library is the
  parameter \<open>fmt\<close>.  The abstract bucket is a pair of tokens and refill time, \<open>take_token\<close> is one request
  against it, and the lemmas of this theory show that the script implements it.
\<close>

section \<open>The limiter\<close>

record Limiter =
  capacity :: rat
  ratePerSec :: rat

definition unix_milli :: "time \<Rightarrow> int" where
  "unix_milli t = t div 10 ^ 6"

definition Allow :: "(rat \<Rightarrow> string) \<Rightarrow> Limiter \<Rightarrow> string \<Rightarrow> (bool \<times> int) res prog" where
  "Allow fmt l userID =
     time_Now (\<lambda>t.
     let key = ratelimitKey userID; now = unix_milli t in
     bindP (Call (EvalSha Token_bucket_lua [key] [fmt (capacity l), fmt (ratePerSec l), Itoa now])
              (assert_int64 ''token bucket script failed'')) (\<lambda>x. case x of
       Inl e \<Rightarrow> Ret (Inl e)
     | Inr remaining \<Rightarrow> if remaining = - 1 then Ret (Inr (False, 0)) else Ret (Inr (True, remaining))))"

section \<open>The abstract bucket\<close>

type_synonym bucket = "(rat \<times> rat) option"

text \<open>What a bucket key holds; \<open>None\<close> for a value that is not a bucket.\<close>

definition hash_number :: "'r redis \<Rightarrow> (string \<Rightarrow> string option) \<Rightarrow> string \<Rightarrow> rat option" where
  "hash_number R h f = Option.bind (h f) (lua_tonumber R)"

definition bucket_of :: "'r redis \<Rightarrow> entry option \<Rightarrow> bucket option" where
  "bucket_of R e = (case e of
       None \<Rightarrow> Some None
     | Some (Hash h, _) \<Rightarrow>
         (case (hash_number R h ''tokens'', hash_number R h ''last_refill'') of
            (Some tokens, Some refilled) \<Rightarrow> Some (Some (tokens, refilled))
          | _ \<Rightarrow> None)
     | _ \<Rightarrow> None)"

definition refilled :: "(rat \<Rightarrow> rat) \<Rightarrow> rat \<Rightarrow> rat \<Rightarrow> rat \<Rightarrow> bucket \<Rightarrow> rat" where
  "refilled rnd cap rate now b = (case b of
       None \<Rightarrow> bucket_refill rnd cap rate now cap now
     | Some (tokens, refill) \<Rightarrow> bucket_refill rnd cap rate now tokens refill)"

definition take_token :: "(rat \<Rightarrow> rat) \<Rightarrow> rat \<Rightarrow> rat \<Rightarrow> rat \<Rightarrow> bucket \<Rightarrow> int \<times> bucket" where
  "take_token rnd cap rate now b =
     (let tokens = refilled rnd cap rate now b
      in if tokens < 1 then (- 1, b) else (\<lfloor>rnd (tokens - 1)\<rfloor>, Some (rnd (tokens - 1), now)))"

lemma refilled_le: "refilled rnd cap rate now b \<le> cap"
  by (simp add: refilled_def bucket_refill_def Let_def split: option.split)

lemma in_double_small: "\<bar>x\<bar> \<le> 2 ^ 100 \<Longrightarrow> in_double x"
  by (simp add: in_double_def)

lemma in_double_of_int:
  assumes "\<bar>i\<bar> \<le> 2 ^ 53"
  shows "in_double (of_int i)"
proof (rule in_double_small)
  have "of_int \<bar>i\<bar> \<le> (of_int (2 ^ 53) :: rat)" using assms by (simp only: of_int_le_iff)
  then show "\<bar>of_int i :: rat\<bar> \<le> 2 ^ 100" by simp
qed

section \<open>The script implements the abstract bucket\<close>

context redis_server
begin

lemma spent_tokens:
  assumes "1 \<le> q" "q \<le> of_int C" "C \<le> 2 ^ 53"
  shows "0 \<le> lua_round R (q - 1)" "lua_round R (q - 1) \<le> of_int C - 1" "in_double (q - 1)"
proof -
  have C: "1 \<le> C" using assms(1,2) by linarith
  have le: "of_int C \<le> (2 ^ 53 :: rat)" using assms(3) by (metis of_int_le_iff of_int_numeral of_int_power)
  show d: "in_double (q - 1)" using assms le by (intro in_double_small) (simp add: abs_le_iff)
  have "in_double 0" "in_double (of_int (C - 1))"
    using C le by (auto intro!: in_double_small simp: abs_le_iff)
  with d round_mono [of 0 "q - 1"] round_mono [of "q - 1" "of_int (C - 1)"] round_exact [of 0]
    round_exact [of "C - 1"] assms C
  show "0 \<le> lua_round R (q - 1)" "lua_round R (q - 1) \<le> of_int C - 1" by simp_all
qed

lemma bucket_of_hash:
  assumes "bucket_of R e = Some b"
  obtains h where "holds_hash e h"
    "hash_number R h ''tokens'' = map_option fst b" "hash_number R h ''last_refill'' = map_option snd b"
proof (cases e)
  case None
  with assms that [of Map.empty] show ?thesis
    by (auto simp: bucket_of_def holds_hash_def hash_number_def)
next
  case (Some x)
  with assms obtain h t where "e = Some (Hash h, t)"
    by (cases x; cases "fst x") (auto simp: bucket_of_def)
  with assms that [of h] show ?thesis
    by (auto simp: bucket_of_def holds_hash_def split: option.splits)
qed

lemma lua_hmget:
  assumes "holds_hash (view r k) h"
  shows "lua_call R (HMGET k fs) r f = f (RBulks (map h fs)) (snd (redis_call R (HMGET k fs) r))"
  by (rule lua_call_ok) (simp_all add: hmget_reply [OF assms])

lemma lua_hmset:
  assumes "holds_hash (view r k) h" "fvs \<noteq> []"
  shows "lua_call R (HMSET k fvs) r f = f ROk (snd (redis_call R (HMSET k fvs) r))"
  by (rule lua_call_ok) (simp_all add: hmset [OF assms])

lemma lua_expire:
  assumes "view r k = Some (e, ttl)" "0 < t"
  shows "lua_call R (EXPIRE k t) r f = f (RInt 1) (snd (redis_call R (EXPIRE k t) r))"
  by (rule lua_call_ok) (simp_all add: expire [OF assms])

text \<open>The script's decision and what it leaves behind.\<close>

lemma token_bucket_cases:
  assumes b: "bucket_of R (view r k) = Some b"
    and args: "lua_tonumber R a1 = Some cap" "lua_tonumber R a2 = Some rate" "lua_tonumber R a3 = Some now"
  defines "tokens \<equiv> refilled (lua_round R) cap rate now b"
  shows "tokens < 1 \<Longrightarrow> fst (token_bucket_lua R k a1 a2 a3 r) = RInt (- 1) \<and>
      view (snd (token_bucket_lua R k a1 a2 a3 r)) = view r"
    and "1 \<le> tokens \<Longrightarrow> fst (token_bucket_lua R k a1 a2 a3 r) = RInt \<lfloor>lua_round R (tokens - 1)\<rfloor> \<and>
      (\<exists>h. view (snd (token_bucket_lua R k a1 a2 a3 r)) = (view r)(k \<mapsto> (Hash (h
         (''tokens'' \<mapsto> lua_tostring R (lua_round R (tokens - 1)), ''last_refill'' \<mapsto> lua_tostring R now)), Some 60000)))"
proof -
  obtain h where h: "holds_hash (view r k) h"
    and f: "hash_number R h ''tokens'' = map_option fst b" "hash_number R h ''last_refill'' = map_option snd b"
    using bucket_of_hash [OF b] .
  note run = token_bucket_lua_def lua_hmget [OF h] lua_field_def hash_number_def [symmetric] f args Let_def
  have t: "tokens = (case b of None \<Rightarrow> bucket_refill (lua_round R) cap rate now cap now
      | Some (u, v) \<Rightarrow> bucket_refill (lua_round R) cap rate now u v)"
    by (simp add: tokens_def refilled_def)
  show "tokens < 1 \<Longrightarrow> fst (token_bucket_lua R k a1 a2 a3 r) = RInt (- 1) \<and>
      view (snd (token_bucket_lua R k a1 a2 a3 r)) = view r"
    by (cases b) (auto simp: run t)
  assume "1 \<le> tokens"
  then have n: "\<not> tokens < 1" by simp
  let ?r = "snd (redis_call R (HMGET k [''tokens'', ''last_refill'']) r)"
  have "holds_hash (view ?r k) h" using h by simp
  note hm = lua_hmset [OF this] hmset_view [OF this]
  show "fst (token_bucket_lua R k a1 a2 a3 r) = RInt \<lfloor>lua_round R (tokens - 1)\<rfloor> \<and>
      (\<exists>h. view (snd (token_bucket_lua R k a1 a2 a3 r)) = (view r)(k \<mapsto> (Hash (h
         (''tokens'' \<mapsto> lua_tostring R (lua_round R (tokens - 1)), ''last_refill'' \<mapsto> lua_tostring R now)), Some 60000)))"
    using n by (cases b) (auto simp: run t hm lua_expire expire_view_upd intro!: exI [of _ h])
qed

lemma token_bucket_take:
  assumes b: "bucket_of R (view r k) = Some b" and C: "C \<le> 2 ^ 53" and now: "\<bar>now\<bar> \<le> 2 ^ 53"
    and args: "lua_tonumber R a1 = Some (of_int C)" "lua_tonumber R a2 = Some rate" "a3 = Itoa now"
  defines "res \<equiv> take_token (lua_round R) (of_int C) rate (of_int now) b"
  shows "fst (token_bucket_lua R k a1 a2 a3 r) = RInt (fst res)"
    and "bucket_of R (view (snd (token_bucket_lua R k a1 a2 a3 r)) k) = Some (snd res)"
    and "fst res = - 1 \<Longrightarrow> view (snd (token_bucket_lua R k a1 a2 a3 r)) = view r"
proof -
  let ?q = "refilled (lua_round R) (of_int C) rate (of_int now) b"
  have a3: "lua_tonumber R a3 = Some (of_int now)" using tonumber_exact [OF now] args(3) by simp
  note c = token_bucket_cases [OF b args(1,2) a3]
  have "in_double (of_int now)" using now by (rule in_double_of_int)
  note n = tonumber_tostring [OF this, unfolded round_exact [OF now]]
  have "fst (token_bucket_lua R k a1 a2 a3 r) = RInt (fst res) \<and>
     bucket_of R (view (snd (token_bucket_lua R k a1 a2 a3 r)) k) = Some (snd res) \<and>
     (fst res = - 1 \<longrightarrow> view (snd (token_bucket_lua R k a1 a2 a3 r)) = view r)"
  proof (cases "?q < 1")
    case True
    with c(1) b show ?thesis by (simp add: res_def take_token_def)
  next
    case False
    then have q: "1 \<le> ?q" by simp
    note s = spent_tokens [OF q refilled_le C]
    have "0 \<le> \<lfloor>lua_round R (?q - 1)\<rfloor>" using s(1) by simp
    then have "\<lfloor>lua_round R (?q - 1)\<rfloor> \<noteq> - 1" by linarith
    with c(2) [OF q] False show ?thesis
      by (auto simp: res_def take_token_def Let_def bucket_of_def hash_number_def n tonumber_tostring [OF s(3)])
  qed
  then show "fst (token_bucket_lua R k a1 a2 a3 r) = RInt (fst res)"
    and "bucket_of R (view (snd (token_bucket_lua R k a1 a2 a3 r)) k) = Some (snd res)"
    and "fst res = - 1 \<Longrightarrow> view (snd (token_bucket_lua R k a1 a2 a3 r)) = view r" by simp_all
qed

end

end
