(* ===== verification/Http_Api.thy ===== *)
theory Http_Api
  imports Reservation_Service Waitlist_Service Rate_Limiter
begin

text \<open>
  The HTTP layer: the handlers of \<open>internal/api/handlers\<close>, the middleware and the router of
  \<open>internal/api\<close>, and the WebSocket handler of \<open>internal/websocket/handler.go\<close>.  A handler maps a request to a program that returns the response; every handler of the
  sources writes its response once, after its last call.  \<open>encoding/json\<close> on the request and response structs, the
  texts of library errors, the path matching of the router library, the WebSocket upgrade and the metrics page are parameters (\<open>api\<close>).
\<close>

section \<open>Requests and responses\<close>

record request =
  rq_Method :: string
  rq_Path :: string
  rq_Header :: "string \<Rightarrow> string"        \<comment> \<open>\<open>Header.Get\<close>: empty when absent\<close>
  rq_Query :: "string \<Rightarrow> string"
  rq_URLParam :: "string \<Rightarrow> string"
  rq_Body :: string
  rq_RemoteAddr :: string

record response =
  rs_Status :: int
  rs_Header :: "(string \<times> string) list"
  rs_Body :: string

type_synonym handler = "request \<Rightarrow> response prog"

datatype json_value =
    JReservation Reservation
  | JOrder Order
  | JSale Sale "SaleStats option"
  | JJoin JoinResponse
  | JPosition PositionResponse

record ReserveRequest =
  rr_UserID :: uuid
  rr_ItemID :: uuid

record idempotencyEntry =
  ie_Status :: int
  ie_Body :: string

text \<open>
  The router library: which registered route and which URL parameters a request matches, or the pattern (possibly empty) it has
  recorded for a request that matches none.
\<close>

datatype chi_match = NotFound string | MethodNotAllowed string | Matched string "string \<Rightarrow> string"

record api =
  a_uuid :: uuid_lib
  a_fmt :: "rat \<Rightarrow> string"
  a_lib_text :: "goerr \<Rightarrow> string"
  a_chi :: "(string \<times> string) list \<Rightarrow> string \<Rightarrow> string \<Rightarrow> chi_match"
  dec_reserve :: "string \<Rightarrow> ReserveRequest option"
  dec_sale :: "string \<Rightarrow> SaleInput option"
  dec_status :: "string \<Rightarrow> string option"
  dec_join :: "string \<Rightarrow> uuid option"
  enc_json :: "json_value \<Rightarrow> string"
  dec_entry :: "string \<Rightarrow> idempotencyEntry option"
  enc_entry :: "idempotencyEntry \<Rightarrow> string"
  enc_snapshot :: "int \<Rightarrow> string"
  a_upgrade :: "request \<Rightarrow> response option"    \<comment> \<open>the library's error response, if any\<close>
  a_promhttp :: "request \<Rightarrow> response"
  a_limiter :: Limiter
  a_reservations :: ReservationService

text \<open>\<open>err.Error()\<close>.\<close>

fun error_text :: "(goerr \<Rightarrow> string) \<Rightarrow> goerr \<Rightarrow> string" where
  "error_text lib (Errorf m) = m"
| "error_text lib (Wrapf m e) = m @ '': '' @ error_text lib e"
| "error_text lib e = lib e"

text \<open>\<open>http.Error\<close>, \<open>w.WriteHeader\<close> alone, and a JSON body.\<close>

definition http_Error :: "string \<Rightarrow> int \<Rightarrow> response" where
  "http_Error msg code = \<lparr>rs_Status = code,
     rs_Header = [(''Content-Type'', ''text/plain; charset=utf-8''), (''X-Content-Type-Options'', ''nosniff'')],
     rs_Body = msg @ [CHR 0x0A]\<rparr>"

definition write_header :: "int \<Rightarrow> response" where
  "write_header code = \<lparr>rs_Status = code, rs_Header = [], rs_Body = []\<rparr>"

definition write_json :: "api \<Rightarrow> int \<Rightarrow> json_value \<Rightarrow> response" where
  "write_json A code v = \<lparr>rs_Status = code, rs_Header = [(''Content-Type'', ''application/json'')],
     rs_Body = enc_json A v\<rparr>"

definition add_header :: "string \<Rightarrow> string \<Rightarrow> response \<Rightarrow> response" where
  "add_header k v r = r\<lparr>rs_Header := (k, v) # rs_Header r\<rparr>"

abbreviation error_response :: "api \<Rightarrow> goerr \<Rightarrow> int \<Rightarrow> response" where
  "error_response A e code \<equiv> http_Error (error_text (a_lib_text A) e) code"

section \<open>handlers/reservations.go\<close>

definition Reserve_handler :: "api \<Rightarrow> handler" where
  "Reserve_handler A r =
     (case uuid_Parse (a_uuid A) (rq_URLParam r ''id'') of
        None \<Rightarrow> Ret (http_Error ''Invalid sale ID'' 400)
      | Some saleID \<Rightarrow>
      (case dec_reserve A (rq_Body r) of
        None \<Rightarrow> Ret (http_Error ''Invalid request body'' 400)
      | Some req \<Rightarrow>
      bindP (Reserve (a_uuid A) (a_reservations A) (rr_UserID req) saleID (rr_ItemID req)
               (rq_Header r ''Idempotency-Key'')) (\<lambda>x. case x of
        Inl e \<Rightarrow>
          if error_text (a_lib_text A) e = ''sold out'' then Ret (http_Error ''Sold out'' 409)
          else Ret (error_response A e 500)
      | Inr reservation \<Rightarrow> Ret (write_json A 201 (JReservation reservation)))))"

definition Confirm_handler :: "api \<Rightarrow> handler" where
  "Confirm_handler A r =
     (case uuid_Parse (a_uuid A) (rq_URLParam r ''id'') of
        None \<Rightarrow> Ret (http_Error ''Invalid reservation ID'' 400)
      | Some reservationID \<Rightarrow>
      bindP (Confirm (a_uuid A) reservationID (rq_Header r ''Idempotency-Key'')) (\<lambda>x. case x of
        Inl e \<Rightarrow> Ret (error_response A e 500)
      | Inr order \<Rightarrow> Ret (write_json A 200 (JOrder order))))"

definition Release_handler :: "api \<Rightarrow> handler" where
  "Release_handler A r =
     (case uuid_Parse (a_uuid A) (rq_URLParam r ''id'') of
        None \<Rightarrow> Ret (http_Error ''Invalid reservation ID'' 400)
      | Some reservationID \<Rightarrow>
      bindP (Release (a_uuid A) (a_reservations A) reservationID) (\<lambda>x. case x of
        Inl e \<Rightarrow> Ret (error_response A e 500)
      | Inr _ \<Rightarrow> Ret (write_header 204)))"

section \<open>handlers/sales.go\<close>

definition CreateSale_handler :: "api \<Rightarrow> handler" where
  "CreateSale_handler A r =
     (case dec_sale A (rq_Body r) of
        None \<Rightarrow> Ret (http_Error ''Invalid request body'' 400)
      | Some req \<Rightarrow>
      bindP (CreateSale (a_uuid A) \<lparr>sale_ID = 0, sale_Name = in_Name req, sale_TotalStock = in_TotalStock req,
               sale_StartTime = in_StartTime req, sale_EndTime = in_EndTime req, sale_Status = [],
               sale_CreatedAt = 0\<rparr>) (\<lambda>x. case x of
        Inl e \<Rightarrow> Ret (error_response A e 500)
      | Inr sale \<Rightarrow> Ret (write_json A 201 (JSale sale None))))"

definition GetSale_handler :: "api \<Rightarrow> handler" where
  "GetSale_handler A r =
     (case uuid_Parse (a_uuid A) (rq_URLParam r ''id'') of
        None \<Rightarrow> Ret (http_Error ''Invalid sale ID'' 400)
      | Some saleID \<Rightarrow>
      bindP (GetSale (a_uuid A) saleID) (\<lambda>x. case x of
        Inl e \<Rightarrow> Ret (error_response A e 404)
      | Inr (sale, stats) \<Rightarrow> Ret (write_json A 200 (JSale sale (Some stats)))))"

definition UpdateSaleStatus_handler :: "api \<Rightarrow> handler" where
  "UpdateSaleStatus_handler A r =
     (case uuid_Parse (a_uuid A) (rq_URLParam r ''id'') of
        None \<Rightarrow> Ret (http_Error ''Invalid sale ID'' 400)
      | Some saleID \<Rightarrow>
      (case dec_status A (rq_Body r) of
        None \<Rightarrow> Ret (http_Error ''Invalid request body'' 400)
      | Some status \<Rightarrow>
      bindP (UpdateSale (a_uuid A) saleID status) (\<lambda>x. case x of
        Inl e \<Rightarrow> Ret (error_response A e 500)
      | Inr _ \<Rightarrow> Ret (write_header 204))))"

section \<open>handlers/waitlist.go\<close>

definition Join_handler :: "api \<Rightarrow> handler" where
  "Join_handler A r =
     (case uuid_Parse (a_uuid A) (rq_URLParam r ''id'') of
        None \<Rightarrow> Ret (http_Error ''Invalid sale ID'' 400)
      | Some saleID \<Rightarrow>
      (case dec_join A (rq_Body r) of
        None \<Rightarrow> Ret (http_Error ''Invalid request body'' 400)
      | Some userID \<Rightarrow>
      bindP (Join (a_uuid A) saleID userID) (\<lambda>x. case x of
        Inl e \<Rightarrow>
          if error_text (a_lib_text A) e = ''stock available''
          then Ret (http_Error ''Stock available, please reserve directly'' 409)
          else if error_text (a_lib_text A) e = ''already in waitlist''
          then Ret (http_Error ''Already in waitlist'' 409)
          else Ret (error_response A e 500)
      | Inr resp \<Rightarrow> Ret (write_json A 201 (JJoin resp)))))"

definition GetPosition_handler :: "api \<Rightarrow> handler" where
  "GetPosition_handler A r =
     (case uuid_Parse (a_uuid A) (rq_URLParam r ''id'') of
        None \<Rightarrow> Ret (http_Error ''Invalid sale ID'' 400)
      | Some saleID \<Rightarrow>
      if rq_Query r ''user_id'' = [] then Ret (http_Error ''user_id query parameter required'' 400)
      else
      (case uuid_Parse (a_uuid A) (rq_Query r ''user_id'') of
        None \<Rightarrow> Ret (http_Error ''Invalid user ID'' 400)
      | Some userID \<Rightarrow>
      bindP (GetPosition (a_uuid A) saleID userID) (\<lambda>x. case x of
        Inl e \<Rightarrow> Ret (http_Error ''User not in waitlist'' 404)
      | Inr resp \<Rightarrow> Ret (write_json A 200 (JPosition resp)))))"

definition Leave_handler :: "api \<Rightarrow> handler" where
  "Leave_handler A r =
     (case uuid_Parse (a_uuid A) (rq_URLParam r ''id'') of
        None \<Rightarrow> Ret (http_Error ''Invalid sale ID'' 400)
      | Some saleID \<Rightarrow>
      (case dec_join A (rq_Body r) of
        None \<Rightarrow> Ret (http_Error ''Invalid request body'' 400)
      | Some userID \<Rightarrow>
      bindP (Leave (a_uuid A) saleID userID) (\<lambda>x. case x of
        Inl e \<Rightarrow> Ret (error_response A e 500)
      | Inr _ \<Rightarrow> Ret (write_header 204))))"

section \<open>handlers/orders.go\<close>

definition GetOrder :: "api \<Rightarrow> handler" where
  "GetOrder A r =
     (case uuid_Parse (a_uuid A) (rq_URLParam r ''id'') of
        None \<Rightarrow> Ret (http_Error ''Invalid order ID'' 400)
      | Some orderID \<Rightarrow>
      Call (PgQuery (SelectOrder orderID)) (\<lambda>q. case scan_order q of
        Inl e \<Rightarrow> Ret (http_Error ''Order not found'' 404)
      | Inr order \<Rightarrow> Ret (write_json A 200 (JOrder order))))"

section \<open>websocket/handler.go\<close>

text \<open>
  The handler subscribes its client, queues a snapshot of the stock as the first message and starts the pumps.  The snapshot is sent on the
  client's own channel, which the hub may have closed in the meantime: then the send panics.
\<close>

definition HandleWebSocket :: "api \<Rightarrow> handler" where
  "HandleWebSocket A r =
     (case uuid_Parse (a_uuid A) (rq_URLParam r ''id'') of
        None \<Rightarrow> Ret (http_Error ''Invalid sale ID'' 400)
      | Some saleID \<Rightarrow>
      let userIDStr = rq_Query r ''user_id'';
          userID = (if userIDStr \<noteq> [] \<and> uuid_Parse (a_uuid A) userIDStr \<noteq> None then userIDStr else []) in
      (case a_upgrade A r of
        Some failure \<Rightarrow> Ret failure
      | None \<Rightarrow>
      Call (HubCall (SubscribeCall (uuid_String (a_uuid A) saleID) userID)) (\<lambda>_.
      bindP (GetSale (a_uuid A) saleID) (\<lambda>x.
      bindP (case x of
               Inl _ \<Rightarrow> Ret ()
             | Inr (sale, stats) \<Rightarrow> Call (HubCall (SendCall (enc_snapshot A (Available stats))))
                 (\<lambda>q. if q = ChanClosed then Panic else Ret ())) (\<lambda>_.
      Call (HubCall StartPumps) (\<lambda>_. Ret (write_header 101)))))))"

section \<open>Middleware\<close>

text \<open>\<open>recover()\<close>: a panic of the handler becomes a 500 response.  Headers the handler had set before it panicked are not kept in the model.\<close>

primrec recovering :: "response prog \<Rightarrow> response prog" where
  "recovering (Ret r) = Ret r"
| "recovering Panic = Ret (http_Error ''Internal server error'' 500)"
| "recovering (Call c k) = Call c (\<lambda>r. recovering (k r))"

definition RecoveryMiddleware :: "handler \<Rightarrow> handler" where
  "RecoveryMiddleware next r = recovering (next r)"

text \<open>
  The status the wrapped writer has captured: it starts as 200 and \<open>WriteHeader\<close> sets it; an upgraded connection is written by the
  WebSocket library, past the writer.
\<close>

definition captured_status :: "response \<Rightarrow> int" where
  "captured_status resp = (if rs_Status resp = 101 then 200 else rs_Status resp)"

definition MetricsMiddleware :: "(request \<Rightarrow> string) \<Rightarrow> handler \<Rightarrow> handler" where
  "MetricsMiddleware routePattern next r =
     bindP (next r) (\<lambda>resp.
     let pattern = (if routePattern r = [] then rq_Path r else routePattern r) in
     metric_then (HTTPRequestsTotal pattern (rq_Method r) (Itoa (captured_status resp))) (Ret resp))"

definition limited_user :: "request \<Rightarrow> string" where
  "limited_user r = (if rq_Header r ''X-User-ID'' = [] then rq_RemoteAddr r else rq_Header r ''X-User-ID'')"

definition limit_decision :: "handler \<Rightarrow> request \<Rightarrow> (bool \<times> int) res \<Rightarrow> response prog" where
  "limit_decision next r x = (case x of
       Inl e \<Rightarrow> Ret (http_Error ''Rate limiter error'' 500)
     | Inr (allowed, remaining) \<Rightarrow>
       if \<not> allowed
       then metric_then (RateLimitedTotal (limited_user r)) (
            Ret (add_header ''Retry-After'' ''1'' (add_header ''X-RateLimit-Remaining'' ''0''
              (http_Error ''Rate limit exceeded'' 429))))
       else bindP (next r) (\<lambda>resp. Ret (add_header ''X-RateLimit-Remaining'' (Itoa remaining) resp)))"

definition RateLimitMiddleware :: "api \<Rightarrow> handler \<Rightarrow> handler" where
  "RateLimitMiddleware A next r =
     bindP (Allow (a_fmt A) (a_limiter A) (limited_user r)) (limit_decision next r)"

definition idempotency_cache_key :: "string \<Rightarrow> string" where
  "idempotency_cache_key iKey = ''idempotency:'' @ iKey"

definition replayed :: "idempotencyEntry \<Rightarrow> response" where
  "replayed entry = \<lparr>rs_Status = ie_Status entry,
     rs_Header = [(''Content-Type'', ''application/json''), (''X-Idempotency-Replayed'', ''true'')],
     rs_Body = ie_Body entry\<rparr>"

definition cache_response :: "api \<Rightarrow> string \<Rightarrow> response \<Rightarrow> response prog" where
  "cache_response A key resp =
     bindP (Redis_Set key (enc_entry A \<lparr>ie_Status = captured_status resp, ie_Body = rs_Body resp\<rparr>) (24 * 3600 * second)) (\<lambda>_.
     Ret resp)"

definition cached_entry :: "api \<Rightarrow> string res \<Rightarrow> idempotencyEntry option" where
  "cached_entry A cached = (case cached of Inl _ \<Rightarrow> None | Inr s \<Rightarrow> if s = [] then None else dec_entry A s)"

definition replay_or_run :: "api \<Rightarrow> handler \<Rightarrow> request \<Rightarrow> string \<Rightarrow> string res \<Rightarrow> response prog" where
  "replay_or_run A next r cacheKey cached = (case cached_entry A cached of
       Some entry \<Rightarrow> Ret (replayed entry)
     | None \<Rightarrow> bindP (next r) (cache_response A cacheKey))"

definition IdempotencyMiddleware :: "api \<Rightarrow> handler \<Rightarrow> handler" where
  "IdempotencyMiddleware A next r =
     (let iKey = rq_Header r ''Idempotency-Key''; cacheKey = idempotency_cache_key iKey in
      if rq_Method r \<noteq> ''POST'' then next r
      else if iKey = [] then next r
      else bindP (Redis_Get cacheKey) (replay_or_run A next r cacheKey))"

section \<open>healthz.go\<close>

definition HealthzHandler :: "bool \<Rightarrow> handler" where
  "HealthzHandler reconciliationComplete r =
     Ret (if \<not> reconciliationComplete
          then \<lparr>rs_Status = 503, rs_Header = [], rs_Body = ''Reconciliation in progress''\<rparr>
          else \<lparr>rs_Status = 200, rs_Header = [], rs_Body = ''OK''\<rparr>)"

section \<open>router.go\<close>

text \<open>
  The registered routes in order, with their handlers.
\<close>

definition route_table :: "api \<Rightarrow> bool \<Rightarrow> ((string \<times> string) \<times> handler) list" where
  "route_table A reconciled =
     [((''*'', ''/metrics''), (\<lambda>r. Ret (a_promhttp A r))),
      ((''GET'', ''/healthz''), HealthzHandler reconciled),
      ((''POST'', ''/api/sales''), CreateSale_handler A),
      ((''GET'', ''/api/sales/{id}''), GetSale_handler A),
      ((''PATCH'', ''/api/sales/{id}/status''), UpdateSaleStatus_handler A),
      ((''POST'', ''/api/sales/{id}/reserve''), RateLimitMiddleware A (Reserve_handler A)),
      ((''POST'', ''/api/sales/{id}/waitlist''), RateLimitMiddleware A (Join_handler A)),
      ((''GET'', ''/api/sales/{id}/waitlist/position''), GetPosition_handler A),
      ((''DELETE'', ''/api/sales/{id}/waitlist''), Leave_handler A),
      ((''POST'', ''/api/reservations/{id}/confirm''), Confirm_handler A),
      ((''DELETE'', ''/api/reservations/{id}''), Release_handler A),
      ((''GET'', ''/api/orders/{id}''), GetOrder A),
      ((''GET'', ''/ws/sales/{id}''), HandleWebSocket A)]"

definition find_route :: "((string \<times> string) \<times> handler) list \<Rightarrow> string \<Rightarrow> string \<Rightarrow> handler" where
  "find_route tbl method pattern =
     (case filter (\<lambda>e. snd (fst e) = pattern \<and> (fst (fst e) = method \<or> fst (fst e) = ''*'')) tbl of
        [] \<Rightarrow> (\<lambda>_. Ret (write_header 404)) | e # _ \<Rightarrow> snd e)"

definition chi_dispatch :: "api \<Rightarrow> ((string \<times> string) \<times> handler) list \<Rightarrow> handler" where
  "chi_dispatch A tbl r =
     (case a_chi A (map fst tbl) (rq_Method r) (rq_Path r) of
        NotFound _ \<Rightarrow> Ret (http_Error ''404 page not found'' 404)
      | MethodNotAllowed _ \<Rightarrow> Ret (write_header 405)
      | Matched pattern params \<Rightarrow> find_route tbl (rq_Method r) pattern (r\<lparr>rq_URLParam := params\<rparr>))"

definition route_pattern :: "api \<Rightarrow> ((string \<times> string) \<times> handler) list \<Rightarrow> request \<Rightarrow> string" where
  "route_pattern A tbl r =
     (case a_chi A (map fst tbl) (rq_Method r) (rq_Path r) of Matched pattern _ \<Rightarrow> pattern
      | NotFound pattern \<Rightarrow> pattern | MethodNotAllowed pattern \<Rightarrow> pattern)"

text \<open>The request identifier, tracing and logging middleware only log.\<close>

definition NewRouter :: "api \<Rightarrow> bool \<Rightarrow> handler" where
  "NewRouter A reconciled =
     (let tbl = route_table A reconciled in
      MetricsMiddleware (route_pattern A tbl) (RecoveryMiddleware (chi_dispatch A tbl)))"

text \<open>What holds of every registered handler holds of the one that is found.\<close>

lemma find_route_in:
  assumes "\<And>e. e \<in> set tbl \<Longrightarrow> Q (snd e)" "Q (\<lambda>_. Ret (write_header 404))"
  shows "Q (find_route tbl m p)"
proof (cases "filter (\<lambda>e. snd (fst e) = p \<and> (fst (fst e) = m \<or> fst (fst e) = ''*'')) tbl")
  case (Cons e es)
  then have "e \<in> set (filter (\<lambda>e. snd (fst e) = p \<and> (fst (fst e) = m \<or> fst (fst e) = ''*'')) tbl)" by simp
  then have "e \<in> set tbl" by (simp only: set_filter mem_Collect_eq)
  with Cons assms(1) [of e] show ?thesis by (simp add: find_route_def)
qed (simp add: find_route_def assms(2))

end
