(* ===== verification/No_Oversell.thy ===== *)
theory No_Oversell
  imports Stock_Ledger Expiry_Handler Http_Api Reservation_Correct Example_World
begin

text \<open>
  Every request handler and background job of the server except the reconcilers follows the
  discipline of \<open>Stock_Ledger\<close>, so no interleaving of them oversells a sale.  \<open>goroutine\<close> is
  the set of programs the server may start, with arguments chosen by the clients.
\<close>

section \<open>Rules for the discipline\<close>

lemma disc_Ret: "disc s x (Ret a) n" and disc_Panic: "disc s x Panic n"
  by simp_all

lemma disc_call:
  assumes "permitted x c" "cost s c = 0" "\<And>r. disc s x (k r) n"
  shows "disc s x (Call c k) n"
  using assms by (auto intro!: disc_mono [OF assms(3)])

lemma disc_case_sum: "(\<And>e. disc s x (f e) n) \<Longrightarrow> (\<And>v. disc s x (g v) n) \<Longrightarrow> disc s x (case_sum f g y) n"
  by (cases y) auto

lemma disc_case_option: "disc s x p n \<Longrightarrow> (\<And>v. disc s x (g v) n) \<Longrightarrow> disc s x (case_option p g y) n"
  by (cases y) auto

lemma disc_if: "(b \<Longrightarrow> disc s x p n) \<Longrightarrow> (\<not> b \<Longrightarrow> disc s x q n) \<Longrightarrow> disc s x (if b then p else q) n"
  by simp

lemma permitted_simps [simp]:
  "permitted x (Redis (GET k))" "permitted x (Redis (ZRANK k u))" "permitted x (Redis (ZCARD k))"
  "permitted x (PgExec st)" "permitted x (PgQuery q)" "permitted x (TxExec sts st)" "permitted x (TxCommit sts)"
  "permitted x TxBegin" "permitted x TxRollback" "permitted x UuidNew" "permitted x Now"
  "permitted x (Metric m)" "permitted x (Publish ch e)" "permitted x (HubCall h)"
  by (simp_all add: permitted_def)

lemma cost_simps [simp]:
  "cost s (Redis rc) = 0" "cost s (EvalSha sc keys argv) = 0" "cost s (PgQuery q) = 0"
  "cost s (TxExec sts st) = 0" "cost s TxBegin = 0" "cost s TxRollback = 0" "cost s UuidNew = 0"
  "cost s Now = 0" "cost s (Metric m) = 0" "cost s (Publish ch e) = 0" "cost s (HubCall h) = 0"
  by (simp_all add: cost_def)

lemma cost_plain [simp]:
  "cost s (PgExec (InsertReservation r p)) = 0" "cost s (PgExec (InsertAudit a)) = 0"
  "cost s (PgExec (UpdateReservationStatus t i)) = 0" "cost s (PgExec (InsertSale sl)) = 0"
  "cost s (PgExec (UpdateSaleStatus st i)) = 0"
  by (simp_all add: cost_def order_inserts_def order_of_def)

text \<open>The building blocks of the services: none needs a credit.\<close>

lemma disc_uuid_New: "(\<And>u. disc s x (k u) n) \<Longrightarrow> disc s x (uuid_New k) n"
  unfolding uuid_New_def by (rule disc_call) (auto split: resp.split)

lemma disc_time_Now: "(\<And>t. disc s x (k t) n) \<Longrightarrow> disc s x (time_Now k) n"
  unfolding time_Now_def by (rule disc_call) (auto split: resp.split)

lemma disc_metric_then: "disc s x p n \<Longrightarrow> disc s x (metric_then m p) n"
  unfolding metric_then_def by (rule disc_call) auto

lemma disc_reads: "disc s x (Redis_Get k) 0" "disc s x (Redis_Get_Int k) 0"
  "disc s x (Redis_int_reply (ZRANK k m)) 0" "disc s x (Redis_int_reply (ZCARD k)) 0"
  unfolding plain_defs by (rule disc_call; simp)+

lemma disc_writes:
  assumes "k \<noteq> availableKey x" "k \<noteq> reservedKey x"
  shows "disc s x (Redis_Set k v t) 0" "disc s x (Redis_HSet k fvs) 0" "disc s x (Redis_int_reply (ZREM k m)) 0"
  unfolding plain_defs by (rule disc_call; simp add: assms permitted_def)+

lemma disc_db:
  "disc s x (audit_Log a) 0" "disc s x (Db_Exec (InsertReservation r p)) 0"
  "disc s x (Db_Exec (UpdateReservationStatus st i)) 0" "disc s x (Db_Exec (UpdateSaleStatus nm i)) 0"
  "disc s x (LogWithConn (Some sts) a) 0"
  unfolding plain_defs by (rule disc_call; simp)+

lemma disc_publish: "disc s x (Publisher_Publish y e) 0" "disc s x (Publisher_PublishToUser u e) 0"
  unfolding publisher_defs by (rule disc_call; simp)+

lemma disc_events: "disc s x (Publisher_StockUpdate y i) 0" "disc s x (Publisher_SaleEnded y r) 0"
  "disc s x (Publisher_WaitlistPromoted u r) 0" "disc s x (Publisher_ReservationExpiring u i) 0"
  unfolding Publisher_StockUpdate_def Publisher_SaleEnded_def Publisher_WaitlistPromoted_def
    Publisher_ReservationExpiring_def by (rule disc_publish)+

lemma disc_assert: "disc s x (assert_int64 m r) 0" "disc s x (assert_string m r) 0"
  by (auto simp: assert_int64_def assert_string_def split: sum.split reply.split)

lemma permitted_script: "colon_free y \<Longrightarrow> keys = script_keys sc y \<Longrightarrow> permitted x (EvalSha sc keys argv)"
  by (auto simp: permitted_def)

lemma disc_scripts:
  assumes "colon_free y"
  shows "disc s x (Client_Reserve y) 0" "disc s x (Client_Release y) 0"
    "disc s x (Client_WaitlistJoin y u t) 0" "disc s x (Client_WaitlistPromote y) 0"
  unfolding Client_Reserve_def Client_Release_def Client_WaitlistJoin_def Client_WaitlistPromote_def
  by (rule disc_call; auto simp: script_keys_def disc_assert intro!: permitted_script [OF assms]
      split: sum.split)+

text \<open>Committing an order of the sale spends a credit.\<close>

lemma disc_TxCommit:
  assumes "order_inserts s sts \<le> n" "\<And>r. disc s x (k r) 0"
  shows "disc s x (Call (TxCommit sts) k) n"
  using assms(1) by (auto simp: cost_def intro!: disc_mono [OF assms(2)])

declare disc.simps(3) [simp del]

lemmas disc_rules = disc_Ret disc_Panic disc_case_sum disc_case_option disc_if disc_uuid_New
  disc_time_Now disc_metric_then disc_reads disc_writes disc_db disc_events disc_scripts disc_bind0

text \<open>A successful \<open>confirm.lua\<close> on the sale earns one credit.\<close>

lemma disc_Client_Confirm:
  assumes "colon_free x" "colon_free y" "\<And>e. disc s x (f (Inl e)) 0" "disc s x (f (Inr (- 1))) 0"
    "\<And>v. v \<noteq> - 1 \<Longrightarrow> disc s x (f (Inr v)) (if x = y then 1 else 0)"
  shows "disc s x (bindP (Client_Confirm y) f) 0"
proof -
  let ?c = "EvalSha Confirm_lua [reservedKey y, availableKey y, metaKey y] []"
  have "permitted x ?c" by (rule permitted_script [OF assms(2)]) (simp add: script_keys_def)
  moreover have "disc s x (bindP (assert_int64 m r) f) (gain x ?c r)" for m r
    using assms by (auto simp: assert_int64_def eval_result_def gain_def int_reply_def colon_simps
        intro: disc_mono split: resp.split reply.split) (metis disc_mono zero_le)+
  ultimately show ?thesis by (simp add: Client_Confirm_def disc.simps(3))
qed

section \<open>The handlers follow the discipline\<close>

context uuid_codec
begin

lemmas handler_rules = disc_rules disc_call codec_keys

lemma disc_confirm_abort: "disc s x (confirm_abort L sale msg e) n"
  by (auto simp: confirm_abort_def intro!: handler_rules)

lemma disc_confirm_tx:
  "disc s (uuid_String L s) (confirm_tx L i r key) (if res_SaleID r = s then 1 else 0)"
  by (auto simp: confirm_tx_def Let_def order_inserts_def order_of_def
      intro!: handler_rules disc_TxCommit disc_confirm_abort simp del: if_split)

lemma disc_Confirm: "disc s (uuid_String L s) (Confirm L i key) 0"
proof -
  have own: "disc (res_SaleID r) (uuid_String L (res_SaleID r)) (confirm_tx L i r key) (Suc 0)" for r
    using disc_confirm_tx [of "res_SaleID r" i r key] by simp
  have other: "s \<noteq> res_SaleID r \<Longrightarrow> disc s (uuid_String L s) (confirm_tx L i r key) 0" for r
    using disc_confirm_tx [of s i r key] by (auto split: if_splits)
  have "disc s (uuid_String L s) (bindP (Client_Confirm (uuid_String L (res_SaleID r)))
      (case_sum (\<lambda>e. Ret (Inl (g e))) (\<lambda>v. if v = - 1 then Ret (Inl h) else Call TxBegin
        (\<lambda>q. if q = NetErr then Ret (Inl m) else confirm_tx L i r key)))) 0" for r g h m
    by (rule disc_Client_Confirm)
       (auto intro!: string_colon_free disc_call disc_if own other)
  then show ?thesis unfolding Confirm_def
    by (intro disc_bind0) (auto simp: getOrderByIdempotencyKey_def simp del: if_split
        intro!: disc_Ret disc_call disc_if disc_case_sum)
qed

lemma disc_Reserve: "disc s (uuid_String L s) (Reserve L svc u sale item key) 0"
  by (auto simp: Reserve_def reserve_record_def reserve_announce_def checkIdempotency_def
      setIdempotency_def Let_def intro!: handler_rules)

lemma disc_Release: "disc s (uuid_String L s) (Release L svc i) 0"
  by (auto simp: Release_def Let_def intro!: handler_rules)

lemma disc_waitlist: "disc s (uuid_String L s) (Join L sale u) 0"
  "disc s (uuid_String L s) (GetPosition L sale u) 0" "disc s (uuid_String L s) (Leave L sale u) 0"
  by (auto simp: Join_def GetPosition_def Leave_def Let_def intro!: handler_rules)

lemma disc_promote: "disc s (uuid_String L s) (promoteNextUser L svc sale) 0"
  by (auto simp: promoteNextUser_def promote_record_def Let_def intro!: handler_rules)

lemma disc_expired: "disc s (uuid_String L s) (on_expired_message L svc key) 0"
  by (auto simp: on_expired_message_def handleExpiredReservation_def Let_def
      intro!: handler_rules disc_promote)

lemma disc_notify: "disc s (uuid_String L s) (notifyExpiringReservations L svc) 0"
proof -
  have "disc s (uuid_String L s) (notify_rows L rows) 0" for rows
    by (induction rows) (auto intro!: handler_rules)
  then show ?thesis
    by (auto simp: notifyExpiringReservations_def intro!: handler_rules split: resp.split rows.split)
qed

lemma disc_ticker: "disc s (uuid_String L s) (runExpiryWarningTicker L svc ticks) 0"
  by (induction ticks) (auto intro!: disc_bind0 disc_notify split: wakeup.split)

lemma disc_inventory: "disc s (uuid_String L s) (GetSale L sale) 0"
  "disc s (uuid_String L s) (UpdateSale L sale st) 0"
  by (auto simp: GetSale_def UpdateSale_def intro!: handler_rules)

lemma disc_CreateSale: "disc s (uuid_String L s) (CreateSale L input) 0"
proof -
  have go: "disc s (uuid_String L s) (bindP (Db_Exec (InsertSale sl)) (case_sum (\<lambda>e. Ret (f e)) (\<lambda>_. p))) 0"
    if "sale_ID sl \<noteq> s \<Longrightarrow> disc s (uuid_String L s) p 0" for sl p and f :: "goerr \<Rightarrow> 'b"
    using that by (auto simp: Db_Exec_def disc.simps(3) pg_status_def feasible_def split: resp.split)
  show ?thesis
    unfolding CreateSale_def Let_def
    by (intro disc_uuid_New disc_time_Now go) (auto simp: codec_keys intro!: handler_rules)
qed

end

section \<open>The HTTP layer follows the discipline\<close>

lemma disc_recovering: "disc s x p n \<Longrightarrow> disc s x (recovering p) n"
proof (induction p arbitrary: n)
  case (Call c k)
  then show ?case unfolding recovering.simps disc.simps by blast
qed simp_all

lemma disc_Allow: "disc s x (Allow fmt l u) 0"
proof -
  have "permitted x (EvalSha Token_bucket_lua [ratelimitKey u] argv)" for argv
    by (auto simp: permitted_def script_keys_def)
  then show ?thesis unfolding Allow_def Let_def
    by (intro disc_time_Now disc_bind0 disc_call) (auto intro!: disc_rules disc_assert)
qed

lemma disc_RateLimit:
  assumes "\<And>r. disc s x (next r) 0"
  shows "disc s x (RateLimitMiddleware A next r) 0"
  unfolding RateLimitMiddleware_def limit_decision_def
  by (intro disc_bind0 disc_Allow disc_case_sum) (auto split: prod.split intro!: disc_rules assms)

lemma disc_find_route:
  "\<forall>e \<in> set tbl. \<forall>r. disc s x (snd e r) 0 \<Longrightarrow> disc s x (find_route tbl m p r) 0"
  by (rule find_route_in [where Q = "\<lambda>h. disc s x (h r) 0"]) auto

context uuid_codec
begin

lemma disc_handlers:
  assumes "a_uuid A = L" "e \<in> set (route_table A rec)"
  shows "disc s (uuid_String L s) (snd e r) 0"
proof -
  have res: "disc s (uuid_String L s) (Reserve_handler A r) 0" "disc s (uuid_String L s) (Join_handler A r) 0" for r
    by (auto simp: Reserve_handler_def Join_handler_def assms(1) intro!: handler_rules disc_Reserve disc_waitlist)
  have "disc s (uuid_String L s) (HandleWebSocket A r) 0"
    by (auto simp: HandleWebSocket_def assms(1) Let_def intro!: handler_rules disc_inventory)
  with assms(2) res show ?thesis
    by (auto simp: route_table_def HealthzHandler_def Confirm_handler_def Release_handler_def CreateSale_handler_def
        GetSale_handler_def UpdateSaleStatus_handler_def GetPosition_handler_def Leave_handler_def GetOrder_def assms(1)
        intro!: handler_rules disc_RateLimit disc_Confirm disc_Release disc_CreateSale disc_inventory disc_waitlist)
qed

lemma disc_NewRouter: "a_uuid A = L \<Longrightarrow> disc s (uuid_String L s) (NewRouter A rec r) 0"
  unfolding NewRouter_def MetricsMiddleware_def RecoveryMiddleware_def chi_dispatch_def Let_def
  by (intro disc_bind0 disc_metric_then disc_recovering disc_Ret)
     (auto split: chi_match.split intro!: disc_find_route, metis disc_handlers snd_conv)

end

section \<open>What the server runs\<close>

inductive_set goroutine :: "uuid_lib \<Rightarrow> unit prog set" for L where
  "void (Reserve L svc userID saleID itemID key) \<in> goroutine L"
| "void (Confirm L reservationID key) \<in> goroutine L"
| "void (Release L svc reservationID) \<in> goroutine L"
| "void (Join L saleID userID) \<in> goroutine L"
| "void (GetPosition L saleID userID) \<in> goroutine L"
| "void (Leave L saleID userID) \<in> goroutine L"
| "void (CreateSaleAndReturn L input) \<in> goroutine L"
| "void (GetSale L saleID) \<in> goroutine L"
| "void (UpdateSale L saleID status) \<in> goroutine L"
| "on_expired_message L svc payload \<in> goroutine L"
| "notifyExpiringReservations L svc \<in> goroutine L"
| "runExpiryWarningTicker L svc ticks \<in> goroutine L"
| "a_uuid A = L \<Longrightarrow> void (NewRouter A reconciled r) \<in> goroutine L"

context uuid_codec
begin

lemma disc_goroutine: "p \<in> goroutine L \<Longrightarrow> disc s (uuid_String L s) p 0"
  by (induction rule: goroutine.induct)
     (simp_all add: disc_void disc_Reserve disc_Confirm disc_Release disc_waitlist disc_CreateSale
       CreateSaleAndReturn_def disc_inventory disc_expired disc_notify disc_ticker disc_NewRouter)

end

text \<open>The subscription loop starts goroutines of this kind only.\<close>

lemma subscription_goroutine: "p \<in> set (subscription_loop L svc xs) \<Longrightarrow> p \<in> goroutine L"
  using subscription_messages goroutine.intros(10) by metis

section \<open>No overselling\<close>

text \<open>
  C1: No overselling under concurrency.  Start the server on a sale whose counters and orders add up to at most its
  stock \<open>T\<close>, let clients send any HTTP requests and the server start any handlers with any arguments, let their calls interleave
  in any order, let any request or reply be lost and any TTL key expire: at every moment
  the sale has at most \<open>T\<close> orders, its available counter is never negative, and available plus reserved
  plus orders never exceeds \<open>T\<close>.  (The reconcilers are not among these goroutines.)
\<close>

theorem no_oversell:
  assumes "uuid_codec L" "expiring_services S view tables expire"
    and "s \<in> sale_ID ` set (t_sales (tables (pg_st w0)))"
    and "stock_at (view (redis_st w0)) (availableKey (uuid_String L s)) (reservedKey (uuid_String L s)) (a, b)"
    and "0 \<le> a" "0 \<le> b" "a + b + int (orders s (tables (pg_st w0))) \<le> T" "T < 2 ^ 63 - 1"
    and "reachable S expire (goroutine L) w0 (w, ts)"
  shows "int (orders s (tables (pg_st w))) \<le> T \<and>
    (\<exists>a' b'. stock_at (view (redis_st w)) (availableKey (uuid_String L s)) (reservedKey (uuid_String L s)) (a', b') \<and>
       0 \<le> a' \<and> 0 \<le> a' + b' \<and> a' + b' + int (orders s (tables (pg_st w))) \<le> T)"
proof -
  have "ledger s (uuid_String L s) T (view (redis_st w0)) (tables (pg_st w0)) 0"
    unfolding ledger_def using assms(3-7) by (intro conjI exI [of _ a] exI [of _ b]) auto
  then have "ledger s (uuid_String L s) T (view (redis_st w)) (tables (pg_st w)) 0"
    by (rule expiring_services.ledger_reachable [OF assms(2,9)])
       (use assms(8) uuid_codec.disc_goroutine [OF assms(1)] uuid_codec.string_colon_free [OF assms(1)] in auto)
  then show ?thesis using ledger_no_oversell [of s "uuid_String L s" T "view (redis_st w)" "tables (pg_st w)" 0]
    by (auto simp: ledger_def)
qed

lemma demo_reserve:
  "\<exists>w'. run mem_services (void (Reserve canonical_uuid svc 1 7 5 [])) demo_orc demo_world = (Returned (), w')"
proof -
  define r where "r = new_reservation svc 1 7 5 (shift demo_orc)"
  have "reservation_ok demo_db r"
    by (simp add: r_def new_reservation_def reservation_ok_def demo_db_def demo_sale_def valid_confirmation_def)
  then show ?thesis
    using mem_shop.Reserve_run [of demo_orc demo_world 7 2 0 "[]" r svc 1 5] demo_has_stock [of 2 0]
    by (auto simp: run_void demo_in64 r_def)
qed

theorem no_oversell_witness:
  "\<exists>w. reachable mem_services mem_expire (goroutine canonical_uuid) demo_world (w, [Ret ()]) \<and>
     int (orders 7 (pg_st w)) \<le> 2"
proof -
  obtain w where "run mem_services (void (Reserve canonical_uuid \<lparr>reservationTTL = 600, publisher = True\<rparr> 1 7 5 []))
      demo_orc demo_world = (Returned (), w)" using demo_reserve by blast
  then have r: "reachable mem_services mem_expire (goroutine canonical_uuid) demo_world (w, [Ret ()])"
    using run_reachable [OF _ goroutine.intros(1) reachable.start] by fastforce
  have "7 \<in> sale_ID ` set (t_sales (pg_st demo_world))" by (simp add: demo_db_def demo_sale_def)
  moreover have "orders 7 demo_db = 0" by (simp add: orders_def demo_db_def)
  ultimately show ?thesis
    using r no_oversell [OF canonical.uuid_codec_axioms mem_expiring_ok, of 7 demo_world 2 0 2 w "[Ret ()]"]
      demo_has_stock [of 2 0] by (auto simp: has_stock_def demo_in64)
qed

end
