(* ===== verification/Database_Invariants.thy ===== *)
theory Database_Invariants
  imports No_Oversell Reconciler
begin

text \<open>
  What every interleaving keeps of the tables: the schema's invariant, closed reservations
  staying closed, orders and audit entries never disappearing, and every order being backed by a confirmed
  reservation.  \<open>all_calls P\<close> says that every call a program can ever make satisfies \<open>P\<close>.
\<close>

section \<open>The calls of a program\<close>

primrec all_calls :: "(cmd \<Rightarrow> bool) \<Rightarrow> 'a prog \<Rightarrow> bool" where
  "all_calls P (Ret a) = True"
| "all_calls P Panic = True"
| "all_calls P (Call c k) = (P c \<and> (\<forall>r. all_calls P (k r)))"

lemma all_calls_bind: "all_calls P p \<Longrightarrow> (\<And>a. all_calls P (f a)) \<Longrightarrow> all_calls P (bindP p f)"
  by (induction p) auto

lemma all_calls_mono: "all_calls P p \<Longrightarrow> (\<And>c. P c \<Longrightarrow> Q c) \<Longrightarrow> all_calls Q p"
  by (induction p) auto

lemma all_calls_any: "all_calls (\<lambda>_. True) p"
  by (induction p) auto

section \<open>Writes\<close>

fun writes :: "cmd \<Rightarrow> stmt list" where
  "writes (PgExec st) = [st]"
| "writes (TxCommit sts) = sts"
| "writes _ = []"

text \<open>A confirmation writes the row and the order together; nothing else writes an order.\<close>

definition confirms :: "cmd \<Rightarrow> bool" where
  "confirms c \<longleftrightarrow> (\<forall>x. InsertOrder x \<notin> set (writes c)) \<or>
     (\<exists>t x a. writes c = [UpdateReservationConfirmed Confirmed t (ord_ReservationID x), InsertOrder x, InsertAudit a])"

text \<open>No statement sets a reservation back to reserved.\<close>

definition reopens :: "stmt \<Rightarrow> bool" where
  "reopens st \<longleftrightarrow> (\<exists>i. st = UpdateReservationStatus Reserved i) \<or> (\<exists>t i. st = UpdateReservationConfirmed Reserved t i)"

definition lawful :: "cmd \<Rightarrow> bool" where
  "lawful c \<longleftrightarrow> confirms c \<and> (\<forall>st \<in> set (writes c). \<not> reopens st)"

text \<open>Requests are counted by the router only.\<close>

definition http_metric :: "metric \<Rightarrow> bool" where
  "http_metric m = (case m of HTTPRequestsTotal _ _ _ \<Rightarrow> True | _ \<Rightarrow> False)"

lemma http_metric_simps [simp]: "http_metric (HTTPRequestsTotal a b c)" "\<not> http_metric (ReservationTotal a b)"
  "\<not> http_metric (StockLevel a i)" "\<not> http_metric (ReconciliationCorrections i)" "\<not> http_metric (RateLimitedTotal a)"
  by (simp_all add: http_metric_def)

definition orderly :: "cmd \<Rightarrow> bool" where
  "orderly c \<longleftrightarrow> lawful c \<and> (\<forall>m. c = Metric m \<longrightarrow> \<not> http_metric m)"

definition confirmed_ids :: "db \<Rightarrow> uuid set" where
  "confirmed_ids d = {res_ID r | r p. (r, p) \<in> set (t_reservations d) \<and> res_Status r = Confirmed}"

definition orders_backed :: "db \<Rightarrow> bool" where
  "orders_backed d \<longleftrightarrow> (\<forall>x \<in> set (t_orders d). ord_ReservationID x \<in> confirmed_ids d)"

definition grows :: "db \<Rightarrow> db \<Rightarrow> bool" where
  "grows d d' \<longleftrightarrow> (\<exists>xs es. t_orders d' = t_orders d @ xs \<and> t_audit_log d' = t_audit_log d @ es) \<and>
     confirmed_ids d \<subseteq> confirmed_ids d'"

lemma grows_refl: "grows d d"
  by (simp add: grows_def)

lemma grows_trans: "grows d d' \<Longrightarrow> grows d' d'' \<Longrightarrow> grows d d''"
  by (auto simp: grows_def)

lemma confirmed_idsI: "(r, p) \<in> set (t_reservations d) \<Longrightarrow> res_Status r = Confirmed \<Longrightarrow> res_ID r \<in> confirmed_ids d"
  unfolding confirmed_ids_def by blast

lemma confirmed_ids_append [simp]: "confirmed_ids d \<subseteq> confirmed_ids (d\<lparr>t_reservations := t_reservations d @ rows\<rparr>)"
  unfolding confirmed_ids_def by auto

lemma confirmed_ids_simps [simp]:
  "confirmed_ids (d\<lparr>t_orders := xs\<rparr>) = confirmed_ids d" "confirmed_ids (d\<lparr>t_audit_log := es\<rparr>) = confirmed_ids d"
  "confirmed_ids (d\<lparr>t_sales := ss\<rparr>) = confirmed_ids d"
  by (simp_all add: confirmed_ids_def)

text \<open>A confirmed row stays confirmed: any other status would violate the schema's check.\<close>

lemma update_confirmed:
  assumes u: "update_reservation f i d = Some d'" and c: "confirmations_ok d" and k: "keeps_key f"
    and keep: "\<And>r. res_ConfirmedAt r \<noteq> None \<Longrightarrow> res_ConfirmedAt (f r) \<noteq> None"
  shows "confirmed_ids d \<subseteq> confirmed_ids d'"
proof
  fix j assume "j \<in> confirmed_ids d"
  then obtain r p where r: "(r, p) \<in> set (t_reservations d)" "res_Status r = Confirmed" "j = res_ID r"
    by (auto simp: confirmed_ids_def)
  let ?r = "if res_ID r = i then f r else r"
  have "res_ConfirmedAt r \<noteq> None"
    using c r(1,2) by (auto simp: confirmations_ok_def list_all_iff valid_confirmation_def)
  then have "res_Status ?r = Confirmed"
    using update_reservation_Some(2) [OF u r(1)] keep r(2) by (auto simp: valid_confirmation_def)
  moreover have "(?r, p) \<in> set (t_reservations d')" "res_ID ?r = res_ID r"
    using r(1) k by (force simp: update_reservation_Some(1) [OF u] update_rows_def, auto simp: keeps_key_def row_key_def)
  ultimately show "j \<in> confirmed_ids d'" using r(3) confirmed_idsI by metis
qed

lemma apply_stmt_grows:
  assumes "apply_stmt st d = Some d'" "db_ok d"
  shows "grows d d'"
proof (cases st)
  case (UpdateReservationStatus t i)
  with assms update_confirmed [of "\<lambda>r. r\<lparr>res_Status := t\<rparr>" i d d']
  show ?thesis by (auto simp: grows_def db_ok_def update_reservation_def split: if_splits)
next
  case (UpdateReservationConfirmed t n i)
  with assms update_confirmed [of "\<lambda>r. r\<lparr>res_Status := t, res_ConfirmedAt := Some (pg_time n)\<rparr>" i d d']
  show ?thesis by (auto simp: grows_def db_ok_def update_reservation_def split: if_splits)
next
  case (InsertReservation r p)
  with assms have "d' = d\<lparr>t_reservations := t_reservations d @ [(stored_reservation r, p)]\<rparr>" by (auto split: if_splits)
  then show ?thesis by (simp add: grows_def)
qed (use assms in \<open>auto simp: grows_def split: if_splits\<close>)

lemma apply_stmts_grows: "apply_stmts sts d = Some d' \<Longrightarrow> db_ok d \<Longrightarrow> grows d d'"
proof (induction sts arbitrary: d)
  case (Cons st sts)
  then obtain d1 where "apply_stmt st d = Some d1" "apply_stmts sts d1 = Some d'" by (auto split: option.splits)
  with Cons show ?case using apply_stmt_grows apply_stmt_ok grows_trans by metis
qed (simp add: grows_refl)

lemma no_insert_orders: "apply_stmts sts d = Some d' \<Longrightarrow> \<forall>x. InsertOrder x \<notin> set sts \<Longrightarrow> t_orders d' = t_orders d"
proof (induction sts arbitrary: d)
  case (Cons st sts)
  then obtain d1 where d1: "apply_stmt st d = Some d1" "apply_stmts sts d1 = Some d'" by (auto split: option.splits)
  have "t_orders d1 = t_orders d"
    using d1(1) Cons.prems(2) by (cases st) (auto simp: update_reservation_def split: if_splits)
  with Cons d1(2) show ?case by auto
qed simp

lemma writes_backed:
  assumes "apply_stmts (writes c) d = Some d'" "confirms c" "db_ok d" "orders_backed d"
  shows "orders_backed d'"
proof -
  have g: "confirmed_ids d \<subseteq> confirmed_ids d'" using apply_stmts_grows [OF assms(1,3)] by (simp add: grows_def)
  consider "\<forall>x. InsertOrder x \<notin> set (writes c)" | t x a where
    "writes c = [UpdateReservationConfirmed Confirmed t (ord_ReservationID x), InsertOrder x, InsertAudit a]"
    using assms(2) by (auto simp: confirms_def)
  then show ?thesis
  proof cases
    case 1
    with no_insert_orders [OF assms(1)] g assms(4) show ?thesis by (auto simp: orders_backed_def)
  next
    case 2
    let ?rows = "update_rows (\<lambda>r. r\<lparr>res_Status := Confirmed, res_ConfirmedAt := Some (pg_time t)\<rparr>) (ord_ReservationID x) (t_reservations d)"
    from assms(1) have d': "t_orders d' = t_orders d @ [stored_order x]" "t_reservations d' = ?rows" and ok: "order_ok d x"
      by (auto simp: 2 split: if_splits)
    obtain r p where r: "(r, p) \<in> set (t_reservations d)" "res_ID r = ord_ReservationID x"
      using ok by (force simp: order_ok_def)
    then have "(r\<lparr>res_Status := Confirmed, res_ConfirmedAt := Some (pg_time t)\<rparr>, p) \<in> set ?rows"
      by (force simp: update_rows_def)
    then have "ord_ReservationID x \<in> confirmed_ids d'" using r(2) d'(2) confirmed_idsI [of _ p d'] by fastforce
    then show ?thesis using assms(4) g d'(1) by (auto simp: orders_backed_def)
  qed
qed

section \<open>Rows over time\<close>

text \<open>How one row may change: its identity and times stay, and once it is closed it does not reopen.\<close>

definition row_evolves :: "reservation_row \<Rightarrow> reservation_row \<Rightarrow> bool" where
  "row_evolves x y \<longleftrightarrow> row_key y = row_key x \<and> snd y = snd x \<and>
     res_ReservedAt (fst y) = res_ReservedAt (fst x) \<and> res_ExpiresAt (fst y) = res_ExpiresAt (fst x) \<and>
     (res_Status (fst x) \<noteq> Reserved \<longrightarrow> res_Status (fst y) \<noteq> Reserved)"

definition rows_evolve :: "db \<Rightarrow> db \<Rightarrow> bool" where
  "rows_evolve d d' \<longleftrightarrow> (\<exists>old new. t_reservations d' = old @ new \<and> list_all2 row_evolves (t_reservations d) old)"

lemma row_evolves_refl: "row_evolves x x"
  by (simp add: row_evolves_def)

lemma rows_evolve_refl: "rows_evolve d d"
  unfolding rows_evolve_def by (intro exI [of _ "t_reservations d"] exI [of _ "[]"]) (simp add: list_all2_refl row_evolves_refl)

lemma rows_evolve_trans:
  assumes "rows_evolve d d'" "rows_evolve d' d''"
  shows "rows_evolve d d''"
proof -
  obtain old new where 1: "t_reservations d' = old @ new" "list_all2 row_evolves (t_reservations d) old"
    using assms(1) by (auto simp: rows_evolve_def)
  obtain old' new' where 2: "t_reservations d'' = old' @ new'" "list_all2 row_evolves (old @ new) old'"
    using assms(2) 1(1) by (auto simp: rows_evolve_def)
  then obtain us vs where 3: "old' = us @ vs" "list_all2 row_evolves old us" by (auto simp: list_all2_append1)
  have "list_all2 row_evolves (t_reservations d) us"
    by (rule list_all2_trans [OF _ 1(2) 3(2)]) (auto simp: row_evolves_def)
  then show ?thesis unfolding rows_evolve_def 2(1) 3(1) by (intro exI [of _ us] exI [of _ "vs @ new'"]) simp
qed

lemma update_rows_evolve:
  assumes "\<And>x. row_evolves x (f (fst x), snd x)" "t_reservations d' = update_rows f i (t_reservations d)"
  shows "rows_evolve d d'"
proof -
  have "list_all2 row_evolves (t_reservations d) (update_rows f i (t_reservations d))"
    unfolding update_rows_def list_all2_map2
    by (rule list_all2_refl) (use assms(1) row_evolves_refl in \<open>auto split: prod.split\<close>)
  then show ?thesis unfolding rows_evolve_def assms(2) by (intro exI conjI) simp_all
qed

lemma apply_stmt_evolves:
  assumes "apply_stmt st d = Some d'" "\<not> reopens st"
  shows "rows_evolve d d'"
proof (cases st)
  case (UpdateReservationStatus t i)
  with assms have "t_reservations d' = update_rows (\<lambda>r. r\<lparr>res_Status := t\<rparr>) i (t_reservations d)" "t \<noteq> Reserved"
    using update_reservation_Some(1) by (fastforce simp: reopens_def)+
  then show ?thesis by (intro update_rows_evolve) (auto simp: row_evolves_def row_key_def)
next
  case (UpdateReservationConfirmed t n i)
  with assms have "t_reservations d' = update_rows (\<lambda>r. r\<lparr>res_Status := t, res_ConfirmedAt := Some (pg_time n)\<rparr>) i (t_reservations d)"
    "t \<noteq> Reserved"
    using update_reservation_Some(1) by (fastforce simp: reopens_def)+
  then show ?thesis by (intro update_rows_evolve) (auto simp: row_evolves_def row_key_def)
next
  case (InsertReservation r p)
  with assms have "t_reservations d' = t_reservations d @ [(stored_reservation r, p)]" by (auto split: if_splits)
  then show ?thesis unfolding rows_evolve_def by (auto intro: list_all2_refl row_evolves_refl)
qed (use assms rows_evolve_refl in \<open>auto simp: rows_evolve_def split: if_splits\<close>)

lemma apply_stmts_evolve:
  "apply_stmts sts d = Some d' \<Longrightarrow> \<forall>st \<in> set sts. \<not> reopens st \<Longrightarrow> rows_evolve d d'"
proof (induction sts arbitrary: d)
  case (Cons st sts)
  then obtain d1 where "apply_stmt st d = Some d1" "apply_stmts sts d1 = Some d'" by (auto split: option.splits)
  with Cons show ?case using apply_stmt_evolves rows_evolve_trans by (metis list.set_intros)
qed (simp add: rows_evolve_refl)

section \<open>Every interleaving\<close>

context services
begin

text \<open>A call changes the tables by its statements, all of them or none.\<close>

lemma exec_tables_step:
  assumes "exec S ch c w = (r, w')"
  shows "tb w' = tb w \<or> apply_stmts (writes c) (tb w) = Some (tb w')"
proof (cases c)
  case (PgExec st)
  then show ?thesis using assms exec_tables [of "[st]" "pg_st w"]
    by (auto simp: exec_def serve_def split: delivery.splits hub_call.splits if_splits prod.splits option.splits)
next
  case (TxCommit sts)
  then show ?thesis using assms exec_tables [of sts "pg_st w"]
    by (auto simp: exec_def serve_def split: delivery.splits hub_call.splits if_splits prod.splits option.splits)
qed (use assms in \<open>auto simp: exec_def serve_def split: delivery.splits hub_call.splits if_splits prod.splits\<close>)

text \<open>Invariants of the tables under any interleaving of programs that only make calls in \<open>P\<close>.\<close>

lemma tables_invariant:
  assumes "reachable S ex H w0 cf" "\<And>p. p \<in> H \<Longrightarrow> all_calls P p" "I (tb w0)"
    and "\<And>c d d'. P c \<Longrightarrow> I d \<Longrightarrow> apply_stmts (writes c) d = Some d' \<Longrightarrow> I d'"
  shows "I (tb (fst cf)) \<and> list_all (all_calls P) (snd cf)"
  using assms(1)
proof induction
  case start
  then show ?case using assms(3) by simp
next
  case (step cf cf')
  from step(2) show ?case
  proof cases
    case (act i ts c k ch w r w')
    have "all_calls P (Call c k)"
      using step.IH act(1,3,4) by (metis list_all_length snd_conv)
    then have c: "P c" "\<And>r. all_calls P (k r)" by auto
    have "I (tb w')"
      using exec_tables_step [OF act(5)] assms(4) [OF c(1)] step.IH act(1) by auto
    moreover have "list_all (all_calls P) (ts[i := k r])"
      using step.IH c(2) act(1) by (auto simp: list_all_iff dest!: set_update_subset_insert [THEN subsetD])
    ultimately show ?thesis using act(2) by simp
  qed (use step.IH assms(2) in \<open>auto\<close>)
qed

lemma db_ok_reachable:
  assumes "reachable S ex H w0 (w, ts)" "db_ok (tb w0)"
  shows "db_ok (tb w)"
  using tables_invariant [where I = db_ok, OF assms(1) all_calls_any assms(2)] apply_stmts_ok by auto

lemma run_db_ok: "run S p orc w = (res, w') \<Longrightarrow> db_ok (tb w) \<Longrightarrow> db_ok (tb w')"
proof (induction p arbitrary: orc w)
  case (Call c k)
  obtain r w1 where e: "exec S (orc 0) c w = (r, w1)" by fastforce
  then have "db_ok (tb w1)" using exec_tables_step [OF e] apply_stmts_ok Call.prems(2) by metis
  with Call.IH [OF rangeI] e Call.prems(1) show ?case by (auto simp: run.simps(3))
qed auto

lemma grows_reachable:
  assumes "reachable S ex H w0 (w, ts)" "db_ok (tb w0)"
  shows "grows (tb w0) (tb w)"
  using tables_invariant [where I = "\<lambda>d. db_ok d \<and> grows (tb w0) d", OF assms(1) all_calls_any]
    apply_stmts_ok apply_stmts_grows grows_trans grows_refl assms(2) by (metis fst_conv)

lemma rows_evolve_reachable:
  assumes "reachable S ex H w0 (w, ts)" "\<And>p. p \<in> H \<Longrightarrow> all_calls lawful p"
  shows "rows_evolve (tb w0) (tb w)"
proof -
  have "rows_evolve (tb w0) d'" if "lawful c" "rows_evolve (tb w0) d" "apply_stmts (writes c) d = Some d'" for c d d'
    using that apply_stmts_evolve rows_evolve_trans unfolding lawful_def by blast
  from tables_invariant [where I = "rows_evolve (tb w0)", OF assms rows_evolve_refl this] show ?thesis by simp
qed

lemma orders_backed_reachable:
  assumes "reachable S ex H w0 (w, ts)" "\<And>p. p \<in> H \<Longrightarrow> all_calls lawful p" "db_ok (tb w0)" "orders_backed (tb w0)"
  shows "orders_backed (tb w)"
  using tables_invariant [where I = "\<lambda>d. db_ok d \<and> orders_backed d", OF assms(1,2)]
    apply_stmts_ok writes_backed assms(3,4) unfolding lawful_def by (metis fst_conv)

end

section \<open>The handlers write orders only with a confirmation\<close>

lemma calls_case_sum: "(\<And>e. all_calls P (f e)) \<Longrightarrow> (\<And>v. all_calls P (g v)) \<Longrightarrow> all_calls P (case_sum f g y)"
  by (cases y) auto

lemma calls_case_option: "all_calls P p \<Longrightarrow> (\<And>v. all_calls P (g v)) \<Longrightarrow> all_calls P (case_option p g y)"
  by (cases y) auto

lemma calls_env: "P UuidNew \<Longrightarrow> (\<And>u. all_calls P (k u)) \<Longrightarrow> all_calls P (uuid_New k)"
  "P Now \<Longrightarrow> (\<And>t. all_calls P (g t)) \<Longrightarrow> all_calls P (time_Now g)"
  by (auto simp: uuid_New_def time_Now_def split: resp.split)

lemma calls_assert: "all_calls P (assert_int64 m r)" "all_calls P (assert_string m r)"
  by (auto simp: assert_int64_def assert_string_def split: sum.split reply.split)

lemmas calls_rules = all_calls_bind calls_case_sum calls_case_option calls_env calls_assert

lemma orderly_simps [simp]:
  "orderly (Redis rc)" "orderly (EvalSha sc keys argv)" "orderly (PgQuery q)" "orderly (TxExec sts st)"
  "orderly TxBegin" "orderly TxRollback" "orderly UuidNew" "orderly Now" "orderly (Metric m) \<longleftrightarrow> \<not> http_metric m"
  "orderly (Publish ch e)" "orderly (HubCall h)" "orderly (PgExec st) \<longleftrightarrow> (\<forall>x. st \<noteq> InsertOrder x) \<and> \<not> reopens st"
  "ord_ReservationID x = i \<Longrightarrow>
     orderly (TxCommit [UpdateReservationConfirmed Confirmed t i, InsertOrder x, InsertAudit a])"
  by (auto simp: orderly_def lawful_def confirms_def reopens_def)

lemma reopens_simps [simp]: "\<not> reopens (InsertSale sl)" "\<not> reopens (UpdateSaleStatus st i)" "\<not> reopens (InsertReservation r p)"
  "reopens (UpdateReservationStatus t i) \<longleftrightarrow> t = Reserved" "\<not> reopens (InsertAudit a)"
  by (auto simp: reopens_def)

lemma orderly_lawful: "all_calls orderly p \<Longrightarrow> all_calls lawful p"
  by (erule all_calls_mono) (simp add: orderly_def)

lemmas building_blocks = Client_Reserve_def Client_Release_def Client_Confirm_def Client_WaitlistJoin_def
  Client_WaitlistPromote_def Redis_Get_def Redis_Get_Int_def Redis_Set_def Redis_HSet_def Redis_int_reply_def
  Db_Exec_def audit_Log_def LogWithConn_def metric_then_def publisher_defs Let_def

lemma orderly_Confirm: "all_calls orderly (Confirm L i key)"
  by (auto simp: Confirm_def confirm_tx_def confirm_abort_def getOrderByIdempotencyKey_def building_blocks
      intro!: calls_rules)

lemma orderly_Reserve: "all_calls orderly (Reserve L svc u sale item key)"
  by (auto simp: Reserve_def reserve_record_def reserve_announce_def checkIdempotency_def setIdempotency_def
      building_blocks intro!: calls_rules)

lemma orderly_Release: "all_calls orderly (Release L svc i)"
  by (auto simp: Release_def building_blocks intro!: calls_rules)

lemma orderly_waitlist: "all_calls orderly (Join L s u)" "all_calls orderly (GetPosition L s u)"
  "all_calls orderly (Leave L s u)"
  by (auto simp: Join_def GetPosition_def Leave_def building_blocks intro!: calls_rules)

lemma orderly_inventory: "all_calls orderly (CreateSaleAndReturn L input)" "all_calls orderly (GetSale L s)"
  "all_calls orderly (UpdateSale L s st)" "all_calls orderly (CreateSale L sale)"
  by (auto simp: CreateSaleAndReturn_def CreateSale_def GetSale_def UpdateSale_def building_blocks intro!: calls_rules)

lemma orderly_expiry: "all_calls orderly (on_expired_message L h m)"
  by (auto simp: on_expired_message_def handleExpiredReservation_def promoteNextUser_def promote_record_def
      building_blocks intro!: calls_rules)

lemma orderly_notify: "all_calls orderly (notifyExpiringReservations L h)"
proof -
  have "all_calls orderly (notify_rows L rs)" for rs
    by (induction rs) (auto simp: building_blocks intro!: calls_rules)
  then show ?thesis by (auto simp: notifyExpiringReservations_def split: resp.split rows.split)
qed

lemma orderly_ticker: "all_calls orderly (runExpiryWarningTicker L h ticks)"
  by (induction ticks) (auto intro!: all_calls_bind orderly_notify split: wakeup.split)

lemma orderly_reconcilers: "all_calls orderly (reconcileAllSales L)" "all_calls orderly (ReconcileOnStartup L)"
proof -
  have one: "all_calls orderly (reconcileSingleSale L s T)" "all_calls orderly (reconcileSale L s T)" for s T
    by (auto simp: reconcileSingleSale_def reconcileSale_def read_drift_def correct_drift_def building_blocks
        intro!: calls_rules)
  have "all_calls orderly (reconcile_loop L rs n)" "all_calls orderly (startup_loop L rs m n)" for rs m n
    by (induction rs arbitrary: m n) (auto simp: building_blocks intro!: calls_rules one)
  then show "all_calls orderly (reconcileAllSales L)" "all_calls orderly (ReconcileOnStartup L)"
    by (auto simp: reconcileAllSales_def reconcile_rows_def ReconcileOnStartup_def building_blocks intro!: calls_rules
        split: resp.split rows.split)
qed

lemma calls_recovering: "all_calls P p \<Longrightarrow> all_calls P (recovering p)"
  by (induction p) simp_all

lemma calls_find_route: "\<forall>e \<in> set tbl. \<forall>r. all_calls P (snd e r) \<Longrightarrow> all_calls P (find_route tbl m p r)"
  by (rule find_route_in [where Q = "\<lambda>h. all_calls P (h r)"]) auto

lemma orderly_handlers:
  assumes "e \<in> set (route_table A rec)"
  shows "all_calls orderly (snd e r)"
proof -
  have h: "all_calls orderly (Reserve_handler A r)" "all_calls orderly (Join_handler A r)"
    "all_calls orderly (HandleWebSocket A r)" for r
    by (auto simp: Reserve_handler_def Join_handler_def HandleWebSocket_def Let_def intro!: calls_rules
        orderly_Reserve orderly_waitlist orderly_inventory)
  have "all_calls orderly (Allow fmt l u)" for fmt l u
    by (auto simp: Allow_def Let_def intro!: calls_rules)
  then have lim: "all_calls orderly (RateLimitMiddleware A h r)" if "\<And>r. all_calls orderly (h r)" for h
    using that by (auto simp: RateLimitMiddleware_def limit_decision_def building_blocks intro!: calls_rules)
  from assms show ?thesis
    by (auto simp: route_table_def HealthzHandler_def Confirm_handler_def Release_handler_def CreateSale_handler_def
        GetSale_handler_def UpdateSaleStatus_handler_def GetPosition_handler_def Leave_handler_def GetOrder_def
        intro!: calls_rules lim h orderly_Confirm orderly_Release orderly_inventory orderly_waitlist)
qed

lemma lawful_metric: "lawful (Metric m)"
  by (simp add: lawful_def confirms_def)

lemma lawful_NewRouter: "all_calls lawful (NewRouter A rec r)"
  unfolding NewRouter_def MetricsMiddleware_def RecoveryMiddleware_def chi_dispatch_def Let_def metric_then_def
  by (auto simp: lawful_metric intro!: all_calls_bind calls_recovering calls_find_route orderly_lawful [OF orderly_handlers] split: chi_match.split)

text \<open>All the programs of the server process, the reconcilers included.\<close>

definition server :: "uuid_lib \<Rightarrow> unit prog set" where
  "server L = goroutine L \<union> {void (reconcileAllSales L), void (ReconcileOnStartup L)} \<union> range (StartReconciliationWorker L)"

lemma lawful_server: "p \<in> server L \<Longrightarrow> all_calls lawful p"
proof -
  have v: "all_calls P q \<Longrightarrow> all_calls P (void q)" for P and q :: "'b prog"
    by (simp add: void_def all_calls_bind)
  have "all_calls lawful p" if "p \<in> goroutine L"
    using that by (induction rule: goroutine.induct) (simp_all add: v orderly_lawful orderly_Reserve orderly_Confirm orderly_Release
        orderly_waitlist orderly_inventory orderly_expiry orderly_notify orderly_ticker lawful_NewRouter)
  moreover have "all_calls lawful (StartReconciliationWorker L ticks)" for ticks
    by (induction ticks) (auto simp: orderly_lawful orderly_reconcilers intro!: all_calls_bind split: wakeup.split)
  ultimately show "p \<in> server L \<Longrightarrow> all_calls lawful p" by (auto simp: server_def v orderly_lawful orderly_reconcilers)
qed

section \<open>Properties\<close>

text \<open>The demonstration server with one confirmation: a run that places an order.\<close>

lemma demo_server_run:
  "\<exists>w x. reachable mem_services mem_expire (server canonical_uuid) demo_held (w, [Ret ()]) \<and>
     pg_st w = confirmed_db canonical_uuid 11 x demo_held_db \<and> ord_ReservationID x = 11"
proof -
  let ?x = "new_order demo_res ''k'' (shift (shift (shift (shift demo_orc))))"
  obtain w where run: "run mem_services (Confirm canonical_uuid 11 ''k'') demo_orc demo_held = (Returned (Inr ?x), w)"
    and tb: "pg_st w = confirmed_db canonical_uuid 11 ?x demo_held_db"
    using mem_shop.Confirm_run [of demo_orc demo_held demo_res False 1 1 _ "''k''"] demo_held_db_ok demo_has_stock [of 1 1]
      demo_order_ok [OF demo_key(1)] by (fastforce simp: demo_in64)
  have "void (Confirm canonical_uuid 11 ''k'') \<in> server canonical_uuid"
    by (simp add: server_def goroutine.intros)
  moreover have "run mem_services (void (Confirm canonical_uuid 11 ''k'')) demo_orc demo_held = (Returned (), w)"
    by (simp add: run_void run)
  ultimately have "reachable mem_services mem_expire (server canonical_uuid) demo_held (w, [Ret ()])"
    using run_reachable [OF _ _ reachable.start, of mem_services _ demo_orc demo_held w "server canonical_uuid" mem_expire] by simp
  moreover have "ord_ReservationID ?x = 11" by (simp add: new_order_def)
  ultimately show ?thesis using tb by blast
qed



text \<open>
  C8: Every order is backed.  In every interleaving of the server's goroutines, reconcilers included, each order in the database belongs to a
  reservation whose status is confirmed.
\<close>

theorem orders_always_backed:
  assumes "services S view tables" "reachable S expire (server L) w0 (w, ts)" "db_ok (tables (pg_st w0))"
    "orders_backed (tables (pg_st w0))"
  shows "\<forall>x \<in> set (t_orders (tables (pg_st w))). ord_ReservationID x \<in> confirmed_ids (tables (pg_st w))"
  using services.orders_backed_reachable [OF assms(1,2) lawful_server assms(3,4)] by (simp add: orders_backed_def)

theorem orders_always_backed_witness:
  "\<exists>w x. reachable mem_services mem_expire (server canonical_uuid) demo_held (w, [Ret ()]) \<and>
     x \<in> set (t_orders (pg_st w)) \<and> ord_ReservationID x \<in> confirmed_ids (pg_st w)"
proof -
  obtain w x where r: "reachable mem_services mem_expire (server canonical_uuid) demo_held (w, [Ret ()])"
    and x: "pg_st w = confirmed_db canonical_uuid 11 x demo_held_db" using demo_server_run by blast
  have "orders_backed demo_held_db" by (simp add: orders_backed_def)
  moreover have "stored_order x \<in> set (t_orders (pg_st w))" by (simp add: x confirmed_db_def)
  ultimately show ?thesis using orders_always_backed [OF mem_services_ok r] demo_held_db_ok r by auto
qed

text \<open>
  C20: History is kept.  In every interleaving, orders and audit entries are only ever appended, and a reservation that is confirmed
  stays confirmed: the schema's check rejects every update that would release or expire it.
\<close>

theorem history_kept:
  assumes "services S view tables" "reachable S expire H w0 (w, ts)" "db_ok (tables (pg_st w0))"
  shows "(\<exists>xs. t_orders (tables (pg_st w)) = t_orders (tables (pg_st w0)) @ xs) \<and>
     (\<exists>es. t_audit_log (tables (pg_st w)) = t_audit_log (tables (pg_st w0)) @ es) \<and>
     confirmed_ids (tables (pg_st w0)) \<subseteq> confirmed_ids (tables (pg_st w))"
  using services.grows_reachable [OF assms] by (auto simp: grows_def)

theorem history_kept_witness:
  "\<exists>w xs. reachable mem_services mem_expire (server canonical_uuid) demo_held (w, [Ret ()]) \<and>
     t_orders (pg_st w) = t_orders demo_held_db @ xs \<and> length xs = 1"
proof -
  obtain w x where r: "reachable mem_services mem_expire (server canonical_uuid) demo_held (w, [Ret ()])"
    and x: "pg_st w = confirmed_db canonical_uuid 11 x demo_held_db" using demo_server_run by blast
  from history_kept [OF mem_services_ok r] demo_held_db_ok obtain xs where "t_orders (pg_st w) = t_orders demo_held_db @ xs" by auto
  with r x show ?thesis by (auto simp: confirmed_db_def)
qed

end
