(* ===== verification/Failure_Safety.thy ===== *)
theory Failure_Safety
  imports Database_Invariants Accounting
begin

text \<open>
  What the database looks like after a handler whatever messages were lost.  \<open>db_step\<close> is what a
  call may answer and do to the tables under any delivery; \<open>wp\<close> is the weakest precondition of a
  program for a condition on its outcome and the tables.
\<close>

section \<open>Weakest preconditions on the tables\<close>

definition ran :: "stmt list \<Rightarrow> db \<Rightarrow> resp \<Rightarrow> db \<Rightarrow> bool" where
  "ran sts d r d' \<longleftrightarrow> (r = PgDone \<and> apply_stmts sts d = Some d') \<or>
     (r = PgFailed \<and> apply_stmts sts d = None \<and> d' = d) \<or>
     (r = NetErr \<and> (d' = d \<or> apply_stmts sts d = Some d'))"

definition db_step :: "cmd \<Rightarrow> db \<Rightarrow> resp \<Rightarrow> db \<Rightarrow> bool" where
  "db_step c d r d' = (case c of
       PgExec st \<Rightarrow> ran [st] d r d'
     | TxCommit sts \<Rightarrow> ran sts d r d'
     | PgQuery q \<Rightarrow> d' = d \<and> (r = NetErr \<or> (\<exists>now. r = Rows (eval_query now q d) \<or>
         (\<exists>n. r = RowsCut (cut_rows n (eval_query now q d)))))
     | UuidNew \<Rightarrow> d' = d \<and> (\<exists>u. r = NewUuid u)
     | Now \<Rightarrow> d' = d \<and> (\<exists>t. r = Time t)
     | _ \<Rightarrow> d' = d)"

lemma db_step_simps [simp]:
  "db_step (PgExec st) d r d' = ran [st] d r d'" "db_step (TxCommit sts) d r d' = ran sts d r d'"
  "db_step (PgQuery q) d r d' \<longleftrightarrow> d' = d \<and> (r = NetErr \<or> (\<exists>now. r = Rows (eval_query now q d) \<or>
     (\<exists>n. r = RowsCut (cut_rows n (eval_query now q d)))))"
  "db_step (EvalSha sc keys argv) d r d' \<longleftrightarrow> d' = d" "db_step (Redis rc) d r d' \<longleftrightarrow> d' = d"
  "db_step (TxExec sts st) d r d' \<longleftrightarrow> d' = d" "db_step TxBegin d r d' \<longleftrightarrow> d' = d"
  "db_step TxRollback d r d' \<longleftrightarrow> d' = d" "db_step (Metric m) d r d' \<longleftrightarrow> d' = d"
  "db_step (Publish ch e) d r d' \<longleftrightarrow> d' = d" "db_step (HubCall h) d r d' \<longleftrightarrow> d' = d"
  by (simp_all add: db_step_def)

primrec wp :: "'a prog \<Rightarrow> ('a outcome \<Rightarrow> db \<Rightarrow> bool) \<Rightarrow> db \<Rightarrow> bool" where
  "wp (Ret a) Q d = Q (Returned a) d"
| "wp Panic Q d = Q Panicked d"
| "wp (Call c k) Q d = (\<forall>r d'. db_step c d r d' \<longrightarrow> wp (k r) Q d')"

lemma wp_bind [simp]:
  "wp (bindP p f) Q d = wp p (\<lambda>res d'. case res of Returned a \<Rightarrow> wp (f a) Q d' | Panicked \<Rightarrow> Q Panicked d') d"
  by (induction p arbitrary: d) simp_all

lemma wp_env [simp]: "wp (uuid_New k) Q d \<longleftrightarrow> (\<forall>u. wp (k u) Q d)" "wp (time_Now g) Q d \<longleftrightarrow> (\<forall>t. wp (g t) Q d)"
  by (auto simp: uuid_New_def time_Now_def db_step_def)

lemma wp_quiet: "all_calls (\<lambda>c. writes c = []) p \<Longrightarrow> (\<And>res. Q res d) \<Longrightarrow> wp p Q d"
proof (induction p)
  case (Call c k)
  have "d' = d" if "db_step c d r d'" for r d'
    using that Call.prems(1) by (cases c) (auto simp: db_step_def ran_def split: if_splits)
  with Call show ?case by (auto, metis rangeI)
qed auto

context services
begin

lemma pg_ran:
  "ran sts (tables p) (if fst (pg_exec (srv_pg S) sts p) then PgDone else PgFailed) (tables (snd (pg_exec (srv_pg S) sts p)))"
  "ran sts (tables p) NetErr (tables p)" "ran sts (tables p) NetErr (tables (snd (pg_exec (srv_pg S) sts p)))"
  by (auto simp: ran_def exec_fst exec_tables split: option.split)

lemma exec_db_step: "exec S ch c w = (r, w') \<Longrightarrow> db_step c (tb w) r (tb w')"
  using pg_ran by (cases c; cases "ch_net ch") (auto simp: exec_def db_step_def query split: hub_call.splits)

lemma wp_run: "wp p Q (tb w) \<Longrightarrow> run S p orc w = (res, w') \<Longrightarrow> Q res (tb w')"
proof (induction p arbitrary: w orc)
  case (Call c k)
  obtain r w1 where e: "exec S (orc 0) c w = (r, w1)" by fastforce
  then have "wp (k r) Q (tb w1)" using Call.prems(1) exec_db_step [OF e] by auto
  with Call.IH [OF rangeI] e Call.prems(2) show ?case by (auto simp: run.simps(3))
qed auto

end

section \<open>Confirm\<close>

text \<open>The order a confirmation of reservation \<open>r\<close> creates.\<close>

definition order_for :: "Reservation \<Rightarrow> string \<Rightarrow> Order \<Rightarrow> bool" where
  "order_for r key x \<longleftrightarrow> ord_ReservationID x = res_ID r \<and> ord_UserID x = res_UserID r \<and>
     ord_SaleID x = res_SaleID r \<and> ord_Status x = ''pending'' \<and> ord_IdempotencyKey x = key"

lemma wp_confirm_abort: "Q (Returned (Inl (Wrapf msg e))) d \<Longrightarrow> wp (confirm_abort L s msg e) Q d"
  by (simp add: confirm_abort_def Client_Release_def split: sum.split)

lemma pg_status_cases: "(case pg_status r of Inl e \<Rightarrow> f e | Inr u \<Rightarrow> g u) = (if r = PgDone then g () else f (case r of PgFailed \<Rightarrow> PgErr | _ \<Rightarrow> NetworkErr))"
  by (cases r) (simp_all add: pg_status_def)

lemma wp_confirm_tx:
  assumes "\<And>e. Q (Returned (Inl e)) d"
    and "\<And>x e. order_for (r\<lparr>res_ID := i\<rparr>) key x \<Longrightarrow> order_ok d x \<Longrightarrow>
        Q (Returned (Inr x)) (confirmed_db L i x d) \<and> Q (Returned (Inl e)) (confirmed_db L i x d)"
  shows "wp (confirm_tx L i r key) Q d"
proof -
  have go: "Q (Returned (Inr x)) d' \<and> Q (Returned (Inl e)) d'"
    if "apply_stmts [UpdateReservationConfirmed Confirmed t i, InsertOrder x,
        InsertAudit (audit_entry i ''confirmed'' [(''order_id'', uuid_String L u)])] d = Some d'"
      "order_for (r\<lparr>res_ID := i\<rparr>) key x" "ord_CreatedAt x = t" "ord_ID x = u" for t x d' e u
  proof -
    have ok: "order_ok d x" using that(1) by (auto split: if_splits)
    have "confirmed_db L i x d = d'"
      using that(1) by (simp only: that(3,4) [symmetric] confirmed_db_apply [OF ok] option.inject)
    with assms(2) [OF that(2) ok] show ?thesis by simp
  qed
  show ?thesis
    by (auto simp: confirm_tx_def LogWithConn_def Let_def pg_status_cases ran_def order_for_def assms(1)
        simp del: apply_stmts.simps intro!: wp_confirm_abort
        intro: go [THEN conjunct1] go [THEN conjunct2])
qed

definition confirm_result :: "uuid_lib \<Rightarrow> uuid \<Rightarrow> string \<Rightarrow> db \<Rightarrow> Order res outcome \<Rightarrow> db \<Rightarrow> bool" where
  "confirm_result L i key d res d' \<longleftrightarrow>
     (d' = d \<or> (\<exists>r p x. (r, p) \<in> set (t_reservations d) \<and> res_ID r = i \<and> res_Status r = Reserved \<and>
        order_for r key x \<and> order_ok d x \<and> d' = confirmed_db L i x d)) \<and>
     (\<forall>x. res = Returned (Inr x) \<longrightarrow> (\<exists>y \<in> set (t_orders d'). stored_order x = stored_order y) \<and> ord_IdempotencyKey x = key)"

lemma wp_Client_Confirm:
  assumes "Q Panicked d" "\<And>x. Q (Returned x) d"
  shows "wp (Client_Confirm y) Q d"
  using assms by (auto simp: Client_Confirm_def assert_int64_def split: sum.split reply.split)

lemma wp_confirm_row:
  assumes r: "(r, p) \<in> set (t_reservations d)" "res_ID r = i" "res_Status r = Reserved"
  shows "wp (confirm_tx L i r key) (confirm_result L i key d) d"
proof (rule wp_confirm_tx)
  fix x e assume "order_for (r\<lparr>res_ID := i\<rparr>) key x" "order_ok d x"
  moreover from this r(2) have "order_for r key x" by (simp add: order_for_def)
  ultimately show "confirm_result L i key d (Returned (Inr x)) (confirmed_db L i x d) \<and>
      confirm_result L i key d (Returned (Inl e)) (confirmed_db L i x d)"
    using r by (auto simp: confirm_result_def confirmed_db_def order_for_def)
qed (simp add: confirm_result_def)

lemma wp_Confirm: "wp (Confirm L i key) (confirm_result L i key d) d"
proof -
  have err: "confirm_result L i k d (Returned (Inl e)) d" "confirm_result L i k d Panicked d" for e k
    by (simp_all add: confirm_result_def)
  have old: "confirm_result L i key d (Returned (Inr x)) d"
    if "filter (\<lambda>x. ord_IdempotencyKey x = key) (t_orders d) = x # xs" for x xs
    using arg_cong [OF that, of set] by (auto simp: confirm_result_def)
  have row: "wp (confirm_tx L i r k) (confirm_result L i k d) d"
    if "filter (\<lambda>x. res_ID x = i) (map fst (t_reservations d)) = r # rs" "res_Status r = Reserved" for r rs k
  proof -
    have "r \<in> set (filter (\<lambda>x. res_ID x = i) (map fst (t_reservations d)))" by (simp only: that(1) list.set_intros)
    then obtain p where "(r, p) \<in> set (t_reservations d)" "res_ID r = i" by auto
    with that(2) show ?thesis by (intro wp_confirm_row)
  qed
  have net: "scan_reservation NetErr = Inl NetworkErr" "scan_order NetErr = Inl NetworkErr"
    by (simp_all add: scan_reservation_def scan_order_def)
  show ?thesis
    by (cases "key = []"; cases "filter (\<lambda>x. ord_IdempotencyKey x = key) (t_orders d)";
        cases "filter (\<lambda>x. res_ID x = i) (map fst (t_reservations d))")
       (auto simp: Confirm_def getOrderByIdempotencyKey_def err net
        intro!: wp_Client_Confirm old row split: sum.split)
qed

section \<open>Reserve\<close>

text \<open>The row that backs a reservation handed to a client.\<close>

definition backed :: "Reservation res outcome \<Rightarrow> db \<Rightarrow> bool" where
  "backed res d \<longleftrightarrow> (\<forall>r. res = Returned (Inr r) \<longrightarrow>
     (\<exists>r' p. (r', p) \<in> set (t_reservations d) \<and> stored_reservation r = stored_reservation (r'\<lparr>res_ConfirmedAt := None\<rparr>)))"

text \<open>Programs that write at most audit entries, with the values they may return.\<close>

definition audits :: "cmd \<Rightarrow> bool" where
  "audits c \<longleftrightarrow> writes c = [] \<or> (\<exists>a. writes c = [InsertAudit a])"

primrec all_rets :: "('a \<Rightarrow> bool) \<Rightarrow> 'a prog \<Rightarrow> bool" where
  "all_rets P (Ret a) = P a"
| "all_rets P Panic = True"
| "all_rets P (Call c k) = (\<forall>r. all_rets P (k r))"

lemma all_rets_bind: "(\<And>a. all_rets P (f a)) \<Longrightarrow> all_rets P (bindP p f)"
  by (induction p) auto

lemma wp_audits:
  assumes "all_calls audits p" "all_rets R p"
    and "\<And>v d'. R v \<Longrightarrow> t_reservations d' = t_reservations d \<Longrightarrow> Q (Returned v) d'"
    and "\<And>d'. t_reservations d' = t_reservations d \<Longrightarrow> Q Panicked d'"
  shows "wp p Q d"
  using assms
proof (induction p arbitrary: d)
  case (Call c k)
  show ?case unfolding wp.simps
  proof (intro allI impI)
    fix r d' assume "db_step c d r d'"
    then have "t_reservations d' = t_reservations d"
      using Call.prems(1) by (cases c) (auto simp: db_step_def ran_def audits_def split: if_splits)
    with Call.prems show "wp (k r) Q d'" by (intro Call.IH [OF rangeI]) auto
  qed
qed auto

lemma audits_simps [simp]:
  "audits (Redis rc)" "audits (EvalSha sc keys argv)" "audits (PgQuery q)" "audits (Metric m)"
  "audits (Publish ch e)" "audits (PgExec (InsertAudit a))" "audits UuidNew" "audits Now"
  by (auto simp: audits_def)

lemma wp_reserve_announce:
  assumes "(stored_reservation r, p) \<in> set (t_reservations d)" "res_ConfirmedAt r = None"
  shows "wp (reserve_announce L svc r) backed d"
proof (rule wp_audits)
  show "all_calls audits (reserve_announce L svc r)"
    by (auto simp: reserve_announce_def building_blocks intro!: calls_rules)
  show "all_rets (\<lambda>v. v = Inr r) (reserve_announce L svc r)"
    by (auto simp: reserve_announce_def metric_then_def Let_def intro!: all_rets_bind)
  have "stored_reservation r = stored_reservation ((stored_reservation r)\<lparr>res_ConfirmedAt := None\<rparr>)"
    using assms(2) by (simp add: stored_reservation_def)
  with assms(1) show "backed (Returned v) d'" if "v = Inr r" "t_reservations d' = t_reservations d" for v d'
    using that by (auto simp: backed_def)
qed (simp add: backed_def)

lemma wp_reserve_record: "wp (reserve_record L svc u sale item key) backed d"
proof -
  have err: "backed (Returned (Inl e)) d'" "backed Panicked d'" for e d' by (simp_all add: backed_def)
  have "wp (reserve_announce L svc r) backed d1"
    if "apply_stmts [InsertReservation r False] d = Some d1" "res_ConfirmedAt r = None" for r d1
    using that by (auto intro!: wp_reserve_announce [of r False] split: if_splits)
  then show ?thesis
    by (auto simp: reserve_record_def Db_Exec_def Client_Release_def metric_then_def Redis_Set_def setIdempotency_def
        Let_def pg_status_cases ran_def err simp del: apply_stmts.simps split: sum.split if_split)
qed

lemma wp_Reserve: "wp (Reserve L svc u sale item key) backed d"
proof -
  have err: "backed (Returned (Inl e)) d'" "backed Panicked d'" for e d' by (simp_all add: backed_def)
  have old: "backed (Returned (Inr (r\<lparr>res_ConfirmedAt := None\<rparr>))) d"
    if "filter (\<lambda>x. res_ID x = i) (map fst (t_reservations d)) = r # rs" for r rs i
  proof -
    have "r \<in> set (filter (\<lambda>x. res_ID x = i) (map fst (t_reservations d)))" by (simp only: that list.set_intros)
    then show ?thesis by (auto simp: backed_def)
  qed
  have scan: "scan_reservation NetErr = Inl NetworkErr" by (simp add: scan_reservation_def)
  have row: "backed (Returned (Inr (r\<lparr>res_ConfirmedAt := None\<rparr>))) d"
    if "first_row (filter (\<lambda>x. res_ID x = i) (map fst (t_reservations d))) = Inr r" for r i
    using that old by (cases "filter (\<lambda>x. res_ID x = i) (map fst (t_reservations d))") auto
  show ?thesis
    by (auto simp: Reserve_def checkIdempotency_def Redis_Get_def Client_Reserve_def assert_int64_def metric_then_def
        err scan row wp_reserve_record split: sum.split option.split reply.split)
qed

section \<open>Properties\<close>

text \<open>
  C2: A confirmation is all or nothing.  Whatever requests or replies are lost, when \<open>Confirm\<close> ends the database is either unchanged or has the
  confirmed row, the order and the audit entry together, for a reservation that was in state reserved; and an order that is
  returned to the client is in the database, with its time in microseconds, under the client's idempotency key.
\<close>

theorem confirm_all_or_nothing:
  assumes "services S view tables" "run S (Confirm L i key) orc w = (res, w')"
  shows "(tables (pg_st w') = tables (pg_st w) \<or>
      (\<exists>r p x. (r, p) \<in> set (t_reservations (tables (pg_st w))) \<and> res_ID r = i \<and> res_Status r = Reserved \<and>
         order_for r key x \<and> order_ok (tables (pg_st w)) x \<and>
         tables (pg_st w') = confirmed_db L i x (tables (pg_st w)))) \<and>
     (\<forall>x. res = Returned (Inr x) \<longrightarrow> (\<exists>y \<in> set (t_orders (tables (pg_st w'))). stored_order x = stored_order y) \<and>
        ord_IdempotencyKey x = key)"
  using services.wp_run [OF assms(1) wp_Confirm assms(2)] unfolding confirm_result_def .

theorem confirm_all_or_nothing_witness:
  "\<exists>x w'. run mem_services (Confirm canonical_uuid 11 ''k'') demo_orc demo_held = (Returned (Inr x), w') \<and>
     (\<exists>y \<in> set (t_orders (pg_st w')). stored_order x = stored_order y)"
proof -
  obtain x w' where r: "run mem_services (Confirm canonical_uuid 11 ''k'') demo_orc demo_held = (Returned (Inr x), w')"
    using mem_shop.Confirm_run [of demo_orc demo_held demo_res False 1 1 _ "''k''"] demo_held_db_ok demo_has_stock [of 1 1]
      demo_order_ok [OF demo_key(1)] by (fastforce simp: demo_in64)
  with confirm_all_or_nothing [OF mem_services_ok r] show ?thesis by auto
qed

text \<open>
  C18: A reservation handed out exists.  Whatever requests or replies are lost, a reservation that \<open>Reserve\<close> returns, new or replayed, has a row in the
  database with the same identifier, user, sale, item and status, and with the same times in microseconds.
\<close>

theorem reserve_backed:
  assumes "services S view tables" "run S (Reserve L svc u sale item key) orc w = (Returned (Inr r), w')"
  shows "\<exists>r' p. (r', p) \<in> set (t_reservations (tables (pg_st w'))) \<and> stored_reservation r = stored_reservation (r'\<lparr>res_ConfirmedAt := None\<rparr>)"
  using services.wp_run [OF assms(1) wp_Reserve assms(2)] by (simp add: backed_def)

theorem reserve_backed_witness:
  "\<exists>r r' p w'. run mem_services (Reserve canonical_uuid demo_svc 1 7 5 []) demo_orc demo_world = (Returned (Inr r), w') \<and>
     (r', p) \<in> set (t_reservations (pg_st w')) \<and> stored_reservation r = stored_reservation (r'\<lparr>res_ConfirmedAt := None\<rparr>)"
proof -
  obtain r w' where run: "run mem_services (Reserve canonical_uuid demo_svc 1 7 5 []) demo_orc demo_world = (Returned (Inr r), w')"
    using mem_shop.Reserve_run [of demo_orc demo_world 7 2 0 "[]" _ demo_svc 1 5] demo_has_stock [of 2 0]
      demo_reservation_ok [of "shift demo_orc" demo_db demo_svc] by (fastforce simp: demo_in64 demo_db_def)
  with reserve_backed [OF mem_services_ok run] show ?thesis by blast
qed

end
