(* ===== verification/Panic_Freedom.thy ===== *)
theory Panic_Freedom
  imports Database_Invariants
begin

text \<open>
  The Go client asserts the type of every script's reply (\<open>result.(int64)\<close>, \<open>result.(string)\<close>), and a failed assertion panics.
  The scripts reply with the asserted type on every path, so no goroutine of the server ever panics there.
\<close>

section \<open>Replies of the scripts\<close>

definition script_reply :: "script \<Rightarrow> reply \<Rightarrow> bool" where
  "script_reply sc rep \<longleftrightarrow> (\<exists>e. rep = RErr e) \<or>
     (if sc = Waitlist_promote_lua then \<exists>v. rep = RBulk v else rep = RNil \<or> (\<exists>i. rep = RInt i))"

context redis_server
begin

lemma lua_call_reply:
  assumes "\<And>r'. script_reply sc (fst (f (fst (redis_call R c r)) r'))"
  shows "script_reply sc (fst (lua_call R c r f))"
proof -
  obtain rep r' where e: "redis_call R c r = (rep, r')" by fastforce
  have "script_reply sc (RErr x)" for x by (simp add: script_reply_def)
  with assms [of r'] show ?thesis by (cases rep) (simp_all add: lua_call_def e)
qed

lemma run_script_reply: "script_reply sc (fst (run_script R sc keys argv r))"
proof -
  have rank: "script_reply Waitlist_join_lua (fst (redis_call R (ZRANK k m) r'))" for k m r'
    using zrank_type [of k m r'] by (auto simp: script_reply_def)
  have leaf: "script_reply sc (RErr e)" "sc \<noteq> Waitlist_promote_lua \<Longrightarrow> script_reply sc (RInt i)"
    "script_reply Waitlist_promote_lua (RBulk v)" for sc e i v by (simp_all add: script_reply_def)
  have token: "script_reply Token_bucket_lua (fst (token_bucket_lua R k a1 a2 a3 r'))" for k a1 a2 a3 r'
    unfolding token_bucket_lua_def Let_def case_prod_beta
    by (intro lua_call_reply) (simp add: leaf lua_nil_error_def lua_call_reply)
  show ?thesis
    by (cases sc) (auto simp: run_script_def script_defs(1-5) token Let_def arg_error_def leaf rank
        intro!: lua_call_reply split: list.split reply.split)
qed

end

section \<open>Programs that cannot panic\<close>

definition answers :: "cmd \<Rightarrow> resp \<Rightarrow> bool" where
  "answers c r = (case c of
       EvalSha sc keys argv \<Rightarrow> r = NetErr \<or> (\<exists>rep. r = Rep rep \<and> script_reply sc rep)
     | UuidNew \<Rightarrow> (\<exists>u. r = NewUuid u)
     | Now \<Rightarrow> (\<exists>t. r = Time t)
     | _ \<Rightarrow> True)"

primrec panic_free :: "'a prog \<Rightarrow> bool" where
  "panic_free (Ret a) = True"
| "panic_free Panic = False"
| "panic_free (Call c k) = (\<forall>r. answers c r \<longrightarrow> panic_free (k r))"

lemma panic_free_bind: "panic_free p \<Longrightarrow> (\<And>a. panic_free (f a)) \<Longrightarrow> panic_free (bindP p f)"
  by (induction p) auto

lemma panic_free_cases:
  "(\<And>e. panic_free (f e)) \<Longrightarrow> (\<And>v. panic_free (g v)) \<Longrightarrow> panic_free (case_sum f g y)"
  "panic_free p \<Longrightarrow> (\<And>v. panic_free (h v)) \<Longrightarrow> panic_free (case_option p h z)"
  by (cases y; simp) (cases z; simp)

lemma panic_free_env: "(\<And>u. panic_free (k u)) \<Longrightarrow> panic_free (uuid_New k)" "(\<And>t. panic_free (g t)) \<Longrightarrow> panic_free (time_Now g)"
  by (auto simp: uuid_New_def time_Now_def answers_def)

lemma panic_free_scripts: "panic_free (Client_Reserve y)" "panic_free (Client_Confirm y)"
  "panic_free (Client_WaitlistJoin y u t)" "panic_free (Client_WaitlistPromote y)" "panic_free (Client_Release y)"
  by (auto simp: client_defs answers_def script_reply_def eval_result_def split: sum.split reply.split)

lemmas panic_rules = panic_free_bind panic_free_cases panic_free_env panic_free_scripts

lemmas plain_blocks = Redis_Get_def Redis_Get_Int_def Redis_Set_def Redis_HSet_def Redis_int_reply_def
  Db_Exec_def audit_Log_def LogWithConn_def metric_then_def publisher_defs Let_def

lemma panic_free_notify: "panic_free (notify_rows L rs)"
  by (induction rs) (auto simp: plain_blocks intro!: panic_rules)

lemma panic_free_loops: "panic_free (reconcile_loop L rs n)" "panic_free (startup_loop L rs m n)"
proof -
  have one: "panic_free (reconcileSingleSale L s T)" "panic_free (reconcileSale L s T)" for s T
    by (auto simp: reconcileSingleSale_def reconcileSale_def read_drift_def correct_drift_def plain_blocks
        intro!: panic_rules)
  show "panic_free (reconcile_loop L rs n)" "panic_free (startup_loop L rs m n)"
    by (induction rs arbitrary: m n) (auto simp: plain_blocks intro!: panic_rules one)
qed

text \<open>A panic below the router is recovered.\<close>

lemma panic_free_recovering: "panic_free (recovering p)"
  by (induction p) simp_all

lemma panic_free_background:
  "panic_free (reconcileAllSales L)" "panic_free (ReconcileOnStartup L)" "panic_free (StartReconciliationWorker L ticks)"
  "panic_free (runExpiryWarningTicker L h ticks)"
proof -
  show r: "panic_free (reconcileAllSales L)" and "panic_free (ReconcileOnStartup L)"
    by (auto simp: reconcileAllSales_def reconcile_rows_def ReconcileOnStartup_def plain_blocks panic_free_loops
        intro!: panic_rules split: resp.split rows.split)
  show "panic_free (StartReconciliationWorker L ticks)"
    by (induction ticks) (auto intro!: panic_free_bind r split: wakeup.split)
  have "panic_free (notifyExpiringReservations L h)"
    by (auto simp: notifyExpiringReservations_def panic_free_notify intro!: panic_rules split: resp.split rows.split)
  then show "panic_free (runExpiryWarningTicker L h ticks)"
    by (induction ticks) (auto intro!: panic_free_bind split: wakeup.split)
qed

lemma panic_free_server: "p \<in> server L \<Longrightarrow> panic_free p"
proof -
  have "panic_free p" if "p \<in> goroutine L"
    using that by (induction rule: goroutine.induct)
      (auto simp: void_def Reserve_def reserve_record_def reserve_announce_def checkIdempotency_def setIdempotency_def
        Confirm_def confirm_tx_def confirm_abort_def getOrderByIdempotencyKey_def Release_def Join_def GetPosition_def Leave_def
        CreateSaleAndReturn_def CreateSale_def GetSale_def UpdateSale_def on_expired_message_def handleExpiredReservation_def
        promoteNextUser_def promote_record_def notifyExpiringReservations_def plain_blocks panic_free_notify
        NewRouter_def MetricsMiddleware_def RecoveryMiddleware_def panic_free_recovering panic_free_background
        intro!: panic_rules split: resp.split rows.split)
  then show "p \<in> server L \<Longrightarrow> panic_free p"
    by (auto simp: server_def void_def panic_free_background intro!: panic_free_bind)
qed

context services
begin

lemma exec_answers: "exec S ch c w = (r, w') \<Longrightarrow> answers c r"
  by (cases c; cases "ch_net ch") (auto simp: exec_def answers_def run_script_reply cut_reply_def)

lemma panic_free_reachable:
  assumes "reachable S ex H w0 cf" "\<And>p. p \<in> H \<Longrightarrow> panic_free p"
  shows "list_all panic_free (snd cf)"
  using assms(1)
proof induction
  case (step cf cf')
  from step(2) show ?case
  proof cases
    case (act i ts c k ch w r w')
    have "panic_free (Call c k)" using step.IH act(1,3,4) by (metis list_all_length snd_conv)
    with exec_answers [OF act(5)] have "panic_free (k r)" by simp
    with step.IH act show ?thesis by (auto simp: list_all_iff dest!: set_update_subset_insert [THEN subsetD])
  qed (use step.IH assms(2) in auto)
qed simp

end

section \<open>Property\<close>

text \<open>
  C17: No handler panics.  In every interleaving of the server's goroutines, the reconcilers included, with any lost messages and any
  state of Redis and the database, no goroutine ever reaches a panic.
\<close>

theorem no_panic:
  assumes "services S view tables" "reachable S expire (server L) w0 (w, ts)"
  shows "Panic \<notin> set ts"
  using services.panic_free_reachable [OF assms(1,2) panic_free_server [of _ L]] by (auto simp: list_all_iff)

theorem no_panic_witness:
  "\<exists>w. reachable mem_services mem_expire (server canonical_uuid) demo_held (w, [Ret ()]) \<and> Panic \<notin> set [Ret () :: unit prog]"
proof -
  obtain w where r: "reachable mem_services mem_expire (server canonical_uuid) demo_held (w, [Ret ()])"
    using demo_server_run by blast
  with no_panic [OF mem_services_ok r] show ?thesis by blast
qed

end
