(* ===== verification/Rate_Limiter_Correct.thy ===== *)
theory Rate_Limiter_Correct
  imports Rate_Limiter Example_World
begin

text \<open>
  What the rate limiter promises: the remaining count it reports, the bucket it leaves, and a bound on the number of requests it
  admits in any window.  The bound accounts for the rounding of the script's floating point
  arithmetic: \<open>unit_err\<close> bounds what one request can gain from it.
\<close>

section \<open>Rounding\<close>

definition unit_err :: rat where "unit_err = 1 / 2 ^ 53"
definition tiny_err :: rat where "tiny_err = 1 / 2 ^ 1074"

lemma err_bounds: "0 < unit_err" "unit_err \<le> 1 / 1000" "0 < tiny_err" "1048576 * tiny_err \<le> unit_err * unit_err"
  by (simp_all add: unit_err_def tiny_err_def)

lemma in_double_nonneg: "0 \<le> x \<Longrightarrow> x \<le> 2 ^ 90 \<Longrightarrow> in_double x"
  by (rule in_double_small) simp

context redis_server
begin

lemma round_up:
  assumes "0 \<le> x" "x \<le> 2 ^ 90"
  shows "0 \<le> lua_round R x" "lua_round R x \<le> x + x * unit_err + tiny_err"
proof -
  note d = in_double_nonneg [OF assms]
  have "in_double 0" by (simp add: in_double_def)
  from round_mono [OF this d assms(1)] round_exact [of 0] show "0 \<le> lua_round R x" by simp
  have "\<bar>lua_round R x - x\<bar> \<le> x * unit_err + tiny_err"
    using round_error [OF d] assms(1) by (simp add: unit_err_def tiny_err_def)
  then show "lua_round R x \<le> x + x * unit_err + tiny_err" by linarith
qed

text \<open>One refill and spend, where the exact level \<open>x\<close> is below the capacity.\<close>

lemma refill_error:
  assumes tok: "0 \<le> tok" and rate: "0 \<le> rate" "rate \<le> 2 ^ 20" and d: "0 \<le> d" "d \<le> 2 ^ 53"
    and C: "1 \<le> C" "C \<le> 2 ^ 53" and x: "x = tok + rate * of_int d / 1000" "x < of_int C"
  shows "lua_round R (tok + lua_round R (lua_round R (of_int d / 1000) * rate))
    \<le> x + 5 * (of_int C * unit_err)"
proof -
  define v where "v = of_int C * unit_err"
  have C1: "1 \<le> (of_int C :: rat)" using C(1) by simp
  have C2: "of_int C \<le> (2 ^ 53 :: rat)" using C(2) by (metis of_int_le_iff of_int_numeral of_int_power)
  have u: "0 < unit_err" "unit_err \<le> 1 / 1000" "0 < tiny_err" "1048576 * tiny_err \<le> unit_err * unit_err"
    by (rule err_bounds)+
  have v0: "unit_err \<le> v" using C1 u(1) unfolding v_def by simp
  have v1: "v \<le> 1" using C2 by (simp add: v_def unit_err_def)
  have uu: "unit_err * unit_err \<le> v / 1000"
    using mult_mono [OF v0 u(2)] u(1) v0 by simp
  have vu: "v * unit_err \<le> v / 1000" using mult_left_mono [OF u(2), of v] u(1) v0 by simp
  have tiny: "tiny_err \<le> v / 1000" using u(3,4) uu by linarith
  define D where "D = (of_int d / 1000 :: rat)"
  have d2: "of_int d \<le> (2 ^ 53 :: rat)" using d(2) by (metis of_int_le_iff of_int_numeral of_int_power)
  have D: "0 \<le> D" "D \<le> 2 ^ 53" using d(1) d2 by (auto simp: D_def)
  define P where "P = D * rate"
  have P: "0 \<le> P" "x = tok + P" using D(1) rate(1) x(1) by (auto simp: P_def D_def)
  have Pu: "P * unit_err \<le> v" and xu: "x * unit_err \<le> v"
    using P tok x(2) u(1) by (auto simp: v_def intro!: mult_right_mono)
  define y where "y = lua_round R D"
  have y: "0 \<le> y" "y \<le> D + D * unit_err + tiny_err" using round_up [of D] D by (auto simp: y_def)
  have "tiny_err * rate \<le> tiny_err * 1048576" using u(3) rate(2) by (intro mult_left_mono) auto
  then have tr: "tiny_err * rate \<le> v / 1000" using u(4) uu by linarith
  have "y * rate \<le> (D + D * unit_err + tiny_err) * rate" using y(2) rate(1) by (rule mult_right_mono)
  also have "\<dots> = P + P * unit_err + tiny_err * rate" by (simp add: P_def algebra_simps)
  finally have z: "y * rate \<le> P + v + v / 1000" using Pu tr by linarith
  have z0: "0 \<le> y * rate" using y(1) rate(1) by simp
  have "P \<le> 2 ^ 53" using P tok x(2) C2 by linarith
  with z v1 have z90: "y * rate \<le> 2 ^ 90" by simp
  have "y * rate * unit_err \<le> (P + v + v / 1000) * unit_err" using z u(1) by (intro mult_right_mono) auto
  also have "\<dots> = P * unit_err + v * unit_err + v * unit_err / 1000" by (simp add: algebra_simps)
  finally have "y * rate * unit_err \<le> v + v / 1000 + v / 1000" using Pu vu v0 u(1) by linarith
  then have w: "lua_round R (y * rate) \<le> P + 3 * v" "0 \<le> lua_round R (y * rate)"
    using round_up [OF z0 z90] z tiny v0 u(1) by linarith+
  define t where "t = tok + lua_round R (y * rate)"
  have t: "0 \<le> t" "t \<le> x + 3 * v" using w tok P(2) by (auto simp: t_def)
  have "t * unit_err \<le> (x + 3 * v) * unit_err" using t(2) u(1) by (intro mult_right_mono) auto
  also have "\<dots> = x * unit_err + 3 * (v * unit_err)" by (simp add: algebra_simps)
  finally have tu: "t * unit_err \<le> v + 3 * (v / 1000)" using xu vu by linarith
  have "t \<le> 2 ^ 90" using t(2) x(2) C2 v1 by simp
  with round_up [OF t(1)] t(2) tu tiny v0 u(1) have "lua_round R t \<le> x + 5 * v" by linarith
  then show ?thesis by (simp add: t_def y_def D_def v_def)
qed

lemma spend_error:
  assumes tok: "0 \<le> tok" and rate: "0 \<le> rate" "rate \<le> 2 ^ 20" and d: "0 \<le> now - l" "now - l \<le> 2 ^ 53"
    and C: "1 \<le> C" "C \<le> 2 ^ 53" and x: "x = min (of_int C) (tok + rate * of_int (now - l) / 1000)"
    and q: "q = bucket_refill (lua_round R) (of_int C) rate (of_int now) tok (of_int l)" "1 \<le> q"
  shows "lua_round R (q - 1) \<le> x - 1 + of_int C / 2 ^ 50"
proof -
  have C1: "1 \<le> (of_int C :: rat)" using C(1) by simp
  have qC: "q \<le> of_int C" by (simp add: q(1) bucket_refill_def Let_def)
  show ?thesis
  proof (cases "tok + rate * of_int (now - l) / 1000 < of_int C")
    case False
    with x have "x = of_int C" by simp
    moreover have "0 \<le> (of_int C / 2 ^ 50 :: rat)" using C1 by simp
    ultimately show ?thesis using spent_tokens(2) [OF q(2) qC C(2)] by linarith
  next
    case True
    with x have x': "x = tok + rate * of_int (now - l) / 1000" "x < of_int C" by simp_all
    have "lua_round R (of_int now - of_int l) = of_int (now - l)"
      using round_exact [of "now - l"] d by simp
    then have "q \<le> lua_round R (tok + lua_round R (lua_round R (of_int (now - l) / 1000) * rate))"
      by (simp add: q(1) bucket_refill_def Let_def)
    with refill_error [OF tok rate d C x'] have qx: "q \<le> x + 5 * (of_int C * unit_err)" by linarith
    have "of_int C \<le> (2 ^ 53 :: rat)" using C(2) by (metis of_int_le_iff of_int_numeral of_int_power)
    then have "q - 1 \<le> 2 ^ 90" using qC by simp
    with round_up [of "q - 1"] q(2) have r: "lua_round R (q - 1) \<le> (q - 1) + (q - 1) * unit_err + tiny_err" by simp
    have "(q - 1) * unit_err \<le> of_int C * unit_err" using qC err_bounds(1) by (intro mult_right_mono) auto
    moreover have "tiny_err \<le> unit_err * 1"
      by (simp add: tiny_err_def unit_err_def)
    moreover have "1 * unit_err \<le> of_int C * unit_err" using C1 err_bounds(1) by (intro mult_right_mono) auto
    ultimately have "lua_round R (q - 1) \<le> x - 1 + 7 * (of_int C * unit_err)" using r qx by linarith
    also have "7 * (of_int C * unit_err) \<le> of_int C / 2 ^ 50" using C1 by (simp add: unit_err_def)
    finally show ?thesis by simp
  qed
qed

end

section \<open>Requests of one user\<close>

definition request_at :: "time \<Rightarrow> schedule" where
  "request_at t = (\<lambda>_. \<lparr>ch_net = Delivered, ch_uuid = 0, ch_now = t\<rparr>)"

text \<open>
  A request is a clock reading and whether the bucket's key has expired since the previous one.  \<open>admitted\<close> counts
  the requests of a sequence that are let through.
\<close>

definition request :: "('r, 'p) services \<Rightarrow> (string \<Rightarrow> 'r \<Rightarrow> 'r) \<Rightarrow> (rat \<Rightarrow> string) \<Rightarrow> Limiter \<Rightarrow> string \<Rightarrow>
    time \<times> bool \<Rightarrow> ('r, 'p) world \<Rightarrow> (bool \<times> int) res outcome \<times> ('r, 'p) world" where
  "request S ex fmt l u x w = run S (Allow fmt l u) (request_at (fst x))
     (if snd x then w\<lparr>redis_st := ex (ratelimitKey u) (redis_st w)\<rparr> else w)"

definition let_through :: "(bool \<times> int) res outcome \<Rightarrow> bool" where
  "let_through x = (case x of Returned (Inr (ok, _)) \<Rightarrow> ok | _ \<Rightarrow> False)"

primrec admitted :: "('r, 'p) services \<Rightarrow> (string \<Rightarrow> 'r \<Rightarrow> 'r) \<Rightarrow> (rat \<Rightarrow> string) \<Rightarrow> Limiter \<Rightarrow> string \<Rightarrow>
    (time \<times> bool) list \<Rightarrow> ('r, 'p) world \<Rightarrow> nat" where
  "admitted S ex fmt l u [] w = 0"
| "admitted S ex fmt l u (x # xs) w =
     (if let_through (fst (request S ex fmt l u x w)) then 1 else 0) +
     admitted S ex fmt l u xs (snd (request S ex fmt l u x w))"

text \<open>The state after a sequence of requests.\<close>

primrec after :: "('r, 'p) services \<Rightarrow> (string \<Rightarrow> 'r \<Rightarrow> 'r) \<Rightarrow> (rat \<Rightarrow> string) \<Rightarrow> Limiter \<Rightarrow> string \<Rightarrow>
    (time \<times> bool) list \<Rightarrow> ('r, 'p) world \<Rightarrow> ('r, 'p) world" where
  "after S ex fmt l u [] w = w"
| "after S ex fmt l u (x # xs) w = after S ex fmt l u xs (snd (request S ex fmt l u x w))"

text \<open>The key expires no earlier than a minute after the last admitted request.\<close>

primrec timely :: "('r, 'p) services \<Rightarrow> (string \<Rightarrow> 'r \<Rightarrow> 'r) \<Rightarrow> ('r \<Rightarrow> keyspace) \<Rightarrow> (rat \<Rightarrow> string) \<Rightarrow> Limiter \<Rightarrow>
    string \<Rightarrow> (time \<times> bool) list \<Rightarrow> ('r, 'p) world \<Rightarrow> bool" where
  "timely S ex view fmt l u [] w = True"
| "timely S ex view fmt l u (x # xs) w =
     ((case bucket_of (srv_redis S) (view (redis_st w) (ratelimitKey u)) of
         Some (Some b) \<Rightarrow> snd x \<longrightarrow> snd b + 60000 \<le> of_int (unix_milli (fst x))
       | _ \<Rightarrow> True) \<and>
      timely S ex view fmt l u xs (snd (request S ex fmt l u x w)))"

lemma timely_append: "timely S ex v fmt l u (xs @ ys) w \<longleftrightarrow>
    timely S ex v fmt l u xs w \<and> timely S ex v fmt l u ys (after S ex fmt l u xs w)"
  by (induction xs arbitrary: w) auto

section \<open>The level of a bucket\<close>

definition level :: "rat \<Rightarrow> rat \<Rightarrow> rat \<Rightarrow> bucket \<Rightarrow> rat" where
  "level cap rate now b = (case b of None \<Rightarrow> cap
     | Some (tok, l) \<Rightarrow> min cap (tok + rate * (now - l) / 1000))"

definition bucket_ok :: "int \<Rightarrow> int \<Rightarrow> bucket \<Rightarrow> bool" where
  "bucket_ok C now b = (case b of None \<Rightarrow> True
     | Some (tok, l) \<Rightarrow> 0 \<le> tok \<and> tok \<le> of_int C - 1 \<and> l = of_int \<lfloor>l\<rfloor> \<and> 0 \<le> \<lfloor>l\<rfloor> \<and> \<lfloor>l\<rfloor> \<le> now)"

lemma level_le: "level cap rate now b \<le> cap"
  by (simp add: level_def split: option.split)

lemma level_later:
  assumes "0 \<le> rate" "t \<le> now"
  shows "level cap rate now b \<le> level cap rate t b + rate * (now - t) / 1000"
proof (cases b)
  case (Some p)
  have "0 \<le> rate * (now - t)" using assms by simp
  moreover have "rate * (now - snd p) = rate * (t - snd p) + rate * (now - t)" by (simp add: algebra_simps)
  ultimately show ?thesis using Some by (simp add: level_def case_prod_beta add_divide_distrib min_def)
qed (use assms in \<open>simp add: level_def\<close>)

lemma level_expired:
  assumes "bucket_ok C t b" "of_int C \<le> 60 * rate" "\<And>tok l. b = Some (tok, l) \<Longrightarrow> l + 60000 \<le> now"
  shows "level (of_int C) rate now b = of_int C"
proof (cases b)
  case (Some p)
  then have "snd p + 60000 \<le> now" "0 \<le> fst p" using assms(1,3) by (auto simp: bucket_ok_def)
  moreover have "0 \<le> rate" using assms(1,2) Some by (cases p) (auto simp: bucket_ok_def)
  ultimately have "60000 * rate \<le> rate * (now - snd p)"
    by (metis add_le_imp_le_diff add.commute mult.commute mult_left_mono)
  then show ?thesis using Some assms(2) \<open>0 \<le> fst p\<close> by (simp add: level_def case_prod_beta)
qed (simp add: level_def)

lemma bucket_ok_later: "bucket_ok C t b \<Longrightarrow> t \<le> now \<Longrightarrow> bucket_ok C now b"
  by (auto simp: bucket_ok_def split: option.splits)

context redis_server
begin

lemma take_refused:
  assumes C: "C \<le> 2 ^ 53"
  defines "res q now b \<equiv> take_token (lua_round R) (of_int C) q now b"
  shows "fst (res q now b) = - 1 \<Longrightarrow> snd (res q now b) = b"
proof -
  have "\<lfloor>lua_round R (t - 1)\<rfloor> \<noteq> - 1" if "1 \<le> t" "t \<le> of_int C" for t
    using spent_tokens(1) [OF that C] by linarith
  from this [of "refilled (lua_round R) (of_int C) q now b"] refilled_le [of "lua_round R" "of_int C" q now b]
  show "fst (res q now b) = - 1 \<Longrightarrow> snd (res q now b) = b"
    by (auto simp: res_def take_token_def Let_def split: if_splits)
qed

lemma take_level:
  assumes b: "bucket_ok C now b" and rate: "0 \<le> rate" "rate \<le> 2 ^ 20" and now: "0 \<le> now" "now \<le> 2 ^ 53"
    and C: "1 \<le> C" "C \<le> 2 ^ 53"
    and res: "take_token (lua_round R) (of_int C) rate (of_int now) b = (m, b')" "m \<noteq> - 1"
  shows "bucket_ok C now b'" "0 \<le> m" "m \<le> C - 1"
    and "level (of_int C) rate (of_int now) b' \<le> level (of_int C) rate (of_int now) b - 1 + of_int C / 2 ^ 50"
proof -
  define q where "q = refilled (lua_round R) (of_int C) rate (of_int now) b"
  have q: "1 \<le> q" "m = \<lfloor>lua_round R (q - 1)\<rfloor>" "b' = Some (lua_round R (q - 1), of_int now)"
    using res by (auto simp: take_token_def q_def Let_def split: if_splits)
  have qC: "q \<le> of_int C" by (simp add: q_def refilled_le)
  note s = spent_tokens [OF q(1) qC C(2)]
  show "bucket_ok C now b'" using s q(3) now(1) by (simp add: bucket_ok_def)
  show "0 \<le> m" using s(1) q(2) by simp
  show "m \<le> C - 1" using s(2) q(2) floor_less_iff [of "lua_round R (q - 1)" C] by linarith
  have "lua_round R (q - 1) \<le> level (of_int C) rate (of_int now) b - 1 + of_int C / 2 ^ 50"
  proof (cases b)
    case None
    have "0 \<le> (of_int C :: rat)" "0 \<le> now - now" "now - now \<le> 2 ^ 53" using C(1) by simp_all
    then show ?thesis using None q(1) C rate
      by (intro spend_error [where tok = "of_int C" and now = now and l = now]) (auto simp: q_def refilled_def level_def)
  next
    case (Some p)
    obtain tok i where p: "p = (tok, of_int i)" "0 \<le> tok" "0 \<le> i" "i \<le> now"
      using b Some by (cases p) (auto simp: bucket_ok_def)
    then show ?thesis using Some q(1) C rate now
      by (intro spend_error [where tok = tok and now = now and l = i]) (auto simp: q_def refilled_def level_def)
  qed
  then show "level (of_int C) rate (of_int now) b' \<le> level (of_int C) rate (of_int now) b - 1 + of_int C / 2 ^ 50"
    by (simp add: q(3) level_def)
qed

end

section \<open>Running requests\<close>

definition limiter_ok :: "('r, 'p) services \<Rightarrow> (rat \<Rightarrow> string) \<Rightarrow> Limiter \<Rightarrow> int \<Rightarrow> bool" where
  "limiter_ok S fmt l C \<longleftrightarrow> capacity l = of_int C \<and> 1 \<le> C \<and> C \<le> 2 ^ 53 \<and>
     0 \<le> ratePerSec l \<and> ratePerSec l \<le> 2 ^ 20 \<and>
     lua_tonumber (srv_redis S) (fmt (capacity l)) = Some (capacity l) \<and>
     lua_tonumber (srv_redis S) (fmt (ratePerSec l)) = Some (ratePerSec l)"

context services
begin

abbreviation bucket_at :: "('r, 'p) world \<Rightarrow> string \<Rightarrow> bucket option" where
  "bucket_at w u \<equiv> bucket_of (srv_redis S) (ks w (ratelimitKey u))"

lemma Allow_run:
  assumes l: "limiter_ok S fmt l C" and b: "bucket_at w u = Some b" and now: "\<bar>unix_milli (ch_now (orc 0))\<bar> \<le> 2 ^ 53"
    and del: "delivered orc"
  defines "res \<equiv> take_token (lua_round (srv_redis S)) (capacity l) (ratePerSec l) (of_int (unix_milli (ch_now (orc 0)))) b"
  shows "\<exists>w'. run S (Allow fmt l u) orc w =
      (Returned (Inr (if fst res = - 1 then (False, 0) else (True, fst res))), w') \<and>
     bucket_at w' u = Some (snd res) \<and> (fst res = - 1 \<longrightarrow> ks w' = ks w) \<and>
     (\<forall>k. k \<noteq> ratelimitKey u \<longrightarrow> ks w' k = ks w k) \<and> pg_st w' = pg_st w \<and> published w' = published w"
proof -
  let ?a = "[fmt (capacity l), fmt (ratePerSec l), Itoa (unix_milli (ch_now (orc 0)))]"
  let ?r = "run_script (srv_redis S) Token_bucket_lua [ratelimitKey u] ?a (redis_st w)"
  note t = token_bucket_take [OF b _ now, of C "fmt (capacity l)" "fmt (ratePerSec l)" "ratePerSec l" "Itoa (unix_milli (ch_now (orc 0)))"]
  have c: "C \<le> 2 ^ 53" "capacity l = of_int C" "lua_tonumber (srv_redis S) (fmt (capacity l)) = Some (of_int C)"
    "lua_tonumber (srv_redis S) (fmt (ratePerSec l)) = Some (ratePerSec l)"
    using l unfolding limiter_ok_def by metis+
  have f: "fst ?r = RInt (fst res)" "bucket_of (srv_redis S) (view (snd ?r) (ratelimitKey u)) = Some (snd res)"
    "fst res = - 1 \<Longrightarrow> view (snd ?r) = view (redis_st w)"
    using t c by (simp_all add: res_def)
  have "run S (Allow fmt l u) orc w =
      (Returned (Inr (if fst res = - 1 then (False, 0) else (True, fst res))), w\<lparr>redis_st := snd ?r\<rparr>)"
    using del f(1) by (simp add: Allow_def Let_def run_time_Now run_delivered)
  then show ?thesis using f run_script_frame [of _ "[ratelimitKey u]" Token_bucket_lua ?a "redis_st w"] by simp
qed

end

context expiring_services
begin

lemma request_step:
  assumes l: "limiter_ok S fmt l C" and b: "bucket_at w u = Some b" "bucket_ok C t b"
    and full: "capacity l \<le> 60 * ratePerSec l"
    and t: "0 \<le> t" "t \<le> unix_milli (fst x)" "unix_milli (fst x) \<le> 2 ^ 53"
    and timely: "case bucket_at w u of
      Some (Some b) \<Rightarrow> snd x \<longrightarrow> snd b + 60000 \<le> of_int (unix_milli (fst x)) | _ \<Rightarrow> True"
  defines "now \<equiv> unix_milli (fst x)" and "w' \<equiv> snd (request S expire fmt l u x w)"
    and "n \<equiv> (if let_through (fst (request S expire fmt l u x w)) then 1 else 0 :: nat)"
  shows "\<exists>b'. bucket_at w' u = Some b' \<and> bucket_ok C now b' \<and>
    level (of_int C) (ratePerSec l) (of_int now) b' + of_nat n * (1 - of_int C / 2 ^ 50) \<le>
      level (of_int C) (ratePerSec l) (of_int t) b + ratePerSec l * (of_int now - of_int t) / 1000"
proof -
  let ?lev = "level (of_int C) (ratePerSec l)" and ?k = "ratelimitKey u"
  define w0 where "w0 = (if snd x then w\<lparr>redis_st := expire ?k (redis_st w)\<rparr> else w)"
  have c: "capacity l = of_int C" "1 \<le> C" "C \<le> 2 ^ 53" "0 \<le> ratePerSec l" "ratePerSec l \<le> 2 ^ 20"
    using l unfolding limiter_ok_def by metis+
  have lev: "?lev (of_int now) b \<le> ?lev (of_int t) b + ratePerSec l * (of_int now - of_int t) / 1000"
    using level_later [OF c(4), of "of_int t" "of_int now"] t(2) by (simp add: now_def)
  have okn: "bucket_ok C now b" using bucket_ok_later [OF b(2)] t(2) by (simp add: now_def)
  obtain b0 where b0: "bucket_at w0 u = Some b0" "bucket_ok C now b0" "?lev (of_int now) b0 \<le> ?lev (of_int now) b"
  proof (cases "snd x \<and> ttl_of (ks w ?k) \<noteq> None")
    case True
    then have "bucket_at w0 u = Some None" by (auto simp: w0_def expire_view bucket_of_def)
    moreover have "?lev (of_int now) b = of_int C"
      using level_expired [OF okn, of "ratePerSec l" "of_int now"] full c(1) timely True b(1)
      by (cases b) (auto simp: now_def)
    ultimately show thesis using that [of None] by (simp add: bucket_ok_def level_def)
  next
    case False
    then have "ks w0 ?k = ks w ?k" by (auto simp: w0_def expire_view)
    with b okn that show thesis by simp
  qed
  let ?res = "take_token (lua_round (srv_redis S)) (of_int C) (ratePerSec l) (of_int now) b0"
  have "\<bar>unix_milli (ch_now (request_at (fst x) 0))\<bar> \<le> 2 ^ 53" "delivered (request_at (fst x))"
    using t by (simp_all add: request_at_def delivered_def)
  from Allow_run [OF l b0(1) this] obtain w1 where
    run: "request S expire fmt l u x w = (Returned (Inr (if fst ?res = - 1 then (False, 0) else (True, fst ?res))), w1)"
    and b1: "bucket_at w1 u = Some (snd ?res)"
    by (auto simp: request_def w0_def now_def c(1) request_at_def)
  have w': "w' = w1" and n: "n = (if fst ?res = - 1 then 0 else 1)"
    by (simp_all add: w'_def n_def run let_through_def)
  show ?thesis
  proof (cases "fst ?res = - 1")
    case True
    then have "snd ?res = b0" using take_refused [OF c(3), of "ratePerSec l" "of_int now" b0] by simp
    with b0 b1 w' n lev True show ?thesis by auto
  next
    case False
    have nowb: "0 \<le> now" "now \<le> 2 ^ 53" using t by (auto simp: now_def)
    have e: "?res = (fst ?res, snd ?res)" by simp
    note tl = take_level [OF b0(2) c(4,5) nowb c(2,3) e False]
    show ?thesis using tl(1,4) b0(3) lev b1 w' n False by auto
  qed
qed

end

context expiring_services
begin

lemma after_bucket:
  assumes l: "limiter_ok S fmt l C" "capacity l \<le> 60 * ratePerSec l" and t1: "t1 \<le> 2 ^ 53"
    and "bucket_at w u = Some b" "bucket_ok C t0 b" "0 \<le> t0" "t0 \<le> t1"
    and "sorted (map (unix_milli \<circ> fst) xs)" "\<forall>x \<in> set xs. t0 \<le> unix_milli (fst x) \<and> unix_milli (fst x) \<le> t1"
    and "timely S expire view fmt l u xs w"
  shows "\<exists>b'. bucket_at (after S expire fmt l u xs w) u = Some b' \<and> bucket_ok C t1 b'"
  using assms(4-)
proof (induction xs arbitrary: w b t0)
  case Nil
  then show ?case using bucket_ok_later by auto
next
  case (Cons x xs)
  let ?now = "unix_milli (fst x)" and ?w = "snd (request S expire fmt l u x w)"
  have t: "t0 \<le> ?now" "?now \<le> t1" "timely S expire view fmt l u xs ?w" using Cons.prems(6,7) by auto
  from request_step [OF l(1) Cons.prems(1,2) l(2) Cons.prems(3) t(1)] t(2) t1 Cons.prems(7) obtain b' where
    b': "bucket_at ?w u = Some b'" "bucket_ok C ?now b'" by auto
  show ?case using Cons.IH [OF b' _ t(2) _ _ t(3)] Cons.prems t by auto
qed

lemma admitted_bound:
  assumes l: "limiter_ok S fmt l C" "capacity l \<le> 60 * ratePerSec l" and t1: "t1 \<le> 2 ^ 53"
    and "bucket_at w u = Some b" "bucket_ok C t0 b" "0 \<le> t0" "t0 \<le> t1"
    and "sorted (map (unix_milli \<circ> fst) xs)" "\<forall>x \<in> set xs. t0 \<le> unix_milli (fst x) \<and> unix_milli (fst x) \<le> t1"
    and "timely S expire view fmt l u xs w"
  shows "of_nat (admitted S expire fmt l u xs w) * (1 - of_int C / 2 ^ 50) \<le>
    level (of_int C) (ratePerSec l) (of_int t0) b + ratePerSec l * (of_int t1 - of_int t0) / 1000"
  using assms(4-)
proof (induction xs arbitrary: w b t0)
  case Nil
  have "0 \<le> ratePerSec l" "1 \<le> C" using l(1) unfolding limiter_ok_def by metis+
  moreover from this have "0 \<le> level (of_int C) (ratePerSec l) (of_int t0) b"
    using Nil.prems(2) by (auto simp: level_def bucket_ok_def split: option.splits)
  ultimately show ?case using Nil.prems(4) by simp
next
  case (Cons x xs)
  let ?now = "unix_milli (fst x)" and ?w = "snd (request S expire fmt l u x w)"
  let ?n = "(if let_through (fst (request S expire fmt l u x w)) then 1 else 0 :: nat)"
  have t: "t0 \<le> ?now" "?now \<le> t1" "timely S expire view fmt l u xs ?w" using Cons.prems(6,7) by auto
  from request_step [OF l(1) Cons.prems(1,2) l(2) Cons.prems(3) t(1)] t(2) t1 Cons.prems(7) obtain b' where
    b': "bucket_at ?w u = Some b'" "bucket_ok C ?now b'" and
    step: "level (of_int C) (ratePerSec l) (of_int ?now) b' + of_nat ?n * (1 - of_int C / 2 ^ 50) \<le>
      level (of_int C) (ratePerSec l) (of_int t0) b + ratePerSec l * (of_int ?now - of_int t0) / 1000"
    by auto
  have "of_nat (admitted S expire fmt l u xs ?w) * (1 - of_int C / 2 ^ 50) \<le>
    level (of_int C) (ratePerSec l) (of_int ?now) b' + ratePerSec l * (of_int t1 - of_int ?now) / 1000"
    using Cons.IH [OF b' _ t(2) _ _ t(3)] Cons.prems t by auto
  moreover have "ratePerSec l * (of_int t1 - of_int t0) / 1000 =
      ratePerSec l * (of_int t1 - of_int ?now) / 1000 + ratePerSec l * (of_int ?now - of_int t0) / 1000"
    by (simp add: field_simps)
  moreover have "of_nat (admitted S expire fmt l u (x # xs) w) * (1 - of_int C / 2 ^ 50) =
      of_nat ?n * (1 - of_int C / 2 ^ 50 :: rat) + of_nat (admitted S expire fmt l u xs ?w) * (1 - of_int C / 2 ^ 50)"
    by (simp add: distrib_right)
  ultimately show ?case using step by linarith
qed

end

section \<open>Properties\<close>


text \<open>
  What \<open>Allow\<close> answers.  Against a well-formed bucket it always decides: either the request is refused with remaining
  count 0 and Redis is left as it was, or it is admitted with a remaining count between 0 and the capacity less one
  and a well-formed bucket.  No other key and no table changes.
\<close>

theorem Allow_decides:
  assumes "services S view tables" "limiter_ok S fmt l C" "delivered orc"
    and "bucket_of (srv_redis S) (view (redis_st w) (ratelimitKey u)) = Some b"
    and "now = unix_milli (ch_now (orc 0))" "bucket_ok C now b" "0 \<le> now" "now \<le> 2 ^ 53"
  shows "\<exists>ok remaining w' b'. run S (Allow fmt l u) orc w = (Returned (Inr (ok, remaining)), w') \<and>
     bucket_of (srv_redis S) (view (redis_st w') (ratelimitKey u)) = Some b' \<and> bucket_ok C now b' \<and>
     (if ok then 0 \<le> remaining \<and> remaining \<le> C - 1
      else remaining = 0 \<and> view (redis_st w') = view (redis_st w)) \<and>
     (\<forall>k. k \<noteq> ratelimitKey u \<longrightarrow> view (redis_st w') k = view (redis_st w) k) \<and> pg_st w' = pg_st w"
proof -
  let ?res = "take_token (lua_round (srv_redis S)) (of_int C) (ratePerSec l) (of_int now) b"
  have c: "capacity l = of_int C" "1 \<le> C" "C \<le> 2 ^ 53" "0 \<le> ratePerSec l" "ratePerSec l \<le> 2 ^ 20"
    using assms(2) unfolding limiter_ok_def by metis+
  have redis: "redis_server (srv_redis S) view" using assms(1) by (rule services.axioms(1))
  have "\<bar>unix_milli (ch_now (orc 0))\<bar> \<le> 2 ^ 53" using assms(5,7,8) by simp
  from services.Allow_run [OF assms(1,2,4) this assms(3)] obtain w' where
    run: "run S (Allow fmt l u) orc w = (Returned (Inr (if fst ?res = - 1 then (False, 0) else (True, fst ?res))), w')"
    and rest: "bucket_of (srv_redis S) (view (redis_st w') (ratelimitKey u)) = Some (snd ?res)"
      "fst ?res = - 1 \<longrightarrow> view (redis_st w') = view (redis_st w)"
      "\<forall>k. k \<noteq> ratelimitKey u \<longrightarrow> view (redis_st w') k = view (redis_st w) k" "pg_st w' = pg_st w"
    by (auto simp: c(1) assms(5))
  have "fst ?res \<noteq> - 1 \<Longrightarrow> bucket_ok C now (snd ?res) \<and> 0 \<le> fst ?res \<and> fst ?res \<le> C - 1"
    using redis_server.take_level [OF redis assms(6) c(4,5) assms(7,8) c(2,3), of "fst ?res" "snd ?res"] by simp
  moreover have "fst ?res = - 1 \<Longrightarrow> bucket_ok C now (snd ?res)"
    using redis_server.take_refused [OF redis c(3), of "ratePerSec l" "of_int now" b] assms(6) by simp
  ultimately show ?thesis using run rest by (cases "fst ?res = - 1") auto
qed

text \<open>The deployed limiter (ten tokens, two per second) on the in-memory server.\<close>

definition demo_limiter :: Limiter where
  "demo_limiter = \<lparr>capacity = 10, ratePerSec = 2\<rparr>"

lemma demo_limiter_ok: "limiter_ok mem_services show_rat demo_limiter 10"
  by (simp add: limiter_ok_def demo_limiter_def mem_services_def mem_redis_def read_rat_show)

lemma demo_no_bucket: "demo_keys a b (ratelimitKey u) = None"
  by (simp add: demo_keys_def)

lemma timely_unexpired: "\<forall>x \<in> set xs. \<not> snd x \<Longrightarrow> timely S ex v fmt l u xs w"
  by (induction xs arbitrary: w) (auto split: option.split)


theorem Allow_decides_witness:
  "\<exists>ok remaining w'. run mem_services (Allow show_rat demo_limiter ''1.2.3.4:5'') demo_orc demo_world =
     (Returned (Inr (ok, remaining)), w') \<and> 0 \<le> remaining \<and> remaining \<le> 9"
  using Allow_decides [OF mem_services_ok demo_limiter_ok demo_orc_delivered, of demo_world "''1.2.3.4:5''" None 0]
    demo_no_bucket [of 2 0]
  by (fastforce simp: bucket_of_def bucket_ok_def demo_orc_def unix_milli_def split: if_splits)

end
