(* ===== verification/Http_Correct.thy ===== *)
theory Http_Correct
  imports Http_Api Rate_Limiter_Correct Reservation_Correct Failure_Safety
begin

text \<open>
  The HTTP layer end to end: what a client sees for a request to the reserve endpoint, from the router through the metrics,
  recovery and rate limiting middleware to the service; the status codes of every route; the
  replay cache; and reading back an order.
\<close>

section \<open>Runs of the middleware\<close>

lemma run_recovering:
  "run S (recovering p) orc w = (case run S p orc w of
     (Returned a, w') \<Rightarrow> (Returned a, w') | (Panicked, w') \<Rightarrow> (Returned (http_Error ''Internal server error'' 500), w'))"
  by (induction p arbitrary: orc w) (simp_all add: run.simps(3))

text \<open>The router: dispatch, recovery and one metric.\<close>

definition counted :: "response \<Rightarrow> string \<Rightarrow> string \<Rightarrow> ('r, 'p) world \<Rightarrow> ('r, 'p) world" where
  "counted resp pattern method w =
     w\<lparr>metrics := metrics w @ [HTTPRequestsTotal pattern method (Itoa (captured_status resp))]\<rparr>"

lemma counted_simps [simp]: "redis_st (counted r p m w) = redis_st w" "pg_st (counted r p m w) = pg_st w"
  "published (counted r p m w) = published w"
  by (simp_all add: counted_def)

lemma run_metric_then: "run S (metric_then m p) orc w = run S p (shift orc) (w\<lparr>metrics := metrics w @ [m]\<rparr>)"
  by (simp add: metric_then_def run.simps(3) exec_def)

lemma NewRouter_run:
  assumes "a_chi A (map fst (route_table A rec)) (rq_Method r) (rq_Path r) = Matched pattern params"
    and "pattern \<noteq> []" "find_route (route_table A rec) (rq_Method r) pattern = h"
    and "run S (h (r\<lparr>rq_URLParam := params\<rparr>)) orc w = (Returned resp, w')"
  shows "run S (NewRouter A rec r) orc w = (Returned resp, counted resp pattern (rq_Method r) w')"
proof -
  have "run S (recovering (h (r\<lparr>rq_URLParam := params\<rparr>))) orc w = (Returned resp, w')"
    by (simp add: run_recovering assms(4))
  moreover obtain n where "run S (NewRouter A rec r) orc w =
     (case run S (recovering (h (r\<lparr>rq_URLParam := params\<rparr>))) orc w of
        (Returned resp, w') \<Rightarrow> run S (metric_then (HTTPRequestsTotal pattern (rq_Method r) (Itoa (captured_status resp))) (Ret resp)) (later n orc) w'
      | (Panicked, w') \<Rightarrow> (Panicked, w'))"
    using run_bind [of S "recovering (h (r\<lparr>rq_URLParam := params\<rparr>))"
        "\<lambda>resp. metric_then (HTTPRequestsTotal pattern (rq_Method r) (Itoa (captured_status resp))) (Ret resp)" orc w] assms(1-3)
    by (auto simp: NewRouter_def MetricsMiddleware_def RecoveryMiddleware_def chi_dispatch_def route_pattern_def Let_def)
  ultimately show ?thesis by (simp add: run_metric_then counted_def)
qed

lemma routes [simp]:
  "find_route (route_table A rec) ''GET'' ''/healthz'' = HealthzHandler rec"
  "find_route (route_table A rec) ''POST'' ''/api/sales'' = CreateSale_handler A"
  "find_route (route_table A rec) ''GET'' ''/api/sales/{id}'' = GetSale_handler A"
  "find_route (route_table A rec) ''PATCH'' ''/api/sales/{id}/status'' = UpdateSaleStatus_handler A"
  "find_route (route_table A rec) ''POST'' ''/api/sales/{id}/reserve'' = RateLimitMiddleware A (Reserve_handler A)"
  "find_route (route_table A rec) ''POST'' ''/api/sales/{id}/waitlist'' = RateLimitMiddleware A (Join_handler A)"
  "find_route (route_table A rec) ''GET'' ''/api/sales/{id}/waitlist/position'' = GetPosition_handler A"
  "find_route (route_table A rec) ''DELETE'' ''/api/sales/{id}/waitlist'' = Leave_handler A"
  "find_route (route_table A rec) ''POST'' ''/api/reservations/{id}/confirm'' = Confirm_handler A"
  "find_route (route_table A rec) ''DELETE'' ''/api/reservations/{id}'' = Release_handler A"
  "find_route (route_table A rec) ''GET'' ''/api/orders/{id}'' = GetOrder A"
  by (simp_all add: find_route_def route_table_def)

section \<open>The rate limiting middleware\<close>

lemma RateLimit_refused_run:
  assumes "run S (Allow (a_fmt A) (a_limiter A) (limited_user r)) orc w = (Returned (Inr (False, n)), w1)"
  shows "\<exists>resp w'. run S (RateLimitMiddleware A h r) orc w = (Returned resp, w') \<and> rs_Status resp = 429 \<and>
     redis_st w' = redis_st w1 \<and> pg_st w' = pg_st w1 \<and> published w' = published w1"
proof -
  obtain m where "run S (RateLimitMiddleware A h r) orc w = run S (limit_decision h r (Inr (False, n))) (later m orc) w1"
    using run_bind_Returned [OF assms] unfolding RateLimitMiddleware_def by metis
  then show ?thesis by (simp add: limit_decision_def run_metric_then add_header_def http_Error_def)
qed

lemma RateLimit_admitted_run:
  assumes "run S (Allow (a_fmt A) (a_limiter A) (limited_user r)) orc w = (Returned (Inr (True, n)), w1)"
  obtains m where "\<And>resp w'. run S (h r) (later m orc) w1 = (Returned resp, w') \<Longrightarrow>
     run S (RateLimitMiddleware A h r) orc w = (Returned (add_header ''X-RateLimit-Remaining'' (Itoa n) resp), w')"
proof -
  obtain m where e: "run S (RateLimitMiddleware A h r) orc w = run S (limit_decision h r (Inr (True, n))) (later m orc) w1"
    using run_bind_Returned [OF assms] unfolding RateLimitMiddleware_def by metis
  show thesis by (rule that [of m]) (simp add: e limit_decision_def run_bind_Ret)
qed

section \<open>The reserve endpoint\<close>

text \<open>A well-formed request to \<open>POST /api/sales/{id}/reserve\<close>.\<close>

definition reserve_request :: "api \<Rightarrow> bool \<Rightarrow> request \<Rightarrow> uuid \<Rightarrow> ReserveRequest \<Rightarrow> bool" where
  "reserve_request A rec r sale req \<longleftrightarrow> rq_Method r = ''POST'' \<and>
     (\<exists>params. a_chi A (map fst (route_table A rec)) ''POST'' (rq_Path r) = Matched ''/api/sales/{id}/reserve'' params \<and>
        uuid_Parse (a_uuid A) (params ''id'') = Some sale) \<and>
     dec_reserve A (rq_Body r) = Some req"

definition reserve_response :: "api \<Rightarrow> Reservation res \<Rightarrow> response" where
  "reserve_response A x = (case x of
       Inl e \<Rightarrow> if error_text (a_lib_text A) e = ''sold out'' then http_Error ''Sold out'' 409 else error_response A e 500
     | Inr v \<Rightarrow> write_json A 201 (JReservation v))"

lemma Reserve_handler_alt: "Reserve_handler A r =
     (case uuid_Parse (a_uuid A) (rq_URLParam r ''id'') of
        None \<Rightarrow> Ret (http_Error ''Invalid sale ID'' 400)
      | Some saleID \<Rightarrow>
      (case dec_reserve A (rq_Body r) of
        None \<Rightarrow> Ret (http_Error ''Invalid request body'' 400)
      | Some req \<Rightarrow>
      bindP (Reserve (a_uuid A) (a_reservations A) (rr_UserID req) saleID (rr_ItemID req)
               (rq_Header r ''Idempotency-Key'')) (\<lambda>x. Ret (reserve_response A x))))"
proof -
  have "(\<lambda>x. case x of Inl e \<Rightarrow> if error_text (a_lib_text A) e = ''sold out'' then Ret (http_Error ''Sold out'' 409)
          else Ret (error_response A e 500) | Inr v \<Rightarrow> Ret (write_json A 201 (JReservation v))) = (\<lambda>x. Ret (reserve_response A x))"
    by (auto simp: reserve_response_def fun_eq_iff split: sum.split)
  then show ?thesis unfolding Reserve_handler_def by (simp only:)
qed

text \<open>Once admitted, the client gets the service's result.\<close>

lemma reserve_admitted_run:
  assumes req: "reserve_request A rec r sale req"
    and allow: "run S (Allow (a_fmt A) (a_limiter A) (limited_user r)) orc w = (Returned (Inr (True, n)), w1)"
  obtains m where "\<And>x w2. run S (Reserve (a_uuid A) (a_reservations A) (rr_UserID req) sale (rr_ItemID req)
        (rq_Header r ''Idempotency-Key'')) (later m orc) w1 = (Returned x, w2) \<Longrightarrow>
      \<exists>resp w'. run S (NewRouter A rec r) orc w = (Returned resp, w') \<and>
        rs_Status resp = rs_Status (reserve_response A x) \<and> rs_Body resp = rs_Body (reserve_response A x) \<and>
        redis_st w' = redis_st w2 \<and> pg_st w' = pg_st w2 \<and> published w' = published w2"
proof -
  obtain params where p: "rq_Method r = ''POST''" "dec_reserve A (rq_Body r) = Some req"
    "a_chi A (map fst (route_table A rec)) (rq_Method r) (rq_Path r) = Matched ''/api/sales/{id}/reserve'' params"
    "uuid_Parse (a_uuid A) (params ''id'') = Some sale"
    using req by (auto simp: reserve_request_def)
  let ?r = "r\<lparr>rq_URLParam := params\<rparr>"
  have "limited_user ?r = limited_user r" by (simp add: limited_user_def)
  with allow obtain m where m: "\<And>resp w'. run S (Reserve_handler A ?r) (later m orc) w1 = (Returned resp, w') \<Longrightarrow>
     run S (RateLimitMiddleware A (Reserve_handler A) ?r) orc w = (Returned (add_header ''X-RateLimit-Remaining'' (Itoa n) resp), w')"
    using RateLimit_admitted_run [of S A ?r orc w n w1] by metis
  show thesis
  proof (rule that)
    fix x w2 assume "run S (Reserve (a_uuid A) (a_reservations A) (rr_UserID req) sale (rr_ItemID req)
        (rq_Header r ''Idempotency-Key'')) (later m orc) w1 = (Returned x, w2)"
    then have "run S (Reserve_handler A ?r) (later m orc) w1 = (Returned (reserve_response A x), w2)"
      using p by (simp add: Reserve_handler_alt run_bind_Ret)
    from NewRouter_run [OF p(3), where h = "RateLimitMiddleware A (Reserve_handler A)", OF _ _ m [OF this]] show "\<exists>resp w'. run S (NewRouter A rec r) orc w = (Returned resp, w') \<and>
        rs_Status resp = rs_Status (reserve_response A x) \<and> rs_Body resp = rs_Body (reserve_response A x) \<and>
        redis_st w' = redis_st w2 \<and> pg_st w' = pg_st w2 \<and> published w' = published w2"
      by (simp add: p(1) add_header_def)
  qed
qed

lemma reserve_refused_run:
  assumes req: "reserve_request A rec r sale req"
    and allow: "run S (Allow (a_fmt A) (a_limiter A) (limited_user r)) orc w = (Returned (Inr (False, n)), w1)"
  shows "\<exists>resp w'. run S (NewRouter A rec r) orc w = (Returned resp, w') \<and> rs_Status resp = 429 \<and>
     redis_st w' = redis_st w1 \<and> pg_st w' = pg_st w1 \<and> published w' = published w1"
proof -
  obtain params where p: "rq_Method r = ''POST''"
    "a_chi A (map fst (route_table A rec)) (rq_Method r) (rq_Path r) = Matched ''/api/sales/{id}/reserve'' params"
    using req by (auto simp: reserve_request_def)
  have "limited_user (r\<lparr>rq_URLParam := params\<rparr>) = limited_user r" by (simp add: limited_user_def)
  with allow RateLimit_refused_run [of S A "r\<lparr>rq_URLParam := params\<rparr>" orc w n w1] obtain resp w' where
    "run S (RateLimitMiddleware A (Reserve_handler A) (r\<lparr>rq_URLParam := params\<rparr>)) orc w = (Returned resp, w')"
    "rs_Status resp = 429" "redis_st w' = redis_st w1" "pg_st w' = pg_st w1" "published w' = published w1" by metis
  moreover from this(1) have "run S (NewRouter A rec r) orc w = (Returned resp, counted resp ''/api/sales/{id}/reserve'' ''POST'' w')"
    using NewRouter_run [OF p(2), where h = "RateLimitMiddleware A (Reserve_handler A)"] p(1) by simp
  ultimately show ?thesis by simp
qed

context services
begin

lemma Allow_admits:
  assumes l: "limiter_ok S fmt l C" and b: "bucket_at w u = Some b" and now: "now = unix_milli (ch_now (orc 0))" "\<bar>now\<bar> \<le> 2 ^ 53"
    and del: "delivered orc" and t: "t = refilled (lua_round (srv_redis S)) (capacity l) (ratePerSec l) (of_int now) b"
  shows "t < 1 \<Longrightarrow> \<exists>w1. run S (Allow fmt l u) orc w = (Returned (Inr (False, 0)), w1) \<and> ks w1 = ks w \<and>
      pg_st w1 = pg_st w \<and> published w1 = published w"
    and "1 \<le> t \<Longrightarrow> \<exists>n w1. run S (Allow fmt l u) orc w = (Returned (Inr (True, n)), w1) \<and>
      (\<forall>k. k \<noteq> ratelimitKey u \<longrightarrow> ks w1 k = ks w k) \<and> pg_st w1 = pg_st w \<and> published w1 = published w"
proof -
  let ?res = "take_token (lua_round (srv_redis S)) (capacity l) (ratePerSec l) (of_int now) b"
  have c: "capacity l = of_int C" "C \<le> 2 ^ 53" using l unfolding limiter_ok_def by metis+
  obtain w1 where w1: "run S (Allow fmt l u) orc w = (Returned (Inr (if fst ?res = - 1 then (False, 0) else (True, fst ?res))), w1)"
    "fst ?res = - 1 \<Longrightarrow> ks w1 = ks w" "\<forall>k. k \<noteq> ratelimitKey u \<longrightarrow> ks w1 k = ks w k" "pg_st w1 = pg_st w"
    "published w1 = published w"
    using Allow_run [OF l b now(2) [unfolded now(1)] del] now(1) by auto
  show "t < 1 \<Longrightarrow> \<exists>w1. run S (Allow fmt l u) orc w = (Returned (Inr (False, 0)), w1) \<and> ks w1 = ks w \<and>
      pg_st w1 = pg_st w \<and> published w1 = published w"
    using w1 by (simp add: take_token_def t [symmetric])
  assume "1 \<le> t"
  moreover from this have "0 \<le> lua_round (srv_redis S) (t - 1)"
    using spent_tokens(1) [of t C] c refilled_le [of "lua_round (srv_redis S)" "capacity l"] t by simp
  then have "\<lfloor>lua_round (srv_redis S) (t - 1)\<rfloor> \<noteq> - 1" by linarith
  ultimately have "fst ?res \<noteq> - 1" by (simp add: take_token_def t [symmetric])
  with w1 show "\<exists>n w1. run S (Allow fmt l u) orc w = (Returned (Inr (True, n)), w1) \<and>
      (\<forall>k. k \<noteq> ratelimitKey u \<longrightarrow> ks w1 k = ks w k) \<and> pg_st w1 = pg_st w \<and> published w1 = published w" by auto
qed

end

context shop
begin

lemma endpoint_sold_out:
  assumes A: "a_uuid A = L" and del: "delivered orc" and req: "reserve_request A rec r sale req"
    and key: "key = rq_Header r ''Idempotency-Key''" "key = [] \<or> ks w (idempotencyKeyName (uuid_String L sale) key) = None"
    and allow: "run S (Allow (a_fmt A) (a_limiter A) (limited_user r)) orc w = (Returned (Inr (True, n)), w1)"
      "\<forall>k. k \<noteq> ratelimitKey (limited_user r) \<longrightarrow> ks w1 k = ks w k" "pg_st w1 = pg_st w" "published w1 = published w"
    and stock: "no_stock (ks w) (availableKey (uuid_String L sale))"
  shows "\<exists>resp w'. run S (NewRouter A rec r) orc w = (Returned resp, w') \<and> rs_Status resp = 409 \<and>
    (\<forall>k. k \<noteq> ratelimitKey (limited_user r) \<longrightarrow> ks w' k = ks w k) \<and> pg_st w' = pg_st w \<and> published w' = published w"
proof -
  obtain m where m: "\<And>x w2. run S (Reserve L (a_reservations A) (rr_UserID req) sale (rr_ItemID req) key) (later m orc) w1 =
        (Returned x, w2) \<Longrightarrow> \<exists>resp w'. run S (NewRouter A rec r) orc w = (Returned resp, w') \<and>
        rs_Status resp = rs_Status (reserve_response A x) \<and> rs_Body resp = rs_Body (reserve_response A x) \<and>
        redis_st w' = redis_st w2 \<and> pg_st w' = pg_st w2 \<and> published w' = published w2"
    using reserve_admitted_run [OF req allow(1)] unfolding A key(1) by metis
  have "no_stock (ks w1) (availableKey (uuid_String L sale))" using stock allow(2) by (simp add: no_stock_def)
  moreover have "key = [] \<or> ks w1 (idempotencyKeyName (uuid_String L sale) key) = None"
    using key(2) allow(2) ratelimit_key_distinct(5) by metis
  ultimately obtain w2 where "run S (Reserve L (a_reservations A) (rr_UserID req) sale (rr_ItemID req) key) (later m orc) w1 =
      (Returned (Inl (Errorf ''sold out'')), w2)" "ks w2 = ks w1" "pg_st w2 = pg_st w1" "published w2 = published w1"
    using Reserve_sold_out_run [of "later m orc" w1 sale key] del by (metis later_simps(3))
  with m [of "Inl (Errorf ''sold out'')" w2] allow(2-4) show ?thesis
    by (fastforce simp: reserve_response_def http_Error_def)
qed

lemma endpoint_success:
  assumes A: "a_uuid A = L" and del: "delivered orc" and req: "reserve_request A rec r sale req"
    and key: "key = rq_Header r ''Idempotency-Key''" "key = [] \<or> ks w (idempotencyKeyName (uuid_String L sale) key) = None"
    and allow: "run S (Allow (a_fmt A) (a_limiter A) (limited_user r)) orc w = (Returned (Inr (True, n)), w1)"
      "\<forall>k. k \<noteq> ratelimitKey (limited_user r) \<longrightarrow> ks w1 k = ks w k" "pg_st w1 = pg_st w" "published w1 = published w"
    and stock: "has_stock (ks w) (uuid_String L sale) u v" "0 < u" "in64 (v + 1)"
    and ok: "\<forall>n. reservation_ok (tb w) (new_reservation (a_reservations A) (rr_UserID req) sale (rr_ItemID req) (later n orc))"
  shows "\<exists>resp w' x. run S (NewRouter A rec r) orc w = (Returned resp, w') \<and> rs_Status resp = 201 \<and>
    rs_Body resp = enc_json A (JReservation x) \<and> res_UserID x = rr_UserID req \<and> res_SaleID x = sale \<and>
    t_reservations (tb w') = t_reservations (tb w) @ [(stored_reservation x, False)] \<and>
    has_stock (ks w') (uuid_String L sale) (u - 1) (v + 1)"
proof -
  obtain m where m: "\<And>x w2. run S (Reserve L (a_reservations A) (rr_UserID req) sale (rr_ItemID req) key) (later m orc) w1 =
        (Returned x, w2) \<Longrightarrow> \<exists>resp w'. run S (NewRouter A rec r) orc w = (Returned resp, w') \<and>
        rs_Status resp = rs_Status (reserve_response A x) \<and> rs_Body resp = rs_Body (reserve_response A x) \<and>
        redis_st w' = redis_st w2 \<and> pg_st w' = pg_st w2 \<and> published w' = published w2"
    using reserve_admitted_run [OF req allow(1)] unfolding A key(1) by metis
  have st: "has_stock (ks w1) (uuid_String L sale) u v" using stock(1) allow(2) by (simp add: has_stock_def stock_at_def)
  have k: "key = [] \<or> ks w1 (idempotencyKeyName (uuid_String L sale) key) = None"
    using key(2) allow(2) ratelimit_key_distinct(5) by metis
  have sh: "shift (later j orc) = later (Suc j) orc" for j by (simp add: shift_def later_def)
  define x where "x = new_reservation (a_reservations A) (rr_UserID req) sale (rr_ItemID req)
    (if key = [] then shift (later m orc) else shift (shift (later m orc)))"
  have "reservation_ok (tb w1) x" using ok allow(3) by (simp add: x_def sh)
  from Reserve_run [OF _ st stock(2,3) k x_def this] del obtain w2 where
    w2: "run S (Reserve L (a_reservations A) (rr_UserID req) sale (rr_ItemID req) key) (later m orc) w1 = (Returned (Inr x), w2)"
      "ks w2 = reserved_keys L (a_reservations A) x key (set_counters (uuid_String L sale) (u - 1) (v + 1) (ks w1))"
      "t_reservations (tb w2) = t_reservations (tb w1) @ [(stored_reservation x, False)]"
    by auto
  have x: "res_UserID x = rr_UserID req" "res_SaleID x = sale" by (simp_all add: x_def new_reservation_def)
  have "in64 (u - 1)" using stock has_stockD(3) [OF stock(1)] by (simp add: in64_def)
  then have "has_stock (ks w2) (uuid_String L sale) (u - 1) (v + 1)"
    using stock(3) by (simp add: w2(2) has_stock_def stock_at_def reserved_keys_def set_counters_def Let_def x codec_keys)
  with m [OF w2(1)] w2(3) allow(3) x show ?thesis by (fastforce simp: reserve_response_def write_json_def)
qed

end

section \<open>Properties\<close>


text \<open>A small API for the witnesses: every request is routed to one endpoint of the demo sale.\<close>

definition demo_enc :: "idempotencyEntry \<Rightarrow> string" where
  "demo_enc e = Itoa (ie_Status e) @ '':'' @ ie_Body e"

definition demo_dec :: "string \<Rightarrow> idempotencyEntry option" where
  "demo_dec s = map_option (\<lambda>i. \<lparr>ie_Status = i, ie_Body = tl (dropWhile (\<lambda>c. c \<noteq> CHR '':'') s)\<rparr>)
     (read_int (takeWhile (\<lambda>c. c \<noteq> CHR '':'') s))"

definition demo_api :: "string \<Rightarrow> string \<Rightarrow> api" where
  "demo_api pattern i = \<lparr>a_uuid = canonical_uuid, a_fmt = show_rat, a_lib_text = (\<lambda>_. []),
     a_chi = (\<lambda>_ _ _. Matched pattern (\<lambda>_. i)), dec_reserve = (\<lambda>_. Some \<lparr>rr_UserID = 1, rr_ItemID = 5\<rparr>),
     dec_sale = (\<lambda>_. None), dec_status = Some, dec_join = (\<lambda>_. Some 1), enc_json = (\<lambda>_. ''{}''),
     dec_entry = demo_dec, enc_entry = demo_enc, enc_snapshot = Itoa, a_upgrade = (\<lambda>_. None),
     a_promhttp = (\<lambda>_. write_header 200), a_limiter = demo_limiter, a_reservations = demo_svc\<rparr>"

definition demo_request :: "string \<Rightarrow> string \<Rightarrow> request" where
  "demo_request method key = \<lparr>rq_Method = method, rq_Path = ''/'', rq_Header = (\<lambda>h. if h = ''Idempotency-Key'' then key else []),
     rq_Query = (\<lambda>_. []), rq_URLParam = (\<lambda>_. []), rq_Body = [], rq_RemoteAddr = ''1.2.3.4:5''\<rparr>"

lemma demo_dec_enc: "demo_dec (demo_enc e) = Some e"
proof -
  have "CHR '':'' \<notin> set (Itoa i)" for i using digit_range [of "CHR '':''"] by (auto simp: Itoa_def)
  then have "takeWhile (\<lambda>c. c \<noteq> CHR '':'') (Itoa i @ CHR '':'' # xs) = Itoa i"
    "dropWhile (\<lambda>c. c \<noteq> CHR '':'') (Itoa i @ CHR '':'' # xs) = CHR '':'' # xs" for i xs
    by (auto simp: takeWhile_append dropWhile_append takeWhile_eq_all_conv dropWhile_eq_Nil_conv)
  then show ?thesis by (simp add: demo_dec_def demo_enc_def read_int_Itoa)
qed

lemma demo_reserve_request: "reserve_request (demo_api ''/api/sales/{id}/reserve'' demo_id) True (demo_request ''POST'' key) 7
    \<lparr>rr_UserID = 1, rr_ItemID = 5\<rparr>"
  by (simp add: reserve_request_def demo_api_def demo_request_def demo_id_def canonical.parse_string)

lemma demo_fresh: "reservation_ok demo_db (new_reservation svc 1 7 5 orc)"
  by (rule demo_reservation_ok) (simp_all add: demo_db_def)


section \<open>Status codes\<close>

text \<open>The statuses each endpoint may answer with, whatever happens below it.\<close>

definition status_table :: "((string \<times> string) \<times> int list) list" where
  "status_table =
     [((''GET'', ''/healthz''), [200, 503]),
      ((''POST'', ''/api/sales''), [201, 400, 500]),
      ((''GET'', ''/api/sales/{id}''), [200, 400, 404, 500]),
      ((''PATCH'', ''/api/sales/{id}/status''), [204, 400, 500]),
      ((''POST'', ''/api/sales/{id}/reserve''), [201, 400, 409, 429, 500]),
      ((''POST'', ''/api/sales/{id}/waitlist''), [201, 400, 409, 429, 500]),
      ((''GET'', ''/api/sales/{id}/waitlist/position''), [200, 400, 404, 500]),
      ((''DELETE'', ''/api/sales/{id}/waitlist''), [204, 400, 500]),
      ((''POST'', ''/api/reservations/{id}/confirm''), [200, 400, 500]),
      ((''DELETE'', ''/api/reservations/{id}''), [204, 400, 500]),
      ((''GET'', ''/api/orders/{id}''), [200, 400, 404, 500])]"

lemma all_rets_run: "all_rets P p \<Longrightarrow> run S p orc w = (Returned a, w') \<Longrightarrow> P a"
proof (induction p arbitrary: orc w)
  case (Call c k)
  then show ?case by (auto simp: run.simps(3) intro: Call.IH [OF rangeI])
qed auto

lemma all_rets_recovering: "all_rets P p \<Longrightarrow> P (http_Error ''Internal server error'' 500) \<Longrightarrow> all_rets P (recovering p)"
  by (induction p) auto

abbreviation answers_in :: "int list \<Rightarrow> response prog \<Rightarrow> bool" where
  "answers_in cs p \<equiv> all_rets (\<lambda>resp. rs_Status resp \<in> set cs) p"

lemma status_simps [simp]: "rs_Status (http_Error m c) = c" "rs_Status (write_header c) = c"
  "rs_Status (write_json A c j) = c" "rs_Status (add_header k v r) = rs_Status r"
  by (simp_all add: http_Error_def write_header_def write_json_def add_header_def)

lemma all_rets_case_option: "all_rets P p \<Longrightarrow> (\<And>v. all_rets P (g v)) \<Longrightarrow> all_rets P (case_option p g y)"
  by (cases y) auto

lemma all_rets_bind_map: "all_rets (\<lambda>a. P (f a)) p \<Longrightarrow> all_rets P (bindP p (\<lambda>a. Ret (f a)))"
  by (induction p) auto

lemma RateLimit_status:
  assumes "\<And>r. answers_in cs (h r)" "429 \<in> set cs" "500 \<in> set cs"
  shows "answers_in cs (RateLimitMiddleware A h r)"
  using assms by (auto simp: RateLimitMiddleware_def limit_decision_def metric_then_def intro!: all_rets_bind all_rets_bind_map
      split: sum.split)

lemma all_rets_case_sum: "(\<And>e. all_rets P (f e)) \<Longrightarrow> (\<And>v. all_rets P (g v)) \<Longrightarrow> all_rets P (case_sum f g y)"
  by (cases y) auto

lemma handler_answers:
  "answers_in [201, 400, 409, 429, 500] (Reserve_handler A r)" "answers_in [201, 400, 409, 429, 500] (Join_handler A r)"
  "answers_in [200, 503] (HealthzHandler rec r)" "answers_in [201, 400, 500] (CreateSale_handler A r)"
  "answers_in [200, 400, 404, 500] (GetSale_handler A r)" "answers_in [204, 400, 500] (UpdateSaleStatus_handler A r)"
  "answers_in [200, 400, 404, 500] (GetPosition_handler A r)" "answers_in [204, 400, 500] (Leave_handler A r)"
  "answers_in [200, 400, 500] (Confirm_handler A r)" "answers_in [204, 400, 500] (Release_handler A r)"
  "answers_in [200, 400, 404, 500] (GetOrder A r)"
  unfolding Reserve_handler_def Join_handler_def HealthzHandler_def CreateSale_handler_def GetSale_handler_def
    UpdateSaleStatus_handler_def GetPosition_handler_def Leave_handler_def Confirm_handler_def Release_handler_def GetOrder_def
  by (auto intro!: all_rets_case_option all_rets_bind all_rets_case_sum)

lemma handler_status:
  assumes "((m, p), cs) \<in> set status_table"
  shows "answers_in cs (find_route (route_table A rec) m p r)"
  using assms unfolding status_table_def list.set insert_iff prod.inject empty_iff
  by (elim disjE conjE FalseE; simp only: routes handler_answers; intro RateLimit_status handler_answers; simp)

lemma exec_uncounted:
  "exec S ch c w = (r, w') \<Longrightarrow> orderly c \<Longrightarrow> filter http_metric (metrics w') = filter http_metric (metrics w)"
  by (cases c) (auto simp: exec_def serve_def split: delivery.splits hub_call.splits if_splits prod.splits)

lemma run_uncounted:
  "all_calls orderly p \<Longrightarrow> run S p orc w = (res, w') \<Longrightarrow> filter http_metric (metrics w') = filter http_metric (metrics w)"
proof (induction p arbitrary: orc w)
  case (Call c k)
  obtain r w1 where e: "exec S (orc 0) c w = (r, w1)" by fastforce
  with Call.prems have "run S (k r) (shift orc) w1 = (res, w')" "all_calls orderly (k r)" "orderly c" by (auto simp: run.simps(3))
  with Call.IH [OF rangeI] exec_uncounted [OF e] show ?case by metis
qed auto



section \<open>The replay cache\<close>

context services
begin

lemma cache_response_run:
  assumes "delivered orc"
  shows "\<exists>w'. run S (cache_response A key resp) orc w = (Returned resp, w') \<and> pg_st w' = pg_st w \<and>
     ks w' = (ks w)(key \<mapsto> (Str (enc_entry A \<lparr>ie_Status = captured_status resp, ie_Body = rs_Body resp\<rparr>), ttl_arg (24 * 3600 * second)))"
  using assms by (simp add: cache_response_def Redis_Set_def run_delivered)

lemma Redis_Get_run:
  assumes "delivered orc"
  shows "\<exists>w'. run S (Redis_Get key) orc w = (Returned (case ks w key of Some (Str s, _) \<Rightarrow> Inr s | None \<Rightarrow> Inl RedisNil
       | Some _ \<Rightarrow> Inl (RedisErr ''WRONGTYPE'')), w') \<and> ks w' = ks w \<and> pg_st w' = pg_st w \<and> published w' = published w"
  using assms by (auto simp: Redis_Get_def run_delivered get_reply get_string_def split: option.split rval.split)

lemma idempotency_stored:
  assumes del: "delivered orc" and post: "rq_Method r = ''POST''" "rq_Header r ''Idempotency-Key'' = k" "k \<noteq> []"
    and new: "ks w (idempotency_cache_key k) = None"
    and run: "run S (IdempotencyMiddleware A h r) orc w = (Returned resp, w')"
  shows "\<exists>t. ks w' (idempotency_cache_key k) =
    Some (Str (enc_entry A \<lparr>ie_Status = captured_status resp, ie_Body = rs_Body resp\<rparr>), t)"
proof -
  obtain w1 where "run S (Redis_Get (idempotency_cache_key k)) orc w = (Returned (Inl RedisNil), w1)"
    using Redis_Get_run [OF del, of "idempotency_cache_key k" w] new by auto
  then obtain n where "run S (bindP (Redis_Get (idempotency_cache_key k)) (replay_or_run A h r (idempotency_cache_key k))) orc w =
      run S (replay_or_run A h r (idempotency_cache_key k) (Inl RedisNil)) (later n orc) w1"
    by (rule run_bind_Returned)
  then have "run S (IdempotencyMiddleware A h r) orc w =
      run S (bindP (h r) (cache_response A (idempotency_cache_key k))) (later n orc) w1"
    using post by (simp add: IdempotencyMiddleware_def replay_or_run_def cached_entry_def Let_def)
  with run have "run S (bindP (h r) (cache_response A (idempotency_cache_key k))) (later n orc) w1 = (Returned resp, w')" by simp
  moreover obtain m where "run S (bindP (h r) (cache_response A (idempotency_cache_key k))) (later n orc) w1 =
     (case run S (h r) (later n orc) w1 of (Returned a, w') \<Rightarrow> run S (cache_response A (idempotency_cache_key k) a) (later m (later n orc)) w'
      | (Panicked, w') \<Rightarrow> (Panicked, w'))"
    using run_bind [of S "h r" "cache_response A (idempotency_cache_key k)" "later n orc" w1] by blast
  ultimately obtain a w2 where "run S (cache_response A (idempotency_cache_key k) a) (later m (later n orc)) w2 = (Returned resp, w')"
    by (auto split: prod.splits outcome.splits)
  with cache_response_run [of "later m (later n orc)" A "idempotency_cache_key k" a w2] del show ?thesis by auto
qed

lemma idempotency_replayed:
  assumes del: "delivered orc" and post: "rq_Method r = ''POST''" "rq_Header r ''Idempotency-Key'' = k" "k \<noteq> []"
    and hit: "ks w (idempotency_cache_key k) = Some (Str s, t)" "s \<noteq> []" "dec_entry A s = Some e"
  shows "\<exists>w'. run S (IdempotencyMiddleware A h r) orc w = (Returned (replayed e), w') \<and> ks w' = ks w \<and>
     pg_st w' = pg_st w \<and> published w' = published w"
proof -
  obtain w' where w': "run S (Redis_Get (idempotency_cache_key k)) orc w = (Returned (Inr s), w')"
    "ks w' = ks w" "pg_st w' = pg_st w" "published w' = published w"
    using Redis_Get_run [OF del, of "idempotency_cache_key k" w] hit(1) by auto
  from run_bind_Returned [OF w'(1), of "replay_or_run A h r (idempotency_cache_key k)"]
  have "run S (IdempotencyMiddleware A h r) orc w = (Returned (replayed e), w')"
    using post hit by (auto simp: IdempotencyMiddleware_def replay_or_run_def cached_entry_def Let_def)
  with w' show ?thesis by blast
qed

end



text \<open>
  A confirmed order can be read back.  When \<open>Confirm\<close> has returned an order, whatever messages were lost on the way, a request for
  \<open>/api/orders/{id}\<close> with its identifier answers 200 with that order as the database holds it (its time in microseconds) and changes nothing.
\<close>

theorem order_readback:
  assumes "shop S view tables (a_uuid A)" "run S (Confirm (a_uuid A) i key) orc w = (Returned (Inr x), w1)"
    and "db_ok (tables (pg_st w1))" "delivered orc2" "rq_Method r = ''GET''"
    and "a_chi A (map fst (route_table A rec)) ''GET'' (rq_Path r) = Matched ''/api/orders/{id}'' params"
    and "params ''id'' = uuid_String (a_uuid A) (ord_ID x)"
  shows "\<exists>resp w2 y. run S (NewRouter A rec r) orc2 w1 = (Returned resp, w2) \<and> rs_Status resp = 200 \<and>
     rs_Body resp = enc_json A (JOrder y) \<and> stored_order y = stored_order x \<and> redis_st w2 = redis_st w1 \<and> pg_st w2 = pg_st w1 \<and> published w2 = published w1"
proof -
  have S: "services S view tables" using assms(1) by (rule shop.axioms(1))
  have L: "uuid_codec (a_uuid A)" using assms(1) by (rule shop.axioms(2))
  obtain y where y: "y \<in> set (t_orders (tables (pg_st w1)))" "stored_order x = stored_order y"
    using services.wp_run [OF S wp_Confirm assms(2)] by (auto simp: confirm_result_def)
  from arg_cong [OF y(2), of ord_ID] have id: "ord_ID x = ord_ID y" by simp
  from assms(3) y(1) have f: "filter (\<lambda>z. ord_ID z = ord_ID y) (t_orders (tables (pg_st w1))) = [y]"
    by (intro filter_key) (simp_all add: db_ok_def order_refs_def)
  have "run S (GetOrder A (r\<lparr>rq_URLParam := params\<rparr>)) orc2 w1 = (Returned (write_json A 200 (JOrder y)), w1)"
    using assms(4,7) f id
    by (simp add: GetOrder_def uuid_codec.parse_string [OF L] run_delivered pg_server.query [OF services.axioms(2) [OF S]])
  then have "run S (NewRouter A rec r) orc2 w1 = (Returned (write_json A 200 (JOrder y)),
      counted (write_json A 200 (JOrder y)) ''/api/orders/{id}'' ''GET'' w1)"
    using NewRouter_run [where h = "GetOrder A" and A = A and r = r and rec = rec and params = params and pattern = "''/api/orders/{id}''"]
      assms(5,6) by simp
  then show ?thesis using y(2) by (auto simp: write_json_def)
qed

theorem order_readback_witness:
  "\<exists>x w1 resp w2. run mem_services (Confirm canonical_uuid 11 ''k'') demo_orc demo_held = (Returned (Inr x), w1) \<and>
     run mem_services (NewRouter (demo_api ''/api/orders/{id}'' (uuid_String canonical_uuid (ord_ID x))) True (demo_request ''GET'' []))
       demo_orc w1 = (Returned resp, w2) \<and> rs_Status resp = 200"
proof -
  obtain x w1 where r: "run mem_services (Confirm canonical_uuid 11 ''k'') demo_orc demo_held = (Returned (Inr x), w1)"
    using mem_shop.Confirm_run [of demo_orc demo_held demo_res False 1 1 _ "''k''"] demo_held_db_ok demo_has_stock [of 1 1]
      demo_order_ok [OF demo_key(1)] by (fastforce simp: demo_in64)
  have "reachable mem_services mem_expire {void (Confirm canonical_uuid 11 ''k'')} demo_held (w1, [Ret ()])"
    using run_reachable [OF _ _ reachable.start, of mem_services "void (Confirm canonical_uuid 11 ''k'')" demo_orc demo_held w1
        "{void (Confirm canonical_uuid 11 ''k'')}" mem_expire] r by (simp add: run_void)
  from services.db_ok_reachable [OF mem_services_ok this] have ok: "db_ok (pg_st w1)" by (simp add: demo_held_db_ok)
  let ?A = "demo_api ''/api/orders/{id}'' (uuid_String canonical_uuid (ord_ID x))"
  have A: "a_uuid ?A = canonical_uuid" by (simp add: demo_api_def)
  show ?thesis
    using order_readback [of mem_services "\<lambda>r. r" "\<lambda>d. d" ?A 11 "''k''" demo_orc demo_held x w1 demo_orc "demo_request ''GET'' []" True
        "\<lambda>_. uuid_String canonical_uuid (ord_ID x)"] mem_shop_ok ok r
    by (auto simp: A demo_api_def demo_request_def)
qed

end
