(* ===== verification/Websocket_Hub.thy ===== *)
theory Websocket_Hub
  imports Prelude
begin

text \<open>
  \<open>internal/websocket/hub.go\<close> and \<open>client.go\<close>: the hub goroutine, the clients' buffered channels and their pumps, as a
  transition system.  A client is known by a number (its pointer) and lives in the store \<open>heap\<close>.  A Go channel is the list of
  its buffered values; a send on a full channel blocks, so its step is not enabled.  Closing a channel twice and
  sending on a closed one panic; in the hub's goroutine and in the fan-out goroutines nothing recovers, so the process dies (\<open>crashed\<close>).
  A room's map of clients is the list of its keys.  One case of the hub's loop is one step: while it runs, the other goroutines touch only
  channels of clients it has served or will serve, so their sends and reads can be ordered before or after it.
\<close>

section \<open>State\<close>

type_synonym client = nat

record Client =
  send :: "string list"
  send_closed :: bool
  cl_saleID :: string
  cl_userID :: string
  cl_snapshot :: bool        \<comment> \<open>the handler has sent the snapshot\<close>
  cl_started :: bool         \<comment> \<open>the handler has started the pumps\<close>
  cl_reading :: bool
  cl_writing :: bool
  cl_frames :: "string list" \<comment> \<open>the text frames written to the connection\<close>

record registration =
  reg_client :: client
  reg_saleID :: string
  reg_userID :: string

record BroadcastMsg =
  bc_SaleID :: string
  bc_Payload :: string

record Hub =
  rooms :: "string \<Rightarrow> client list option"
  userRooms :: "string \<Rightarrow> client list option"
  ch_register :: "registration list"
  ch_unregister :: "client list"
  ch_broadcast :: "BroadcastMsg list"
  pending :: "client list"                          \<comment> \<open>goroutines blocked in \<open>Unregister\<close>\<close>
  user_sends :: "(client \<times> string) list"            \<comment> \<open>\<open>PublishToUser\<close> in progress\<close>
  heap :: "client \<Rightarrow> Client option"
  connections :: int                                \<comment> \<open>the gauge \<open>WebSocketConnections\<close>\<close>
  crashed :: bool

definition NewHub :: Hub where
  "NewHub = \<lparr>rooms = Map.empty, userRooms = Map.empty, ch_register = [], ch_unregister = [], ch_broadcast = [],
     pending = [], user_sends = [], heap = Map.empty, connections = 0, crashed = False\<rparr>"

definition NewClient :: Client where
  "NewClient = \<lparr>send = [], send_closed = False, cl_saleID = [], cl_userID = [], cl_snapshot = False, cl_started = False,
     cl_reading = False, cl_writing = False, cl_frames = []\<rparr>"

definition send_cap :: nat where "send_cap = 256"
definition register_cap :: nat where "register_cap = 256"
definition unregister_cap :: nat where "unregister_cap = 256"
definition broadcast_cap :: nat where "broadcast_cap = 1024"

section \<open>Operations\<close>

definition room_add :: "string \<Rightarrow> client \<Rightarrow> (string \<Rightarrow> client list option) \<Rightarrow> string \<Rightarrow> client list option" where
  "room_add k c m = (if k = [] then m
     else m(k \<mapsto> (case m k of None \<Rightarrow> [c] | Some cs \<Rightarrow> if c \<in> set cs then cs else cs @ [c])))"

definition room_del :: "string \<Rightarrow> client \<Rightarrow> (string \<Rightarrow> client list option) \<Rightarrow> string \<Rightarrow> client list option" where
  "room_del k c m = (if k = [] then m
     else case m k of None \<Rightarrow> m
       | Some cs \<Rightarrow> let cs' = filter (\<lambda>d. d \<noteq> c) cs in m(k := if cs' = [] then None else Some cs'))"

definition room_clients :: "(string \<Rightarrow> client list option) \<Rightarrow> string \<Rightarrow> client list" where
  "room_clients m k = (case m k of None \<Rightarrow> [] | Some cs \<Rightarrow> cs)"

definition upd_client :: "client \<Rightarrow> (Client \<Rightarrow> Client) \<Rightarrow> Hub \<Rightarrow> Hub" where
  "upd_client c f h = h\<lparr>heap := (heap h)(c := map_option f (heap h c))\<rparr>"

definition handle_register :: "registration \<Rightarrow> Hub \<Rightarrow> Hub" where
  "handle_register reg h = h\<lparr>rooms := room_add (reg_saleID reg) (reg_client reg) (rooms h),
     userRooms := room_add (reg_userID reg) (reg_client reg) (userRooms h), connections := connections h + 1\<rparr>"

text \<open>\<open>close(client.send)\<close> panics on a closed channel.\<close>

definition close_send :: "client \<Rightarrow> Hub \<Rightarrow> Hub" where
  "close_send c h = (case heap h c of
       None \<Rightarrow> h\<lparr>crashed := True\<rparr>
     | Some cl \<Rightarrow> if send_closed cl then h\<lparr>crashed := True\<rparr>
         else (upd_client c (\<lambda>cl. cl\<lparr>send_closed := True\<rparr>) h)\<lparr>connections := connections h - 1\<rparr>)"

definition handle_unregister :: "client \<Rightarrow> Hub \<Rightarrow> Hub" where
  "handle_unregister c h = (case heap h c of
       None \<Rightarrow> h\<lparr>crashed := True\<rparr>
     | Some cl \<Rightarrow> close_send c (h\<lparr>rooms := room_del (cl_saleID cl) c (rooms h),
         userRooms := room_del (cl_userID cl) c (userRooms h)\<rparr>))"

text \<open>
  \<open>select { case client.send <- payload: default: go h.Unregister(client) }\<close>.
\<close>

definition try_send :: "string \<Rightarrow> client \<Rightarrow> Hub \<Rightarrow> Hub" where
  "try_send payload c h = (case heap h c of
       None \<Rightarrow> h\<lparr>crashed := True\<rparr>
     | Some cl \<Rightarrow>
         if send_closed cl then h\<lparr>crashed := True\<rparr>
         else if length (send cl) < send_cap then upd_client c (\<lambda>cl. cl\<lparr>send := send cl @ [payload]\<rparr>) h
         else h\<lparr>pending := pending h @ [c]\<rparr>)"

definition handle_broadcast :: "BroadcastMsg \<Rightarrow> Hub \<Rightarrow> Hub" where
  "handle_broadcast msg h = fold (try_send (bc_Payload msg)) (room_clients (rooms h) (bc_SaleID msg)) h"

definition Subscribe :: "string \<Rightarrow> string \<Rightarrow> client \<Rightarrow> Hub \<Rightarrow> Hub" where
  "Subscribe saleID userID c h =
     (upd_client c (\<lambda>cl. cl\<lparr>cl_saleID := saleID, cl_userID := userID\<rparr>) h)
       \<lparr>ch_register := ch_register h @ [\<lparr>reg_client = c, reg_saleID = saleID, reg_userID = userID\<rparr>]\<rparr>"

definition Unregister :: "client \<Rightarrow> Hub \<Rightarrow> Hub" where
  "Unregister c h = h\<lparr>ch_unregister := ch_unregister h @ [c]\<rparr>"

definition Hub_Publish :: "string \<Rightarrow> string \<Rightarrow> Hub \<Rightarrow> Hub" where
  "Hub_Publish saleID payload h = h\<lparr>ch_broadcast := ch_broadcast h @ [\<lparr>bc_SaleID = saleID, bc_Payload = payload\<rparr>]\<rparr>"

text \<open>
  \<open>PublishToUser\<close> reads the map under the lock and sends after releasing it, so the hub may act in between.
\<close>

definition Hub_PublishToUser :: "string \<Rightarrow> string \<Rightarrow> Hub \<Rightarrow> Hub" where
  "Hub_PublishToUser userID payload h =
     h\<lparr>user_sends := user_sends h @ map (\<lambda>c. (c, payload)) (room_clients (userRooms h) userID)\<rparr>"

definition DirectSend :: "client \<Rightarrow> string \<Rightarrow> Hub \<Rightarrow> Hub" where
  "DirectSend c payload h = (case heap h c of
       None \<Rightarrow> h
     | Some cl \<Rightarrow> if send_closed cl then h\<lparr>crashed := True\<rparr>
         else if length (send cl) < send_cap then upd_client c (\<lambda>cl. cl\<lparr>send := send cl @ [payload]\<rparr>) h
         else h)"

text \<open>The write pump sends all that is queued as one frame, separated by newlines.\<close>

fun frame_of :: "string list \<Rightarrow> string" where
  "frame_of [] = []"
| "frame_of [m] = m"
| "frame_of (m # ms) = m @ CHR 0x0A # frame_of ms"

definition write_frame :: "client \<Rightarrow> Hub \<Rightarrow> Hub" where
  "write_frame c h = upd_client c (\<lambda>cl. cl\<lparr>send := [], cl_frames := cl_frames cl @ [frame_of (send cl)]\<rparr>) h"

text \<open>The deferred call of the read pump: a goroutine that waits to unregister the client.\<close>

definition read_pump_exit :: "client \<Rightarrow> Hub \<Rightarrow> Hub" where
  "read_pump_exit c h = (upd_client c (\<lambda>cl. cl\<lparr>cl_reading := False\<rparr>) h)\<lparr>pending := pending h @ [c]\<rparr>"

section \<open>Steps\<close>

text \<open>
  \<open>connect\<close>, \<open>snapshot\<close> and \<open>start\<close> are the handler of one connection (package \<open>websocket\<close>, \<open>HandleWebSocket\<close>); the snapshot's
  blocking send on a closed channel panics in the handler's goroutine, which the router recovers, and the pumps then never start.
  \<open>read_end\<close> is the end of the read pump, at any time; \<open>write_out\<close> and \<open>write_end\<close> are the write pump.
  The others are the hub's loop, which takes from any of its channels, and the publishers.
\<close>

inductive hub_step :: "Hub \<Rightarrow> Hub \<Rightarrow> bool" where
  connect: "\<not> crashed h \<Longrightarrow> heap h c = None \<Longrightarrow> length (ch_register h) < register_cap \<Longrightarrow>
    hub_step h (Subscribe s u c (h\<lparr>heap := (heap h)(c \<mapsto> NewClient)\<rparr>))"
| snapshot: "\<not> crashed h \<Longrightarrow> heap h c = Some cl \<Longrightarrow> \<not> cl_snapshot cl \<Longrightarrow> \<not> cl_started cl \<Longrightarrow> \<not> send_closed cl \<Longrightarrow> length (send cl) < send_cap \<Longrightarrow>
    hub_step h (upd_client c (\<lambda>cl. cl\<lparr>send := send cl @ [p], cl_snapshot := True\<rparr>) h)"
| start: "\<not> crashed h \<Longrightarrow> heap h c = Some cl \<Longrightarrow> \<not> cl_started cl \<Longrightarrow>
    hub_step h (upd_client c (\<lambda>cl. cl\<lparr>cl_started := True, cl_reading := True, cl_writing := True\<rparr>) h)"
| register: "\<not> crashed h \<Longrightarrow> ch_register h = reg # regs \<Longrightarrow>
    hub_step h (handle_register reg (h\<lparr>ch_register := regs\<rparr>))"
| unregister: "\<not> crashed h \<Longrightarrow> ch_unregister h = c # cs \<Longrightarrow>
    hub_step h (handle_unregister c (h\<lparr>ch_unregister := cs\<rparr>))"
| broadcast: "\<not> crashed h \<Longrightarrow> ch_broadcast h = msg # msgs \<Longrightarrow>
    hub_step h (handle_broadcast msg (h\<lparr>ch_broadcast := msgs\<rparr>))"
| publish: "\<not> crashed h \<Longrightarrow> length (ch_broadcast h) < broadcast_cap \<Longrightarrow> hub_step h (Hub_Publish s p h)"
| publish_user: "\<not> crashed h \<Longrightarrow> user_sends h = [] \<Longrightarrow> hub_step h (Hub_PublishToUser u p h)"
| user_send: "\<not> crashed h \<Longrightarrow> user_sends h = (c, p) # rest \<Longrightarrow>
    hub_step h (try_send p c (h\<lparr>user_sends := rest\<rparr>))"
| enqueue_unregister: "\<not> crashed h \<Longrightarrow> pending h = cs @ c # ds \<Longrightarrow> length (ch_unregister h) < unregister_cap \<Longrightarrow>
    hub_step h (Unregister c (h\<lparr>pending := cs @ ds\<rparr>))"
| write_out: "\<not> crashed h \<Longrightarrow> heap h c = Some cl \<Longrightarrow> cl_writing cl \<Longrightarrow> send cl \<noteq> [] \<Longrightarrow> hub_step h (write_frame c h)"
| write_end: "\<not> crashed h \<Longrightarrow> heap h c = Some cl \<Longrightarrow> cl_writing cl \<Longrightarrow>
    hub_step h (upd_client c (\<lambda>cl. cl\<lparr>cl_writing := False\<rparr>) h)"
| read_end: "\<not> crashed h \<Longrightarrow> heap h c = Some cl \<Longrightarrow> cl_reading cl \<Longrightarrow>
    hub_step h (read_pump_exit c h)"

inductive hub_reachable :: "Hub \<Rightarrow> bool" where
  start: "hub_reachable NewHub"
| step: "hub_reachable h \<Longrightarrow> hub_step h h' \<Longrightarrow> hub_reachable h'"

inductive_cases hub_stepE: "hub_step h h'"

lemmas hub_ops = handle_register_def handle_unregister_def close_send_def try_send_def Subscribe_def Unregister_def
  Hub_Publish_def Hub_PublishToUser_def write_frame_def upd_client_def

lemma upd_client_simps [simp]:
  "heap (upd_client c f h) d = (if d = c then map_option f (heap h c) else heap h d)"
  "rooms (upd_client c f h) = rooms h" "userRooms (upd_client c f h) = userRooms h"
  "ch_register (upd_client c f h) = ch_register h" "ch_unregister (upd_client c f h) = ch_unregister h"
  "ch_broadcast (upd_client c f h) = ch_broadcast h" "pending (upd_client c f h) = pending h"
  "user_sends (upd_client c f h) = user_sends h" "crashed (upd_client c f h) = crashed h"
  by (simp_all add: upd_client_def)

end
