(* ===== verification/Hub_Correct.thy ===== *)
theory Hub_Correct
  imports Websocket_Hub
begin

text \<open>
  What the hub keeps and what it does not: the well-formedness of its rooms and the bounds of its channels in every reachable
  state, the delivery of a broadcast, and the executions in which it crashes.
\<close>

section \<open>The invariant\<close>

definition bounded :: "Hub \<Rightarrow> bool" where
  "bounded h \<longleftrightarrow> length (ch_register h) \<le> register_cap \<and> length (ch_unregister h) \<le> unregister_cap \<and>
     length (ch_broadcast h) \<le> broadcast_cap \<and> (\<forall>c cl. heap h c = Some cl \<longrightarrow> length (send cl) \<le> send_cap)"

definition rooms_ok :: "(Client \<Rightarrow> string) \<Rightarrow> (client \<Rightarrow> Client option) \<Rightarrow> (string \<Rightarrow> client list option) \<Rightarrow> bool" where
  "rooms_ok sel H m \<longleftrightarrow> (\<forall>k cs. m k = Some cs \<longrightarrow> k \<noteq> [] \<and> cs \<noteq> [] \<and> distinct cs \<and>
     (\<forall>c \<in> set cs. \<exists>cl. H c = Some cl \<and> sel cl = k))"

definition registered_ok :: "(client \<Rightarrow> Client option) \<Rightarrow> registration \<Rightarrow> bool" where
  "registered_ok H reg \<longleftrightarrow> (\<exists>cl. H (reg_client reg) = Some cl \<and> cl_saleID cl = reg_saleID reg \<and> cl_userID cl = reg_userID reg)"

definition known :: "Hub \<Rightarrow> client set" where
  "known h = set (ch_unregister h) \<union> set (pending h) \<union> fst ` set (user_sends h)"

definition hub_ok :: "Hub \<Rightarrow> bool" where
  "hub_ok h \<longleftrightarrow> bounded h \<and> rooms_ok cl_saleID (heap h) (rooms h) \<and> rooms_ok cl_userID (heap h) (userRooms h) \<and>
     list_all (registered_ok (heap h)) (ch_register h) \<and> known h \<subseteq> dom (heap h)"

text \<open>No step changes the rooms of an existing client.\<close>

definition heap_le :: "(client \<Rightarrow> Client option) \<Rightarrow> (client \<Rightarrow> Client option) \<Rightarrow> bool" where
  "heap_le H H' \<longleftrightarrow> (\<forall>c cl. H c = Some cl \<longrightarrow>
     (\<exists>cl'. H' c = Some cl' \<and> cl_saleID cl' = cl_saleID cl \<and> cl_userID cl' = cl_userID cl))"

lemma heap_le_refl [simp]: "heap_le H H"
  by (simp add: heap_le_def)

lemma heap_le_trans: "heap_le H H' \<Longrightarrow> heap_le H' H'' \<Longrightarrow> heap_le H H''"
  unfolding heap_le_def by metis

lemma rooms_ok_mono:
  "heap_le H H' \<Longrightarrow> rooms_ok cl_saleID H m \<Longrightarrow> rooms_ok cl_saleID H' m"
  "heap_le H H' \<Longrightarrow> rooms_ok cl_userID H m \<Longrightarrow> rooms_ok cl_userID H' m"
  unfolding rooms_ok_def heap_le_def by metis+

lemma registered_ok_mono: "heap_le H H' \<Longrightarrow> registered_ok H reg \<Longrightarrow> registered_ok H' reg"
  unfolding registered_ok_def heap_le_def by metis

lemma heap_le_dom: "heap_le H H' \<Longrightarrow> dom H \<subseteq> dom H'"
  unfolding heap_le_def by fastforce

lemma rooms_ok_add:
  assumes "rooms_ok sel H m" "\<exists>cl. H c = Some cl \<and> sel cl = k"
  shows "rooms_ok sel H (room_add k c m)"
  using assms by (auto simp: rooms_ok_def room_add_def split: option.splits)

lemma rooms_ok_del: "rooms_ok sel H m \<Longrightarrow> rooms_ok sel H (room_del k c m)"
  by (auto simp: rooms_ok_def room_del_def Let_def split: option.splits if_splits)

text \<open>Sends change buffers only, and leave at most new goroutines behind.\<close>

definition sends_only :: "client set \<Rightarrow> Hub \<Rightarrow> Hub \<Rightarrow> bool" where
  "sends_only C h h' \<longleftrightarrow> rooms h' = rooms h \<and> userRooms h' = userRooms h \<and> ch_register h' = ch_register h \<and>
     ch_unregister h' = ch_unregister h \<and> ch_broadcast h' = ch_broadcast h \<and> user_sends h' = user_sends h \<and>
     set (pending h') \<subseteq> set (pending h) \<union> C \<and> heap_le (heap h) (heap h') \<and> (bounded h \<longrightarrow> bounded h')"

lemma sends_only_trans: "sends_only C h h' \<Longrightarrow> sends_only D h' h'' \<Longrightarrow> sends_only (C \<union> D) h h''"
  unfolding sends_only_def by (auto intro: heap_le_trans)

lemma bounded_send: "bounded h \<Longrightarrow> heap h c = Some cl \<Longrightarrow> length (send cl) < send_cap \<Longrightarrow>
    bounded (upd_client c (\<lambda>cl. cl\<lparr>send := send cl @ [p]\<rparr>) h)"
  by (auto simp: bounded_def)

lemma try_send_only: "sends_only {c} h (try_send p c h)"
  by (auto simp: sends_only_def try_send_def heap_le_def bounded_send split: option.split)
     (auto simp: bounded_def)

lemma fold_send_only: "sends_only (set cs) h (fold (try_send p) cs h)"
proof (induction cs arbitrary: h)
  case Nil
  show ?case by (simp add: sends_only_def)
next
  case (Cons c cs)
  from sends_only_trans [OF try_send_only [of c h p] Cons.IH [of "try_send p c h"]] show ?case by simp
qed

lemma hub_ok_sends:
  assumes "sends_only C h h'" "hub_ok h" "C \<subseteq> dom (heap h)"
  shows "hub_ok h'"
proof -
  have h: "heap_le (heap h) (heap h')" using assms(1) by (simp add: sends_only_def)
  have "known h' \<subseteq> known h \<union> C" using assms(1) by (auto simp: sends_only_def known_def)
  then have "known h' \<subseteq> dom (heap h')" using assms(2,3) heap_le_dom [OF h] unfolding hub_ok_def by blast
  with assms(1,2) show ?thesis
    by (auto simp: hub_ok_def sends_only_def list_all_iff intro: rooms_ok_mono [OF h] registered_ok_mono [OF h])
qed

lemma rooms_ok_clients: "rooms_ok sel H m \<Longrightarrow> set (room_clients m k) \<subseteq> dom H"
  by (cases "m k") (auto simp: rooms_ok_def room_clients_def dom_def, metis)

lemma room_clients_known: "hub_ok h \<Longrightarrow> set (room_clients (rooms h) s) \<subseteq> dom (heap h)"
  "hub_ok h \<Longrightarrow> set (room_clients (userRooms h) u) \<subseteq> dom (heap h)"
  unfolding hub_ok_def using rooms_ok_clients by blast+

text \<open>Updates of a client that keep its rooms.\<close>

lemma hub_ok_upd:
  assumes "hub_ok h" "\<And>cl. cl_saleID (f cl) = cl_saleID cl \<and> cl_userID (f cl) = cl_userID cl"
    and "\<And>cl. heap h c = Some cl \<Longrightarrow> length (send (f cl)) \<le> send_cap"
  shows "hub_ok (upd_client c f h)"
proof -
  have h: "heap_le (heap h) (heap (upd_client c f h))" using assms(2) by (auto simp: heap_le_def)
  have "bounded (upd_client c f h)" using assms(1,3) by (auto simp: hub_ok_def bounded_def split: if_splits)
  moreover have "known h \<subseteq> dom (heap (upd_client c f h))" using assms(1) heap_le_dom [OF h] unfolding hub_ok_def by blast
  ultimately show ?thesis using assms(1) rooms_ok_mono [OF h] registered_ok_mono [OF h]
    by (simp add: hub_ok_def list_all_iff known_def)
qed

lemma hub_ok_flag:
  assumes "hub_ok h" "\<And>cl. cl_saleID (f cl) = cl_saleID cl \<and> cl_userID (f cl) = cl_userID cl \<and> send (f cl) = send cl"
  shows "hub_ok (upd_client c f h)"
  using assms by (intro hub_ok_upd) (auto simp: hub_ok_def bounded_def)

lemma hub_ok_connect:
  assumes "hub_ok h" "heap h c = None" "length (ch_register h) < register_cap"
  shows "hub_ok (Subscribe s u c (h\<lparr>heap := (heap h)(c \<mapsto> NewClient)\<rparr>))"
proof -
  let ?h = "Subscribe s u c (h\<lparr>heap := (heap h)(c \<mapsto> NewClient)\<rparr>)"
  have h: "heap_le (heap h) (heap ?h)" using assms(2) by (auto simp: heap_le_def Subscribe_def)
  have "bounded ?h" using assms(1,3) by (auto simp: hub_ok_def bounded_def Subscribe_def NewClient_def split: if_splits)
  moreover have "registered_ok (heap ?h) \<lparr>reg_client = c, reg_saleID = s, reg_userID = u\<rparr>"
    by (simp add: registered_ok_def Subscribe_def)
  moreover have "rooms ?h = rooms h" "userRooms ?h = userRooms h" "known ?h = known h"
    "ch_register ?h = ch_register h @ [\<lparr>reg_client = c, reg_saleID = s, reg_userID = u\<rparr>]"
    by (simp_all add: Subscribe_def known_def)
  moreover have "known h \<subseteq> dom (heap ?h)" using assms(1) heap_le_dom [OF h] unfolding hub_ok_def by blast
  ultimately show ?thesis using assms(1) rooms_ok_mono [OF h] registered_ok_mono [OF h]
    unfolding hub_ok_def by (simp add: list_all_iff)
qed

lemma hub_ok_unregister:
  assumes "hub_ok h"
  shows "hub_ok (handle_unregister c h)"
proof (cases "heap h c")
  case None
  with assms show ?thesis by (simp add: handle_unregister_def hub_ok_def bounded_def known_def)
next
  case (Some cl)
  let ?h = "h\<lparr>rooms := room_del (cl_saleID cl) c (rooms h), userRooms := room_del (cl_userID cl) c (userRooms h)\<rparr>"
  have ok: "hub_ok ?h" using assms by (simp add: hub_ok_def bounded_def known_def rooms_ok_del)
  have "hub_ok (upd_client c (\<lambda>cl. cl\<lparr>send_closed := True\<rparr>) ?h)"
    using ok by (rule hub_ok_flag) simp
  with ok Some show ?thesis
    by (simp add: handle_unregister_def close_send_def) (simp add: hub_ok_def bounded_def known_def)
qed

lemma hub_ok_step:
  assumes "hub_step h h'" "hub_ok h"
  shows "hub_ok h'"
  using assms(1)
proof cases
  case (connect c s u)
  with assms(2) show ?thesis by (simp add: hub_ok_connect)
next
  case (snapshot c cl p)
  with assms(2) show ?thesis by (auto intro!: hub_ok_upd)
next
  case (start c cl)
  with assms(2) show ?thesis by (simp add: hub_ok_flag)
next
  case (register reg regs)
  with assms(2) show ?thesis
    by (auto simp: handle_register_def hub_ok_def bounded_def known_def registered_ok_def intro!: rooms_ok_add)
next
  case (unregister c cs)
  have "hub_ok (h\<lparr>ch_unregister := cs\<rparr>)" using assms(2) unregister by (auto simp: hub_ok_def bounded_def known_def)
  with unregister show ?thesis by (simp add: hub_ok_unregister)
next
  case (broadcast msg msgs)
  have "hub_ok (h\<lparr>ch_broadcast := msgs\<rparr>)" using assms(2) broadcast by (auto simp: hub_ok_def bounded_def known_def)
  from hub_ok_sends [OF fold_send_only this room_clients_known(1) [OF this]] broadcast show ?thesis
    by (simp add: handle_broadcast_def)
next
  case (user_send c p rest)
  have "hub_ok (h\<lparr>user_sends := rest\<rparr>)" "c \<in> dom (heap h)" using assms(2) user_send by (auto simp: hub_ok_def bounded_def known_def)
  with hub_ok_sends [OF try_send_only this(1)] user_send show ?thesis by auto
next
  case (publish_user u p)
  with assms(2) room_clients_known(2) [OF assms(2), of u] show ?thesis
    by (auto simp: Hub_PublishToUser_def hub_ok_def bounded_def known_def)
next
  case (read_end c cl)
  have "hub_ok (upd_client c (\<lambda>cl. cl\<lparr>cl_reading := False\<rparr>) h)"
    using assms(2) by (simp add: hub_ok_flag)
  with read_end show ?thesis by (auto simp: read_pump_exit_def hub_ok_def bounded_def known_def)
next
  case (write_end c cl)
  with assms(2) show ?thesis by (simp add: hub_ok_flag)
next
  case (write_out c cl)
  with assms(2) show ?thesis by (auto simp: write_frame_def intro!: hub_ok_upd)
qed (use assms(2) in \<open>auto simp: Hub_Publish_def Unregister_def hub_ok_def bounded_def known_def\<close>)

lemma hub_ok_reachable: "hub_reachable h \<Longrightarrow> hub_ok h"
proof (induction rule: hub_reachable.induct)
  case start
  show ?case by (simp add: hub_ok_def NewHub_def bounded_def rooms_ok_def known_def)
next
  case (step h h')
  then show ?case by (blast intro: hub_ok_step)
qed

section \<open>Broadcasts\<close>

definition slow :: "Client \<Rightarrow> bool" where
  "slow cl \<longleftrightarrow> send_cap \<le> length (send cl)"

definition delivered_to :: "string \<Rightarrow> Client \<Rightarrow> Client" where
  "delivered_to p cl = (if slow cl then cl else cl\<lparr>send := send cl @ [p]\<rparr>)"

lemma fold_try_send:
  assumes "distinct cs" "\<forall>c \<in> set cs. \<exists>cl. heap h c = Some cl \<and> \<not> send_closed cl"
  shows "heap (fold (try_send p) cs h) = (\<lambda>c. if c \<in> set cs then map_option (delivered_to p) (heap h c) else heap h c) \<and>
     pending (fold (try_send p) cs h) = pending h @ filter (\<lambda>c. slow (the (heap h c))) cs \<and>
     crashed (fold (try_send p) cs h) = crashed h"
  using assms
proof (induction cs arbitrary: h)
  case (Cons c cs)
  obtain cl where cl: "heap h c = Some cl" "\<not> send_closed cl" using Cons.prems(2) by auto
  have eq: "heap (try_send p c h) = (heap h)(c \<mapsto> delivered_to p cl)" "crashed (try_send p c h) = crashed h"
    "pending (try_send p c h) = pending h @ (if slow cl then [c] else [])"
    using cl by (auto simp: try_send_def delivered_to_def slow_def)
  have other: "heap (try_send p c h) d = heap h d" if "d \<in> set cs" for d using that Cons.prems(1) by (auto simp: eq)
  then have fl: "filter (\<lambda>d. slow (the (heap (try_send p c h) d))) cs = filter (\<lambda>d. slow (the (heap h d))) cs"
    by (intro filter_cong) simp_all
  have "\<forall>d \<in> set cs. \<exists>cl. heap (try_send p c h) d = Some cl \<and> \<not> send_closed cl"
    using Cons.prems by (simp add: other)
  note ih = Cons.IH [OF _ this, unfolded fl]
  have "c \<notin> set cs" using Cons.prems(1) by simp
  with ih Cons.prems(1) cl other show ?case by (auto simp: eq(2,3) fun_eq_iff) (simp_all add: eq(1))
qed auto

section \<open>Properties\<close>

text \<open>
  C32: The hub's invariant.  In every reachable state the three hub channels and every client's buffer stay within their capacities, no
  room is empty or has a client twice, a client is only in the rooms of its own sale and its own user, and no room has the
  empty name.
\<close>

theorem hub_invariant:
  assumes "hub_reachable h"
  shows "length (ch_register h) \<le> 256 \<and> length (ch_unregister h) \<le> 256 \<and> length (ch_broadcast h) \<le> 1024 \<and>
     (\<forall>c cl. heap h c = Some cl \<longrightarrow> length (send cl) \<le> 256) \<and>
     (\<forall>s cs. rooms h s = Some cs \<longrightarrow> s \<noteq> [] \<and> cs \<noteq> [] \<and> distinct cs \<and>
        (\<forall>c \<in> set cs. \<exists>cl. heap h c = Some cl \<and> cl_saleID cl = s)) \<and>
     (\<forall>u cs. userRooms h u = Some cs \<longrightarrow> u \<noteq> [] \<and> cs \<noteq> [] \<and> distinct cs \<and>
        (\<forall>c \<in> set cs. \<exists>cl. heap h c = Some cl \<and> cl_userID cl = u))"
  using hub_ok_reachable [OF assms]
  by (simp add: hub_ok_def bounded_def rooms_ok_def register_cap_def unregister_cap_def broadcast_cap_def send_cap_def)

text \<open>
  C33: A broadcast reaches the room.  When the hub takes a broadcast and no client of the room has been closed, the hub goes on;
  every client of the room with space gets the payload as its last message exactly once, a client whose buffer is
  full is handed to a goroutine that unregisters it, and nobody else's buffer changes.
\<close>

theorem broadcast_delivers:
  assumes "hub_reachable h" "\<not> crashed h" "ch_broadcast h = msg # msgs" "cs = room_clients (rooms h) (bc_SaleID msg)"
    and "\<forall>c \<in> set cs. \<forall>cl. heap h c = Some cl \<longrightarrow> \<not> send_closed cl"
  shows "\<exists>h'. hub_step h h' \<and> \<not> crashed h' \<and>
     (\<forall>c cl. heap h c = Some cl \<longrightarrow> heap h' c = Some
        (if c \<in> set cs \<and> length (send cl) < 256 then cl\<lparr>send := send cl @ [bc_Payload msg]\<rparr> else cl)) \<and>
     pending h' = pending h @ filter (\<lambda>c. 256 \<le> length (send (the (heap h c)))) cs"
proof -
  let ?h = "h\<lparr>ch_broadcast := msgs\<rparr>"
  have ok: "hub_ok h" using assms(1) by (rule hub_ok_reachable)
  have "distinct cs" using ok assms(4) by (auto simp: hub_ok_def rooms_ok_def room_clients_def split: option.splits)
  moreover have "\<forall>c \<in> set cs. \<exists>cl. heap ?h c = Some cl \<and> \<not> send_closed cl"
    using assms(5) room_clients_known(1) [OF ok, of "bc_SaleID msg"] assms(4) by (auto dest!: subsetD)
  ultimately have "heap (handle_broadcast msg ?h) = (\<lambda>c. if c \<in> set cs then map_option (delivered_to (bc_Payload msg)) (heap h c) else heap h c)"
    "pending (handle_broadcast msg ?h) = pending h @ filter (\<lambda>c. slow (the (heap h c))) cs"
    "crashed (handle_broadcast msg ?h) = crashed h"
    using fold_try_send [of cs ?h "bc_Payload msg"] assms(4) by (simp_all add: handle_broadcast_def cong: if_cong)
  with hub_step.broadcast [OF assms(2,3)] assms(2) show ?thesis
    by (intro exI [of _ "handle_broadcast msg ?h"]) (auto simp: delivered_to_def slow_def send_cap_def)
qed

text \<open>
  C39: A slow client brings the server down.  Whenever a broadcast meets a client of the room whose buffer is full, an execution
  follows in which the hub closes the client's channel for being slow, the client's read pump then ends and unregisters it a
  second time, and closing the closed channel panics in the hub's goroutine.
\<close>

theorem slow_client_crashes_hub:
  assumes "\<not> crashed h" "ch_broadcast h = msg # msgs" "room_clients (rooms h) (bc_SaleID msg) = [c]"
    and "heap h c = Some cl" "\<not> send_closed cl" "cl_reading cl" "length (send cl) = 256"
    and "pending h = []" "ch_unregister h = []"
  shows "\<exists>h'. hub_step\<^sup>*\<^sup>* h h' \<and> crashed h'"
proof -
  define h1 where "h1 = handle_broadcast msg (h\<lparr>ch_broadcast := msgs\<rparr>)"
  define h2 where "h2 = Unregister c (h1\<lparr>pending := [] @ []\<rparr>)"
  define h3 where "h3 = handle_unregister c (h2\<lparr>ch_unregister := []\<rparr>)"
  define h4 where "h4 = read_pump_exit c h3"
  define h5 where "h5 = Unregister c (h4\<lparr>pending := [] @ []\<rparr>)"
  define h6 where "h6 = handle_unregister c (h5\<lparr>ch_unregister := []\<rparr>)"
  have 1: "\<not> crashed h1" "heap h1 c = Some cl" "pending h1 = [] @ c # []" "ch_unregister h1 = []"
    using assms by (simp_all add: h1_def handle_broadcast_def try_send_def send_cap_def)
  have 2: "\<not> crashed h2" "heap h2 c = Some cl" "pending h2 = []" "ch_unregister h2 = c # []"
    using 1 by (simp_all add: h2_def Unregister_def)
  have 3: "\<not> crashed h3" "heap h3 c = Some (cl\<lparr>send_closed := True\<rparr>)" "pending h3 = []" "ch_unregister h3 = []"
    using 2 assms(5) by (simp_all add: h3_def handle_unregister_def close_send_def)
  have 4: "\<not> crashed h4" "heap h4 c = Some (cl\<lparr>send_closed := True, cl_reading := False\<rparr>)" "pending h4 = [] @ c # []" "ch_unregister h4 = []"
    using 3 by (simp_all add: h4_def read_pump_exit_def)
  have 5: "\<not> crashed h5" "heap h5 c = Some (cl\<lparr>send_closed := True, cl_reading := False\<rparr>)" "ch_unregister h5 = c # []"
    using 4 by (simp_all add: h5_def Unregister_def)
  have "hub_step h h1" unfolding h1_def by (rule hub_step.broadcast [OF assms(1,2)])
  moreover have "hub_step h1 h2" unfolding h2_def by (rule hub_step.enqueue_unregister [OF 1(1,3)]) (simp add: 1 unregister_cap_def)
  moreover have "hub_step h2 h3" unfolding h3_def by (rule hub_step.unregister [OF 2(1,4)])
  moreover have "hub_step h3 h4" unfolding h4_def by (rule hub_step.read_end [OF 3(1,2)]) (simp add: assms(6))
  moreover have "hub_step h4 h5" unfolding h5_def by (rule hub_step.enqueue_unregister [OF 4(1,3)]) (simp add: 4 unregister_cap_def)
  moreover have "hub_step h5 h6" unfolding h6_def by (rule hub_step.unregister [OF 5(1,3)])
  ultimately have "hub_step\<^sup>*\<^sup>* h h6" by (meson converse_rtranclp_into_rtranclp rtranclp.rtrancl_refl)
  moreover have "crashed h6" using 5 by (simp add: h6_def handle_unregister_def close_send_def)
  ultimately show ?thesis by blast
qed

section \<open>A connected client\<close>

definition demo_client :: "nat \<Rightarrow> Client" where
  "demo_client n = \<lparr>send = replicate n ''p'', send_closed = False, cl_saleID = ''s'', cl_userID = [], cl_snapshot = False, cl_started = True,
     cl_reading = True, cl_writing = True, cl_frames = []\<rparr>"

definition demo_hub :: "nat \<Rightarrow> Hub" where
  "demo_hub n = NewHub\<lparr>rooms := [''s'' \<mapsto> [0]], heap := [0 \<mapsto> demo_client n], connections := 1\<rparr>"

lemma demo_hub_reachable: "n \<le> 256 \<Longrightarrow> hub_reachable (demo_hub n)"
proof (induction n)
  case 0
  let ?h1 = "Subscribe ''s'' [] 0 (NewHub\<lparr>heap := (heap NewHub)(0 \<mapsto> NewClient)\<rparr>)"
  let ?h2 = "handle_register \<lparr>reg_client = 0, reg_saleID = ''s'', reg_userID = []\<rparr> (?h1\<lparr>ch_register := []\<rparr>)"
  have 1: "hub_reachable ?h1"
    by (rule hub_reachable.step [OF hub_reachable.start hub_step.connect]) (simp_all add: NewHub_def register_cap_def)
  have 2: "hub_reachable ?h2"
    by (rule hub_reachable.step [OF 1 hub_step.register]) (simp_all add: NewHub_def Subscribe_def)
  have "hub_reachable (upd_client 0 (\<lambda>cl. cl\<lparr>cl_started := True, cl_reading := True, cl_writing := True\<rparr>) ?h2)"
    by (rule hub_reachable.step [OF 2 hub_step.start [where cl = "NewClient\<lparr>cl_saleID := ''s''\<rparr>"]])
       (simp_all add: NewHub_def Subscribe_def handle_register_def NewClient_def)
  moreover have "upd_client 0 (\<lambda>cl. cl\<lparr>cl_started := True, cl_reading := True, cl_writing := True\<rparr>) ?h2 = demo_hub 0"
    by (simp add: demo_hub_def demo_client_def NewHub_def Subscribe_def handle_register_def NewClient_def upd_client_def room_add_def)
  ultimately show ?case by simp
next
  case (Suc n)
  let ?h1 = "Hub_Publish ''s'' ''p'' (demo_hub n)"
  let ?h2 = "handle_broadcast \<lparr>bc_SaleID = ''s'', bc_Payload = ''p''\<rparr> (?h1\<lparr>ch_broadcast := []\<rparr>)"
  have 1: "hub_reachable ?h1"
    by (rule hub_reachable.step [OF _ hub_step.publish]) (use Suc in \<open>simp_all add: demo_hub_def NewHub_def broadcast_cap_def\<close>)
  have 2: "hub_reachable ?h2"
    by (rule hub_reachable.step [OF 1 hub_step.broadcast]) (simp_all add: Hub_Publish_def demo_hub_def NewHub_def)
  have "?h2 = demo_hub (Suc n)" using Suc.prems
    by (simp add: handle_broadcast_def Hub_Publish_def demo_hub_def NewHub_def room_clients_def try_send_def demo_client_def
        send_cap_def upd_client_def replicate_append_same)
  with 2 show ?case by simp
qed

lemma demo_hub_simps: "heap (demo_hub n) 0 = Some (demo_client n)" "rooms (demo_hub n) ''s'' = Some [0]"
  "\<not> crashed (demo_hub n)" "pending (demo_hub n) = []" "ch_unregister (demo_hub n) = []" "ch_broadcast (demo_hub n) = []"
  by (simp_all add: demo_hub_def NewHub_def)

lemma demo_publish: "n \<le> 256 \<Longrightarrow> hub_reachable (Hub_Publish ''s'' ''q'' (demo_hub n))"
  by (rule hub_reachable.step [OF demo_hub_reachable hub_step.publish]) (simp_all add: demo_hub_simps broadcast_cap_def)

theorem hub_invariant_witness: "\<exists>cl. heap (demo_hub 3) 0 = Some cl \<and> length (send cl) \<le> 256"
  using hub_invariant [OF demo_hub_reachable [of 3]] demo_hub_simps(1) by simp blast

theorem broadcast_delivers_witness:
  "\<exists>h'. hub_step (Hub_Publish ''s'' ''q'' (demo_hub 3)) h' \<and> map_option send (heap h' 0) = Some [''p'', ''p'', ''p'', ''q'']"
  using broadcast_delivers [OF demo_publish [of 3], of "\<lparr>bc_SaleID = ''s'', bc_Payload = ''q''\<rparr>" "[]" "[0]"]
  by (fastforce simp: Hub_Publish_def demo_hub_simps room_clients_def demo_client_def eval_nat_numeral)

theorem slow_client_crashes_hub_witness:
  "\<exists>h h'. hub_reachable h \<and> hub_step\<^sup>*\<^sup>* h h' \<and> crashed h'"
  using slow_client_crashes_hub [of "Hub_Publish ''s'' ''q'' (demo_hub 256)" "\<lparr>bc_SaleID = ''s'', bc_Payload = ''q''\<rparr>" "[]" 0 "demo_client 256"]
    demo_publish [of 256]
  by (auto simp: Hub_Publish_def demo_hub_simps room_clients_def demo_client_def)

end
