(* ===== verification/Server_Correct.thy ===== *)
theory Server_Correct
  imports Server_Main Http_Correct Hub_Correct
begin

text \<open>
  The way of an event from a service to a browser: \<open>splitChannel\<close> takes a channel name apart, and the fan-out loops hand the payload to
  the room in which the WebSocket handler registered the client.  Also the start-up: which scripts a client
  that was built has loaded.
\<close>

section \<open>splitChannel\<close>

fun join_colon :: "string list \<Rightarrow> string" where
  "join_colon [] = []"
| "join_colon [p] = p"
| "join_colon (p # ps) = p @ CHR '':'' # join_colon ps"

lemma join_colon_Cons: "ps \<noteq> [] \<Longrightarrow> join_colon (p # ps) = p @ CHR '':'' # join_colon ps"
  by (cases ps) simp_all

lemma join_split_first: "join_colon (split_first n s) = s"
proof (induction n s rule: split_first.induct)
  case (3 n x xs)
  show ?case
  proof (cases "x = CHR '':''")
    case True
    then show ?thesis using 3 by (simp add: join_colon_Cons)
  next
    case False
    obtain p ps where ps: "split_first (Suc n) xs = p # ps" by (cases "split_first (Suc n) xs") simp_all
    with 3 False have "join_colon (p # ps) = xs" by simp
    then have "join_colon ((x # p) # ps) = x # xs" by (cases ps) auto
    with False ps show ?thesis by simp
  qed
qed simp_all

lemma length_split_first: "length (split_first n s) = min (Suc n) (Suc (count_list s (CHR '':'')))"
proof (induction n s rule: split_first.induct)
  case (3 n x xs)
  then show ?case by (cases "split_first (Suc n) xs") auto
qed simp_all

lemma split_first_butlast: "p \<in> set (butlast (split_first n s)) \<Longrightarrow> colon_free p"
proof (induction n s arbitrary: p rule: split_first.induct)
  case (3 n x xs)
  show ?case
  proof (cases "x = CHR '':''")
    case True
    then show ?thesis using 3 by (auto simp: colon_free_def split: if_splits)
  next
    case False
    obtain q qs where q: "split_first (Suc n) xs = q # qs" by (cases "split_first (Suc n) xs") simp_all
    show ?thesis using 3 False q by (cases qs) (auto simp: colon_free_def split: if_splits)
  qed
qed simp_all

section \<open>Properties\<close>

text \<open>
  \<open>splitChannel\<close> is a split at the first two colons.  Joining the parts with colons gives the name back; there are at most three
  parts, one more than colons up to that bound; and no part but the last contains a colon.
\<close>

theorem splitChannel_spec:
  "join_colon (splitChannel s) = s \<and> length (splitChannel s) = min 3 (Suc (count_list s (CHR '':''))) \<and>
   (\<forall>p. p \<in> set (butlast (splitChannel s)) \<longrightarrow> colon_free p)"
  using split_first_butlast by (auto simp: splitChannel_first join_split_first length_split_first)

theorem splitChannel_spec_witness: "splitChannel ''sale:7:pubsub'' = [''sale'', ''7'', ''pubsub''] \<and>
    join_colon (splitChannel ''sale:7:pubsub'') = ''sale:7:pubsub''"
  using splitChannel_spec [of "''sale:7:pubsub''"] splitChannel_name [of "''sale''" "''7''" "''pubsub''"]
  by (simp add: colon_free_def)

text \<open>The hub calls of a program: it only adds to them, and adds no subscription when it makes none.\<close>

definition no_subscribe :: "cmd \<Rightarrow> bool" where
  "no_subscribe c \<longleftrightarrow> (\<forall>s u. c \<noteq> HubCall (SubscribeCall s u))"

definition no_subscription :: "hub_call list \<Rightarrow> bool" where
  "no_subscription xs \<longleftrightarrow> (\<forall>s u. SubscribeCall s u \<notin> set xs)"

lemma exec_hub_calls:
  "exec S ch c w = (r, w') \<Longrightarrow> no_subscribe c \<Longrightarrow> \<exists>xs. hub_calls w' = hub_calls w @ xs \<and> no_subscription xs"
  by (cases c) (auto simp: exec_def serve_def no_subscribe_def no_subscription_def
      split: delivery.splits hub_call.splits if_splits prod.splits)

lemma run_hub_calls:
  "all_calls no_subscribe p \<Longrightarrow> run S p orc w = (res, w') \<Longrightarrow> \<exists>xs. hub_calls w' = hub_calls w @ xs \<and> no_subscription xs"
proof (induction p arbitrary: orc w)
  case (Call c k)
  obtain r w1 where e: "exec S (orc 0) c w = (r, w1)" by fastforce
  with Call.prems have k: "run S (k r) (shift orc) w1 = (res, w')" "all_calls no_subscribe (k r)" "no_subscribe c" by (auto simp: run.simps(3))
  obtain xs ys where "hub_calls w1 = hub_calls w @ xs" "no_subscription xs" "hub_calls w' = hub_calls w1 @ ys" "no_subscription ys"
    using exec_hub_calls [OF e k(3)] Call.IH [OF rangeI k(2,1)] by blast
  then show ?case by (intro exI [of _ "xs @ ys"]) (simp add: no_subscription_def)
qed (auto simp: no_subscription_def)

lemma GetSale_no_subscribe: "all_calls no_subscribe (GetSale L s)"
  by (auto simp: GetSale_def building_blocks no_subscribe_def intro!: calls_rules)

text \<open>The room of a user that the handler asks for: the text of the query parameter when it parses as a UUID.\<close>

definition user_room :: "api \<Rightarrow> request \<Rightarrow> string" where
  "user_room A r = (if rq_Query r ''user_id'' \<noteq> [] \<and> uuid_Parse (a_uuid A) (rq_Query r ''user_id'') \<noteq> None
     then rq_Query r ''user_id'' else [])"

lemma HandleWebSocket_subscribes:
  assumes "uuid_Parse (a_uuid A) (rq_URLParam r ''id'') = Some sale" "a_upgrade A r = None"
    and "run S (HandleWebSocket A r) orc w = (res, w')"
  shows "\<exists>rest. hub_calls w' = hub_calls w @ SubscribeCall (uuid_String (a_uuid A) sale) (user_room A r) # rest \<and> no_subscription rest"
proof -
  have "\<exists>k. HandleWebSocket A r = Call (HubCall (SubscribeCall (uuid_String (a_uuid A) sale) (user_room A r))) k \<and>
      (\<forall>q. all_calls no_subscribe (k q))"
    using assms(1,2) by (simp add: HandleWebSocket_def user_room_def Let_def case_prod_beta)
      (auto intro!: calls_rules GetSale_no_subscribe simp: no_subscribe_def)
  then obtain k where k: "HandleWebSocket A r = Call (HubCall (SubscribeCall (uuid_String (a_uuid A) sale) (user_room A r))) k"
    "\<And>q. all_calls no_subscribe (k q)" by blast
  let ?w = "w\<lparr>hub_calls := hub_calls w @ [SubscribeCall (uuid_String (a_uuid A) sale) (user_room A r)]\<rparr>"
  have "run S (k Ack) (shift orc) ?w = (res, w')" using assms(3) by (simp add: k(1) run.simps(3) exec_def serve_def)
  from run_hub_calls [OF k(2) this] show ?thesis by simp
qed

lemma event_rooms:
  assumes "uuid_codec L"
  shows "fan_out_sale (saleChannel (uuid_String L s)) p h = Hub_Publish (uuid_String L s) p h"
    "fan_out_user (userChannel (uuid_String L u)) p h = Hub_PublishToUser (uuid_String L u) p h"
proof -
  have "splitChannel (saleChannel (uuid_String L s)) = [''sale'', uuid_String L s, ''pubsub'']"
    "splitChannel (userChannel (uuid_String L u)) = [''user'', uuid_String L u, ''events'']"
    using splitChannel_name [of "''sale''" "uuid_String L s" "''pubsub''"]
      splitChannel_name [of "''user''" "uuid_String L u" "''events''"] uuid_codec.string_colon_free [OF assms]
    by (simp_all add: saleChannel_def userChannel_def colon_free_def)
  then show "fan_out_sale (saleChannel (uuid_String L s)) p h = Hub_Publish (uuid_String L s) p h"
    "fan_out_user (userChannel (uuid_String L u)) p h = Hub_PublishToUser (uuid_String L u) p h"
    by (simp_all add: fan_out_sale_def fan_out_user_def)
qed

lemma room_add_member:
  assumes "\<forall>k. c \<notin> set (room_clients m k)"
  shows "c \<in> set (room_clients (room_add k c m) j) \<longleftrightarrow> j = k \<and> k \<noteq> []"
  using assms [rule_format, of k] assms [rule_format, of j] by (auto simp: room_add_def room_clients_def split: option.splits)

text \<open>
  C34: Which events reach a viewer.  A request for the WebSocket of a sale that is upgraded subscribes its client once, to the room of the sale and to
  a room of the user.  Once the hub has registered the client, an event that a service publishes on the channel of a sale is broadcast to
  a room with this client exactly when it is the sale of the request; and an event for a user is queued for this client exactly when the
  request's \<open>user_id\<close> is the identifier as the services print it.  An upper-case \<open>user_id\<close> parses and subscribes, but no event reaches it.
\<close>

theorem events_reach_room:
  assumes "uuid_codec (a_uuid A)" "uuid_Parse (a_uuid A) (rq_URLParam r ''id'') = Some sale" "a_upgrade A r = None"
    and "run S (HandleWebSocket A r) orc w = (res, w')"
    and "\<forall>k. c \<notin> set (room_clients (rooms h) k) \<and> c \<notin> set (room_clients (userRooms h) k)" "c \<notin> fst ` set (user_sends h)"
  shows "\<exists>saleID userID rest h'. hub_calls w' = hub_calls w @ SubscribeCall saleID userID # rest \<and> no_subscription rest \<and>
     h' = handle_register \<lparr>reg_client = c, reg_saleID = saleID, reg_userID = userID\<rparr> h \<and>
     (\<forall>s p. \<exists>k. fan_out_sale (saleChannel (uuid_String (a_uuid A) s)) p h' = Hub_Publish k p h' \<and>
        (c \<in> set (room_clients (rooms h') k) \<longleftrightarrow> s = sale)) \<and>
     (\<forall>u p. (c, p) \<in> set (user_sends (fan_out_user (userChannel (uuid_String (a_uuid A) u)) p h')) \<longleftrightarrow>
        rq_Query r ''user_id'' = uuid_String (a_uuid A) u)"
proof -
  let ?L = "a_uuid A"
  obtain rest where rest: "hub_calls w' = hub_calls w @ SubscribeCall (uuid_String ?L sale) (user_room A r) # rest" "no_subscription rest"
    using HandleWebSocket_subscribes [OF assms(2-4)] by blast
  define h' where "h' = handle_register \<lparr>reg_client = c, reg_saleID = uuid_String ?L sale, reg_userID = user_room A r\<rparr> h"
  note uuid = uuid_codec.string_inject [OF assms(1)] uuid_codec.string_nonempty [OF assms(1)] uuid_codec.parse_string [OF assms(1)]
  have sale: "c \<in> set (room_clients (rooms h') (uuid_String ?L s)) \<longleftrightarrow> s = sale" for s
    using room_add_member [of c "rooms h"] assms(5) uuid by (simp add: h'_def handle_register_def)
  have "c \<in> set (room_clients (userRooms h') (uuid_String ?L u)) \<longleftrightarrow> uuid_String ?L u = user_room A r" for u
    using room_add_member [of c "userRooms h"] assms(5) uuid(2) by (auto simp: h'_def handle_register_def)
  then have user: "c \<in> set (room_clients (userRooms h') (uuid_String ?L u)) \<longleftrightarrow> rq_Query r ''user_id'' = uuid_String ?L u" for u
    using uuid(2,3) [of u] by (auto simp: user_room_def)
  have "(c, p) \<in> set (user_sends (Hub_PublishToUser (uuid_String ?L u) p h')) \<longleftrightarrow> rq_Query r ''user_id'' = uuid_String ?L u" for u p
    using user [of u] assms(6) by (force simp: Hub_PublishToUser_def h'_def handle_register_def)
  with rest sale show ?thesis unfolding event_rooms [OF assms(1)] h'_def by blast
qed

theorem events_reach_room_witness:
  "\<exists>saleID userID h'. h' = handle_register \<lparr>reg_client = 0, reg_saleID = saleID, reg_userID = userID\<rparr> NewHub \<and>
     (0, ''x'') \<in> set (user_sends (fan_out_user (userChannel (uuid_String canonical_uuid 1)) ''x'' h'))"
proof -
  let ?A = "demo_api ''/ws/sales/{id}'' demo_id"
    and ?r = "(demo_request ''GET'' [])\<lparr>rq_URLParam := (\<lambda>_. demo_id), rq_Query := (\<lambda>_. uuid_String canonical_uuid 1)\<rparr>"
  have A: "a_uuid (demo_api x y) = canonical_uuid" "a_upgrade ?A ?r = None" for x y by (simp_all add: demo_api_def)
  have p: "uuid_Parse (a_uuid ?A) (rq_URLParam ?r ''id'') = Some 7" by (simp add: A demo_id_def canonical.parse_string)
  obtain res w' where r: "run mem_services (HandleWebSocket ?A ?r) demo_orc demo_world = (res, w')" by fastforce
  have c: "uuid_codec (a_uuid ?A)" by (simp add: A canonical.uuid_codec_axioms)
  have "\<forall>k. (0 :: client) \<notin> set (room_clients (rooms NewHub) k) \<and> 0 \<notin> set (room_clients (userRooms NewHub) k)"
    "(0 :: client) \<notin> fst ` set (user_sends NewHub)" by (simp_all add: NewHub_def room_clients_def)
  then obtain saleID userID h' where "h' = handle_register \<lparr>reg_client = 0, reg_saleID = saleID, reg_userID = userID\<rparr> NewHub"
    "\<forall>u p. (0, p) \<in> set (user_sends (fan_out_user (userChannel (uuid_String (a_uuid ?A) u)) p h')) \<longleftrightarrow>
       rq_Query ?r ''user_id'' = uuid_String (a_uuid ?A) u"
    using events_reach_room [OF c p A(2) r, of 0 NewHub] by blast
  then show ?thesis by (simp add: A(1)) blast
qed

end
