(* ===== verification/Event_Stream.thy ===== *)
theory Event_Stream
  imports Uuid_Keys
begin

text \<open>
  \<open>internal/streams/logger.go\<close>: writing events to a Redis stream and the consumer loop.  \<open>XADD\<close> is a parameter.  A Redis stream
  stores every field as a string, and the client library returns them as strings, so a read message is a list of
  string pairs.  \<open>encoding/json\<close> is modelled on the values that occur: marshalling a map of strings gives an object with string members,
  and unmarshalling a string into an \<open>int64\<close> field is an error.
\<close>

section \<open>Events\<close>

record StreamEvent =
  st_Type :: string
  st_UserID :: string
  st_ReservationID :: string
  st_SaleID :: string
  st_Timestamp :: int

definition streamKey :: "string \<Rightarrow> string" where
  "streamKey saleID = ''sale:'' @ saleID @ '':events''"

definition optional_value :: "string \<Rightarrow> string \<Rightarrow> (string \<times> string) list" where
  "optional_value k v = (if v \<noteq> [] then [(k, v)] else [])"

definition event_values :: "StreamEvent \<Rightarrow> (string \<times> string) list" where
  "event_values event =
     [(''type'', st_Type event), (''timestamp'', Itoa (st_Timestamp event))] @
     optional_value ''user_id'' (st_UserID event) @ optional_value ''reservation_id'' (st_ReservationID event) @
     optional_value ''sale_id'' (st_SaleID event)"

definition LogEvent :: "uuid_lib \<Rightarrow> (string \<Rightarrow> (string \<times> string) list \<Rightarrow> unit res) \<Rightarrow> uuid \<Rightarrow> StreamEvent \<Rightarrow> unit res" where
  "LogEvent L xadd saleID event =
     (case xadd (streamKey (uuid_String L saleID)) (event_values event) of
        Inl e \<Rightarrow> Inl (Wrapf ''failed to add event to stream'' e)
      | Inr _ \<Rightarrow> Inr ())"

section \<open>The consumer\<close>

datatype json = JString string | JNumber int

definition json_Marshal :: "(string \<times> string) list \<Rightarrow> (string \<times> json) list" where
  "json_Marshal values = map (\<lambda>(k, v). (k, JString v)) values"

definition json_string :: "(string \<times> json) list \<Rightarrow> string \<Rightarrow> string option" where
  "json_string obj k = (case map_of obj k of None \<Rightarrow> Some [] | Some (JString s) \<Rightarrow> Some s | Some (JNumber _) \<Rightarrow> None)"

definition json_int64 :: "(string \<times> json) list \<Rightarrow> string \<Rightarrow> int option" where
  "json_int64 obj k = (case map_of obj k of None \<Rightarrow> Some 0
     | Some (JNumber n) \<Rightarrow> if in64 n then Some n else None | Some (JString _) \<Rightarrow> None)"

definition json_Unmarshal :: "(string \<times> json) list \<Rightarrow> StreamEvent option" where
  "json_Unmarshal obj =
     (case (json_string obj ''type'', json_string obj ''user_id'', json_string obj ''reservation_id'',
            json_string obj ''sale_id'', json_int64 obj ''timestamp'') of
        (Some a, Some b, Some c, Some d, Some t) \<Rightarrow>
          Some \<lparr>st_Type = a, st_UserID = b, st_ReservationID = c, st_SaleID = d, st_Timestamp = t\<rparr>
      | _ \<Rightarrow> None)"

text \<open>
  One message: the events handed to the handler and the acknowledged identifiers.
\<close>

definition consume_message :: "(StreamEvent \<Rightarrow> unit res) \<Rightarrow> string \<Rightarrow> string \<times> (string \<times> string) list \<Rightarrow>
    StreamEvent list \<times> (string \<times> string) list" where
  "consume_message handler stream message =
     (case json_Unmarshal (json_Marshal (snd message)) of
        None \<Rightarrow> ([], [])
      | Some event \<Rightarrow>
        (case handler event of
           Inl _ \<Rightarrow> ([event], [])
         | Inr _ \<Rightarrow> ([event], [(stream, fst message)])))"

text \<open>
  One round of the loop, on the result of \<open>XREADGROUP\<close>: streams with their messages, or an error, which is only logged.
\<close>

definition consume_round :: "(StreamEvent \<Rightarrow> unit res) \<Rightarrow> (string \<times> (string \<times> (string \<times> string) list) list) list res \<Rightarrow>
    StreamEvent list \<times> (string \<times> string) list" where
  "consume_round handler result =
     (case result of
        Inl _ \<Rightarrow> ([], [])
      | Inr streams \<Rightarrow>
        (let rs = concat (map (\<lambda>(stream, msgs). map (consume_message handler stream) msgs) streams)
         in (concat (map fst rs), concat (map snd rs))))"

text \<open>
  \<open>StartConsumer\<close>, over what its loop has seen so far: the context is done, or a read has returned.
\<close>

datatype poll = ConsumerCancelled | Polled "(string \<times> (string \<times> (string \<times> string) list) list) list res"

primrec StartConsumer :: "(StreamEvent \<Rightarrow> unit res) \<Rightarrow> poll list \<Rightarrow> StreamEvent list \<times> (string \<times> string) list" where
  "StartConsumer handler [] = ([], [])"
| "StartConsumer handler (p # ps) = (case p of
       ConsumerCancelled \<Rightarrow> ([], [])
     | Polled result \<Rightarrow>
       (case (consume_round handler result, StartConsumer handler ps) of
          ((events, acks), (events', acks')) \<Rightarrow> (events @ events', acks @ acks')))"

section \<open>Properties\<close>

definition logged :: "poll \<Rightarrow> bool" where
  "logged p = (case p of Polled (Inr streams) \<Rightarrow>
       list_all (\<lambda>(stream, msgs). list_all (\<lambda>(i, values). \<exists>event. values = event_values event) msgs) streams
     | _ \<Rightarrow> True)"

lemma consume_logged: "consume_message handler stream (i, event_values event) = ([], [])"
proof -
  have "map_of (json_Marshal (event_values event)) ''timestamp'' = Some (JString (Itoa (st_Timestamp event)))"
    by (simp add: json_Marshal_def event_values_def)
  then have "json_int64 (json_Marshal (event_values event)) ''timestamp'' = None" by (simp add: json_int64_def)
  then have "json_Unmarshal (json_Marshal (event_values event)) = None"
    by (simp add: json_Unmarshal_def split: option.split)
  then show ?thesis by (simp add: consume_message_def)
qed

lemma consume_round_logged:
  assumes "logged (Polled result)"
  shows "consume_round handler result = ([], [])"
proof (cases result)
  case (Inr streams)
  then have "\<forall>r \<in> set (concat (map (\<lambda>(stream, msgs). map (consume_message handler stream) msgs) streams)). r = ([], [])"
    using assms consume_logged by (fastforce simp: logged_def list_all_iff)
  moreover have "concat (map fst rs) = []" "concat (map snd rs) = []" if "\<forall>r \<in> set rs. r = ([], [])"
    for rs :: "(StreamEvent list \<times> (string \<times> string) list) list"
    using that by (induction rs) auto
  ultimately show ?thesis by (simp only: Inr consume_round_def Let_def sum.case)
qed (simp add: consume_round_def)

text \<open>
  C40: The consumer never handles a logged event.  Whatever the loop of \<open>StartConsumer\<close> reads, and however long it runs, if every message it reads was written
  by \<open>LogEvent\<close>, the handler is called for none of them and none is acknowledged: the timestamp comes back from the stream as a string, which does not
  unmarshal into the \<open>int64\<close> field, so every event stays pending forever.
\<close>

theorem consumer_drops_logged_events:
  assumes "list_all logged polls"
  shows "StartConsumer handler polls = ([], [])"
  using assms by (induction polls) (auto simp: consume_round_logged split: poll.split)

definition demo_event :: StreamEvent where
  "demo_event = \<lparr>st_Type = ''reserved'', st_UserID = ''u'', st_ReservationID = [], st_SaleID = ''s'', st_Timestamp = 1\<rparr>"

theorem consumer_drops_logged_events_witness:
  "StartConsumer (\<lambda>_. Inr ()) [Polled (Inl NetworkErr), Polled (Inr [(''sale:s:events'', [(''1-0'', event_values demo_event)])])] = ([], [])"
  by (rule consumer_drops_logged_events) (auto simp: logged_def)

end
