(* ===== verification/Startup_Correct.thy ===== *)
theory Startup_Correct
  imports Server_Main Reconciler_Correct
begin

text \<open>
  The start-up sequence: \<open>ReconcileOnStartup\<close> visits every active sale, and the server starts with exact counters.
\<close>

section \<open>The loop over the active sales\<close>

text \<open>
  The counters of a sale read as the tables say; a missing counter reads as 0, for the scripts as for the reconcilers.
\<close>

definition counters_exact :: "uuid_lib \<Rightarrow> Sale \<Rightarrow> keyspace \<Rightarrow> db \<Rightarrow> bool" where
  "counters_exact L s ks d \<longleftrightarrow>
     cval (ks (availableKey (uuid_String L (sale_ID s)))) =
       sale_TotalStock s - int (length (held_rows (sale_ID s) d)) - int (orders (sale_ID s) d) \<and>
     cval (ks (reservedKey (uuid_String L (sale_ID s)))) = int (length (held_rows (sale_ID s) d))"

text \<open>What a sale must satisfy to be reconciled: its counters hold numbers or are missing, no reservation is overdue at any moment of the schedule, and it is not oversold.\<close>

definition reconcilable :: "uuid_lib \<Rightarrow> schedule \<Rightarrow> Sale \<Rightarrow> keyspace \<Rightarrow> db \<Rightarrow> bool" where
  "reconcilable L orc s ks d \<longleftrightarrow>
     counter_or_none (ks (availableKey (uuid_String L (sale_ID s)))) \<and>
     counter_or_none (ks (reservedKey (uuid_String L (sale_ID s)))) \<and>
     (\<forall>i. settled (ch_now (orc i)) (sale_ID s) d) \<and> sale_TotalStock s < 2 ^ 62 \<and>
     int (length (held_rows (sale_ID s) d)) + int (orders (sale_ID s) d) \<le> sale_TotalStock s"

lemma audit_irrelevant [simp]:
  "counters_exact L s ks (d\<lparr>t_audit_log := es\<rparr>) = counters_exact L s ks d"
  "reconcilable L orc s ks (d\<lparr>t_audit_log := es\<rparr>) = reconcilable L orc s ks d"
  by (simp_all add: counters_exact_def reconcilable_def held_rows_def orders_def settled_def)

lemma reconcilable_later: "reconcilable L orc s ks d \<Longrightarrow> reconcilable L (later n orc) s ks d"
  by (simp add: reconcilable_def)

definition frame_of_sale :: "uuid_lib \<Rightarrow> uuid \<Rightarrow> keyspace \<Rightarrow> keyspace \<Rightarrow> bool" where
  "frame_of_sale L s ks ks' \<longleftrightarrow> (\<forall>k. k \<noteq> availableKey (uuid_String L s) \<longrightarrow> k \<noteq> reservedKey (uuid_String L s) \<longrightarrow> ks' k = ks k)"

context shop
begin

lemma frame_of_sale_other:
  assumes "frame_of_sale L s k k'" "s' \<noteq> s"
  shows "k' (availableKey (uuid_String L s')) = k (availableKey (uuid_String L s'))"
    "k' (reservedKey (uuid_String L s')) = k (reservedKey (uuid_String L s'))"
  using assms by (auto simp: frame_of_sale_def codec_keys string_inject)

lemma audit_Log_run:
  assumes "delivered orc"
  shows "\<exists>x w' es. run S (audit_Log e) orc w = (Returned x, w') \<and> ks w' = ks w \<and> tb w' = (tb w)\<lparr>t_audit_log := es\<rparr>"
proof -
  have "\<exists>es. tb w = (tb w)\<lparr>t_audit_log := es\<rparr>" by (rule exI [of _ "t_audit_log (tb w)"]) simp
  with assms show ?thesis by (auto simp: shop_simps)
qed

lemma reconcileSale_exact:
  assumes orc: "delivered orc" and r: "reconcilable L orc s (ks w) (tb w)"
  shows "\<exists>x w'. run S (reconcileSale L (sale_ID s) (sale_TotalStock s)) orc w = (Returned (Inr x), w') \<and>
     counters_exact L s (ks w') (tb w) \<and> frame_of_sale L (sale_ID s) (ks w) (ks w') \<and> tb w' = tb w"
proof -
  have c: "counter_or_none (ks w (availableKey (uuid_String L (sale_ID s))))"
    "counter_or_none (ks w (reservedKey (uuid_String L (sale_ID s))))"
    and st: "settled (ch_now (orc 0)) (sale_ID s) (tb w)" using r by (auto simp: reconcilable_def)
  note n = settled_counts [OF st]
  have i: "in64 (sale_TotalStock s - int (length (held_rows (sale_ID s) (tb w))) - int (orders (sale_ID s) (tb w)))"
    "in64 (int (length (held_rows (sale_ID s) (tb w))))" using r by (auto simp: reconcilable_def in64_def)
  obtain x w' where run: "run S (reconcileSale L (sale_ID s) (sale_TotalStock s)) orc w = (Returned (Inr x), w')"
    and w': "ks w' = (if agrees L (sale_ID s) (sale_TotalStock s) (ch_now (orc 0)) (ks w) (tb w) then ks w
       else set_counters (uuid_String L (sale_ID s)) (sale_TotalStock s - int (length (held_rows (sale_ID s) (tb w))) - int (orders (sale_ID s) (tb w)))
             (int (length (held_rows (sale_ID s) (tb w)))) (ks w))" "tb w' = tb w"
    using reconcileSale_run [OF orc c refl, of "sale_TotalStock s"] unfolding n by blast
  have "counters_exact L s (ks w') (tb w)" "frame_of_sale L (sale_ID s) (ks w) (ks w')"
    by (simp_all add: w' counters_exact_def agrees_def n frame_of_sale_def set_counters_def codec_keys i)
  with run w'(2) show ?thesis by blast
qed

lemma startup_loop_step:
  assumes orc: "delivered orc" and r1: "run S (reconcileSale L (sale_ID s) (sale_TotalStock s)) orc w = (Returned (Inr x), w1)"
    and t1: "tb w1 = tb w"
  shows "\<exists>n w2 es p' c'. run S (startup_loop L (s # rows) p c) orc w = run S (startup_loop L rows p' c') (later n orc) w2 \<and>
      ks w2 = ks w1 \<and> tb w2 = (tb w)\<lparr>t_audit_log := es\<rparr>"
proof -
  let ?e = "\<lparr>EntityType = ''sale'', EntityID = sale_ID s, EventType = ''startup_reconciliation'',
    Payload = JsonBytes (result_payload x)\<rparr>"
  let ?e' = "\<lambda>y. \<lparr>EntityType = ''sale'', EntityID = sale_ID s, EventType = ''startup_reconciliation'',
    Payload = JsonBytes (result_payload y)\<rparr>"
  let ?f = "\<lambda>z :: ReconciliationResult res. case z of Inl _ \<Rightarrow> startup_loop L rows p c | Inr y \<Rightarrow>
      if rc_Corrected y then bindP (audit_Log (?e' y)) (\<lambda>_. startup_loop L rows (p + 1) (c + 1)) else startup_loop L rows (p + 1) c"
  obtain n where "run S (bindP (reconcileSale L (sale_ID s) (sale_TotalStock s)) ?f) orc w = run S (?f (Inr x)) (later n orc) w1"
    using run_bind_ex [OF r1, of ?f] by blast
  then have n: "run S (startup_loop L (s # rows) p c) orc w = run S (?f (Inr x)) (later n orc) w1"
    by (simp only: startup_loop.simps(2))
  show ?thesis
  proof (cases "rc_Corrected x")
    case True
    obtain y w2 es where l: "run S (audit_Log ?e) (later n orc) w1 = (Returned y, w2)"
      and w2: "ks w2 = ks w1" "tb w2 = (tb w1)\<lparr>t_audit_log := es\<rparr>"
      using audit_Log_run [OF later_simps(3) [OF orc]] by blast
    obtain m where "run S (bindP (audit_Log ?e) (\<lambda>_. startup_loop L rows (p + 1) (c + 1))) (later n orc) w1 =
        run S (startup_loop L rows (p + 1) (c + 1)) (later m (later n orc)) w2"
      using run_bind_ex [OF l, of "\<lambda>_. startup_loop L rows (p + 1) (c + 1)"] by blast
    then have "run S (startup_loop L (s # rows) p c) orc w = run S (startup_loop L rows (p + 1) (c + 1)) (later (n + m) orc) w2"
      using n True by (simp add: later_later)
    then show ?thesis using w2 t1 by (intro exI conjI) (assumption, simp_all)
  next
    case False
    have "tb w = (tb w)\<lparr>t_audit_log := t_audit_log (tb w)\<rparr>" by simp
    with n t1 False show ?thesis by (intro exI [of _ n] exI [of _ w1] exI [of _ "t_audit_log (tb w)"] exI [of _ "p + 1"] exI [of _ c]) simp
  qed
qed

lemma startup_loop_exact:
  assumes "delivered orc" "distinct (map sale_ID rows)" "\<And>s. s \<in> set rows \<Longrightarrow> reconcilable L orc s (ks w) (tb w)"
  shows "\<exists>res w' es. run S (startup_loop L rows p c) orc w = (Returned res, w') \<and>
     (\<forall>s \<in> set rows. counters_exact L s (ks w') (tb w)) \<and> tb w' = (tb w)\<lparr>t_audit_log := es\<rparr> \<and>
     (\<forall>s'. s' \<notin> sale_ID ` set rows \<longrightarrow> ks w' (availableKey (uuid_String L s')) = ks w (availableKey (uuid_String L s')) \<and>
        ks w' (reservedKey (uuid_String L s')) = ks w (reservedKey (uuid_String L s')))"
  using assms
proof (induction rows arbitrary: orc w p c)
  case Nil
  then show ?case by (auto intro: exI [of _ "t_audit_log (tb w)"])
next
  case (Cons s rows)
  obtain x w1 where r1: "run S (reconcileSale L (sale_ID s) (sale_TotalStock s)) orc w = (Returned (Inr x), w1)"
    and e1: "counters_exact L s (ks w1) (tb w)" and f1: "frame_of_sale L (sale_ID s) (ks w) (ks w1)" and t1: "tb w1 = tb w"
    using reconcileSale_exact [OF Cons.prems(1)] Cons.prems(3) by (meson list.set_intros(1))
  note startup_loop_step [OF Cons.prems(1) r1 t1, of rows p c]
  then obtain n w2 es p' c' where r2: "run S (startup_loop L (s # rows) p c) orc w = run S (startup_loop L rows p' c') (later n orc) w2"
    and w2: "ks w2 = ks w1" "tb w2 = (tb w)\<lparr>t_audit_log := es\<rparr>" by blast
  have new: "sale_ID s \<notin> sale_ID ` set rows" "distinct (map sale_ID rows)" using Cons.prems(2) by auto
  have "reconcilable L (later n orc) s' (ks w2) (tb w2)" if "s' \<in> set rows" for s'
  proof -
    have "sale_ID s' \<noteq> sale_ID s" using that new(1) by (metis imageI)
    then have "reconcilable L orc s' (ks w1) (tb w)"
      using Cons.prems(3) [of s'] that frame_of_sale_other [OF f1] by (simp add: reconcilable_def)
    then show ?thesis using reconcilable_later by (simp add: w2)
  qed
  from Cons.IH [OF later_simps(3) [OF Cons.prems(1)] new(2) this, of p' c'] obtain res w' es' where
    r3: "run S (startup_loop L rows p' c') (later n orc) w2 = (Returned res, w')"
    and e3: "\<forall>s \<in> set rows. counters_exact L s (ks w') (tb w)" and t3: "tb w' = (tb w)\<lparr>t_audit_log := es'\<rparr>"
    and f3: "\<forall>s'. s' \<notin> sale_ID ` set rows \<longrightarrow> ks w' (availableKey (uuid_String L s')) = ks w1 (availableKey (uuid_String L s')) \<and>
        ks w' (reservedKey (uuid_String L s')) = ks w1 (reservedKey (uuid_String L s'))"
    by (auto simp: w2 simp del: later_simps)
  have "counters_exact L s (ks w') (tb w)" using e1 f3 new(1) by (simp add: counters_exact_def)
  moreover have "ks w' (availableKey (uuid_String L s')) = ks w (availableKey (uuid_String L s')) \<and>
      ks w' (reservedKey (uuid_String L s')) = ks w (reservedKey (uuid_String L s'))"
    if "s' \<notin> sale_ID ` set (s # rows)" for s'
    using f3 that frame_of_sale_other [OF f1, of s'] by auto
  ultimately show ?case using r2 r3 e3 t3 by (intro exI [of _ res] exI [of _ w'] exI [of _ es']) auto
qed

lemma ReconcileOnStartup_exact:
  assumes orc: "delivered orc" and ok: "db_ok (tb w)"
    and r: "\<And>s. s \<in> set (t_sales (tb w)) \<Longrightarrow> sale_Status s = SaleStatusActive \<Longrightarrow> reconcilable L orc s (ks w) (tb w)"
  shows "\<exists>w' es. run S (ReconcileOnStartup L) orc w = (Returned (Inr ()), w') \<and> tb w' = (tb w)\<lparr>t_audit_log := es\<rparr> \<and>
     (\<forall>s \<in> set (t_sales (tb w)). sale_Status s = SaleStatusActive \<longrightarrow> counters_exact L s (ks w') (tb w))"
proof -
  let ?rows = "filter (\<lambda>s. sale_Status s = SaleStatusActive) (t_sales (tb w))"
  have q: "run S (ReconcileOnStartup L) orc w = run S (bindP (startup_loop L ?rows 0 0) (\<lambda>(processed, corrections).
      metric_then (ReconciliationCorrections corrections) (Ret (Inr ())))) (shift orc) w"
    using orc by (simp add: ReconcileOnStartup_def shop_simps)
  have "distinct (map sale_ID (t_sales (tb w)))" using ok by (simp add: db_ok_def)
  then have d: "distinct (map sale_ID ?rows)" by (rule distinct_map_filter)
  have "shift orc = later 1 orc" by (simp add: shift_def later_def)
  then have o1: "delivered (shift orc)" "\<And>s. s \<in> set ?rows \<Longrightarrow> reconcilable L (shift orc) s (ks w) (tb w)"
    using orc r reconcilable_later [of L orc _ _ _ 1] by auto
  obtain res w1 es where l: "run S (startup_loop L ?rows 0 0) (shift orc) w = (Returned res, w1)"
    and e: "\<forall>s \<in> set ?rows. counters_exact L s (ks w1) (tb w)" and t: "tb w1 = (tb w)\<lparr>t_audit_log := es\<rparr>"
    using startup_loop_exact [OF o1(1) d o1(2), of 0 0] by blast
  have "\<exists>n. run S (ReconcileOnStartup L) orc w = run S (metric_then (ReconciliationCorrections (snd res)) (Ret (Inr ()))) (later n (shift orc)) w1"
    using run_bind_ex [OF l, of "\<lambda>(processed, corrections). metric_then (ReconciliationCorrections corrections) (Ret (Inr ()))"]
    by (cases res) (simp add: q)
  then obtain w2 where "run S (ReconcileOnStartup L) orc w = (Returned (Inr ()), w2)" "ks w2 = ks w1" "tb w2 = tb w1"
    by (auto simp: metric_then_def run.simps(3) exec_def)
  with e t show ?thesis by (intro exI [of _ w2] exI [of _ es]) auto
qed

end

section \<open>Properties\<close>

text \<open>
  C10: The server starts with exact counters.  When the configuration loads, Redis and the database answer, the scripts load and no message is lost,
  \<open>main\<close> reaches the point where it serves requests, with its health flag set and with or without a tracer; and then the two counters of every active sale equal what
  the tables say, whatever they held or if they were missing.  The sales must not be oversold or have overdue reservations.
\<close>

theorem main_start_exact:
  assumes "shop S view tables L" "delivered orc" "db_ok (tables (pg_st w))"
    and "\<And>s. s \<in> set (t_sales (tables (pg_st w))) \<Longrightarrow> sale_Status s = SaleStatusActive \<Longrightarrow>
      reconcilable L orc s (view (redis_st w)) (tables (pg_st w))"
    and "Load E = Inr cfg" "NewRedisClient E (RedisURL cfg) (RedisReplicaURL cfg) = Inr client" "pgxpool_New E (DatabaseURL cfg) = Inr ()"
    and "loadScript E (rdb client) = Inr sha" "redis_ConfigSet E (rdb client) ''notify-keyspace-events'' ''Ex'' = Inr ()"
  shows "\<exists>srv w' es. run S (main_start E L) orc w = (Returned (Inr srv), w') \<and> sv_Reconciled srv \<and>
     sv_Limiter srv = \<lparr>capacity = RateLimitCapacity cfg, ratePerSec = RateLimitRatePerSec cfg\<rparr> \<and>
     tables (pg_st w') = (tables (pg_st w))\<lparr>t_audit_log := es\<rparr> \<and>
     (\<forall>s \<in> set (t_sales (tables (pg_st w'))). sale_Status s = SaleStatusActive \<longrightarrow>
        counters_exact L s (view (redis_st w')) (tables (pg_st w')))"
proof -
  obtain w' es where r: "run S (ReconcileOnStartup L) orc w = (Returned (Inr ()), w')"
    and t: "tables (pg_st w') = (tables (pg_st w))\<lparr>t_audit_log := es\<rparr>"
    and e: "\<forall>s \<in> set (t_sales (tables (pg_st w))). sale_Status s = SaleStatusActive \<longrightarrow>
      counters_exact L s (view (redis_st w')) (tables (pg_st w))"
    using shop.ReconcileOnStartup_exact [OF assms(1-4)] by blast
  have "\<exists>srv. run S (main_start E L) orc w = (Returned (Inr srv), w') \<and> sv_Reconciled srv \<and>
      sv_Limiter srv = \<lparr>capacity = RateLimitCapacity cfg, ratePerSec = RateLimitRatePerSec cfg\<rparr>"
    using assms(5-9) by (simp add: main_start_def Let_def fatal_def NewLimiter_def ExpiryHandler_Start_def must_def run_bind_Inr [OF r])
  then obtain srv where "run S (main_start E L) orc w = (Returned (Inr srv), w')" "sv_Reconciled srv"
    "sv_Limiter srv = \<lparr>capacity = RateLimitCapacity cfg, ratePerSec = RateLimitRatePerSec cfg\<rparr>" by blast
  with e t show ?thesis by (intro exI [of _ srv] exI [of _ w'] exI [of _ es]) simp
qed

definition demo_env :: "string boot_env" where
  "demo_env = \<lparr>viper_ReadInConfig = ConfigFileNotFound,
     viper_GetString = (\<lambda>ds k. case map_of ds k of Some v \<Rightarrow> v | None \<Rightarrow> []),
     viper_GetInt = (\<lambda>ds k. case map_of ds k of Some v \<Rightarrow> (case Atoi v of Some i \<Rightarrow> i | None \<Rightarrow> 0) | None \<Rightarrow> 0),
     viper_GetFloat64 = (\<lambda>ds k. case map_of ds k of Some v \<Rightarrow> (case read_rat v of Some q \<Rightarrow> q | None \<Rightarrow> 0) | None \<Rightarrow> 0),
     os_Getenv = (\<lambda>_. []), os_ReadFile = Inr, redis_ParseURL = Inr, redis_Ping = (\<lambda>_. Inr ()),
     redis_ScriptLoad = (\<lambda>_ s. Inr s), redis_ConfigSet = (\<lambda>_ _ _. Inr ()), pgxpool_New = (\<lambda>_. Inr ()),
     otlptracegrpc_New = (\<lambda>_. Inl NetworkErr), resource_New = (\<lambda>_ _ _. Inr ())\<rparr>"

theorem main_start_exact_witness:
  "\<exists>srv w'. run mem_services (main_start demo_env canonical_uuid) demo_orc (demo_world\<lparr>redis_st := Map.empty\<rparr>) = (Returned (Inr srv), w') \<and>
     sv_Reconciled srv \<and> cval (redis_st w' (availableKey demo_id)) = 2"
proof -
  let ?w = "demo_world\<lparr>redis_st := Map.empty\<rparr>"
  have h: "held_rows 7 demo_db = []" "orders 7 demo_db = 0" "settled n 7 demo_db" for n
    by (simp_all add: held_rows_def orders_def settled_def demo_db_def)
  have r: "reconcilable canonical_uuid demo_orc s (redis_st ?w) (pg_st ?w)" if "s \<in> set (t_sales (pg_st ?w))" for s
    using that h by (simp add: demo_db_def) (simp add: demo_sale_def reconcilable_def counter_or_none_def demo_db_def h)
  obtain cfg client where c: "Load demo_env = Inr cfg" "NewRedisClient demo_env (RedisURL cfg) (RedisReplicaURL cfg) = Inr client"
    by (simp add: Load_def demo_env_def NewRedisClient_def loadScripts_def must_def)
  have e: "pgxpool_New demo_env (DatabaseURL cfg) = Inr ()" "loadScript demo_env (rdb client) = Inr (script_path ''token_bucket.lua'')"
    "redis_ConfigSet demo_env (rdb client) ''notify-keyspace-events'' ''Ex'' = Inr ()"
    by (simp_all add: demo_env_def loadScript_def must_def)
  obtain srv w' es where m: "run mem_services (main_start demo_env canonical_uuid) demo_orc ?w = (Returned (Inr srv), w')" "sv_Reconciled srv"
    and t: "pg_st w' = demo_db\<lparr>t_audit_log := es\<rparr>"
    and x: "\<forall>s \<in> set (t_sales (pg_st w')). sale_Status s = SaleStatusActive \<longrightarrow> counters_exact canonical_uuid s (redis_st w') (pg_st w')"
    using main_start_exact [OF mem_shop_ok demo_orc_delivered, of ?w demo_env cfg client, OF _ _ c e] demo_db_ok r by auto
  have "counters_exact canonical_uuid demo_sale (redis_st w') demo_db"
    using x by (simp add: t) (simp add: demo_db_def demo_sale_def)
  then have "cval (redis_st w' (availableKey demo_id)) = 2"
    using h by (simp add: counters_exact_def demo_sale_def demo_id_def)
  with m show ?thesis by blast
qed

end
