(* ===== verification/Reconciler_Oversell.thy ===== *)
theory Reconciler_Oversell
  imports Reconciler_Correct Database_Invariants
begin

text \<open>
  Why the reconcilers are not among the goroutines of \<open>No_Oversell\<close>: they do not count a reservation
  whose time is over but whose status is still reserved, so they hand its unit out again while it can still be confirmed.
  The run below is a sequence of complete calls of the server on a sale with one unit.
\<close>

definition one_unit_sale :: Sale where
  "one_unit_sale = demo_sale\<lparr>sale_TotalStock := 1\<rparr>"

definition late_db :: db where
  "late_db = demo_held_db\<lparr>t_sales := [one_unit_sale]\<rparr>"

definition late_world :: "(keyspace, db) world" where
  "late_world = \<lparr>redis_st = demo_keys 0 1, pg_st = late_db, published = [], metrics = [], hub_calls = []\<rparr>"

text \<open>Every call is delivered, at second 700, with fresh identifiers from a given number on.\<close>

definition at_700 :: "uuid \<Rightarrow> schedule" where
  "at_700 u i = \<lparr>ch_net = Delivered, ch_uuid = u + of_nat i, ch_now = 700 * second\<rparr>"

lemma at_700_simps [simp]: "delivered (at_700 u)" "ch_now (at_700 u i) = 700 * second" "ch_uuid (at_700 u i) = u + of_nat i"
  by (simp_all add: delivered_def at_700_def)

lemma late_world_simps [simp]: "redis_st late_world = demo_keys 0 1" "pg_st late_world = late_db"
  by (simp_all add: late_world_def)

lemma late_db_ok: "db_ok late_db"
  by (simp add: db_ok_def reservation_refs_def order_refs_def confirmations_ok_def late_db_def demo_held_db_def demo_db_def
      row_key_def demo_res_def one_unit_sale_def demo_sale_def valid_confirmation_def)

text \<open>The second reservation and the two orders of the run.\<close>

definition second_res :: Reservation where
  "second_res = new_reservation demo_svc 2 7 5 (shift (at_700 200))"

definition order_1 :: Order where
  "order_1 = new_order demo_res ''k1'' (shift (shift (shift (shift (at_700 300)))))"

definition order_2 :: Order where
  "order_2 = new_order second_res ''k2'' (shift (shift (shift (shift (at_700 400)))))"

lemma second_res_simps [simp]: "res_ID second_res = 201" "res_UserID second_res = 2" "res_SaleID second_res = 7"
  "res_ItemID second_res = 5" "res_Status second_res = Reserved" "res_ConfirmedAt second_res = None"
  "res_ExpiresAt second_res = 1300 * second"
  by (simp_all add: second_res_def new_reservation_def demo_svc_def ttl_duration_def wrap64_def second_def)

lemma second_res_stored [simp]: "stored_reservation second_res = second_res"
  by (simp add: stored_reservation_def second_res_def new_reservation_def demo_svc_def ttl_duration_def wrap64_def second_def pg_time_def)

lemma order_simps [simp]: "ord_ID order_1 = 306" "ord_ID order_2 = 406" "ord_SaleID order_1 = 7" "ord_SaleID order_2 = 7"
  "ord_ReservationID order_1 = 11" "ord_ReservationID order_2 = 201" "ord_UserID order_1 = 1" "ord_UserID order_2 = 2"
  "ord_Status order_1 = ''pending''" "ord_Status order_2 = ''pending''" "ord_IdempotencyKey order_1 = ''k1''"
  "ord_IdempotencyKey order_2 = ''k2''" "ord_CreatedAt order_1 = 700 * second"
  by (simp_all add: order_1_def order_2_def new_order_def numeral_2_eq_2)

lemma one_unit_simps [simp]: "sale_ID one_unit_sale = 7" "sale_TotalStock one_unit_sale = 1"
  by (simp_all add: one_unit_sale_def demo_sale_def)

text \<open>The counters and tables between two calls of the run.\<close>

definition stage :: "int \<Rightarrow> int \<Rightarrow> (Reservation \<times> bool) list \<Rightarrow> Order list \<Rightarrow> (keyspace, db) world \<Rightarrow> bool" where
  "stage a b rows os w \<longleftrightarrow> has_stock (redis_st w) (uuid_String canonical_uuid 7) a b \<and> db_ok (pg_st w) \<and>
     t_users (pg_st w) = [1, 2] \<and> t_sale_items (pg_st w) = [(5, 7)] \<and> t_sales (pg_st w) = [one_unit_sale] \<and>
     t_reservations (pg_st w) = rows \<and> t_orders (pg_st w) = os"

lemma stage_start: "stage 0 1 [(demo_res, False)] [] late_world"
  using demo_has_stock [of 0 1] demo_in64 late_db_ok
  by (simp add: stage_def late_db_def demo_held_db_def demo_db_def)

definition held_at_700 :: "(Reservation \<times> bool) list \<Rightarrow> int" where
  "held_at_700 rows = int (length (filter (\<lambda>r. res_SaleID r = 7 \<and> res_Status r = Reserved \<and> 700 * second < res_ExpiresAt r) (map fst rows)))"

definition sold_of_7 :: "Order list \<Rightarrow> int" where
  "sold_of_7 os = int (length (filter (\<lambda>x. ord_SaleID x = 7 \<and> (ord_Status x = ''pending'' \<or> ord_Status x = ''paid'')) os))"

text \<open>What one call does to a stage: a correcting reconciliation, a reservation and a confirmation.\<close>

lemma stage_reconcile:
  assumes "stage a b rows os w" "(a, b) \<noteq> (1 - held_at_700 rows - sold_of_7 os, held_at_700 rows)"
    "in64 (1 - held_at_700 rows - sold_of_7 os)" "in64 (held_at_700 rows)"
  shows "\<exists>w'. run mem_services (reconcileSingleSale canonical_uuid 7 1) (at_700 u) w = (Returned (Inr True), w') \<and>
     stage (1 - held_at_700 rows - sold_of_7 os) (held_at_700 rows) rows os w'"
proof -
  have st: "has_stock (redis_st w) (uuid_String canonical_uuid 7) a b" and ok: "db_ok (pg_st w)"
    and t: "t_reservations (pg_st w) = rows" "t_orders (pg_st w) = os" using assms(1) by (simp_all add: stage_def)
  have n: "pg_reserved (700 * second) 7 (pg_st w) = held_at_700 rows" "pg_confirmed 7 (pg_st w) = sold_of_7 os"
    by (simp_all add: pg_reserved_def pg_confirmed_def active_reservations_def live_orders_def t held_at_700_def sold_of_7_def)
  have "\<not> agrees canonical_uuid 7 1 (700 * second) (redis_st w) (pg_st w)"
    using has_stockD [OF st] assms(2) by (auto simp: agrees_def n)
  moreover have "counter_or_none (redis_st w (availableKey (uuid_String canonical_uuid 7)))"
    "counter_or_none (redis_st w (reservedKey (uuid_String canonical_uuid 7)))"
    using has_stockD [OF st] by (simp_all add: counter_or_none_def)
  ultimately obtain w' where r: "run mem_services (reconcileSingleSale canonical_uuid 7 1) (at_700 u) w = (Returned (Inr True), w')"
    and w': "redis_st w' = set_counters (uuid_String canonical_uuid 7) (1 - held_at_700 rows - sold_of_7 os) (held_at_700 rows) (redis_st w)"
      "\<exists>es. pg_st w' = (pg_st w)\<lparr>t_audit_log := es\<rparr>"
    using mem_shop.reconcileSingleSale_run [of "at_700 u" w 7 "700 * second" 1] by (auto simp: n)
  have "stage (1 - held_at_700 rows - sold_of_7 os) (held_at_700 rows) rows os w'"
    using w'(2) assms memory.run_db_ok [OF r ok] st by (auto simp: stage_def w'(1) has_stock_def stock_at_def set_counters_def)
  with r show ?thesis by blast
qed

lemma stage_reserve:
  assumes "stage 1 0 [(demo_res, False)] [] w"
  shows "\<exists>w'. run mem_services (Reserve canonical_uuid demo_svc 2 7 5 []) (at_700 200) w = (Returned (Inr second_res), w') \<and>
     stage 0 1 [(demo_res, False), (second_res, False)] [] w'"
proof -
  have st: "has_stock (redis_st w) (uuid_String canonical_uuid 7) 1 0" and ok: "db_ok (pg_st w)" using assms by (simp_all add: stage_def)
  have "reservation_ok (pg_st w) second_res"
    using assms by (simp add: stage_def reservation_ok_def valid_confirmation_def)
  then obtain w' where r: "run mem_services (Reserve canonical_uuid demo_svc 2 7 5 []) (at_700 200) w = (Returned (Inr second_res), w')"
    and w': "redis_st w' = reserved_keys canonical_uuid demo_svc second_res [] (set_counters (uuid_String canonical_uuid 7) 0 1 (redis_st w))"
      "pg_st w' = (pg_st w)\<lparr>t_reservations := t_reservations (pg_st w) @ [(second_res, False)],
         t_audit_log := t_audit_log (pg_st w) @ [reserved_audit canonical_uuid second_res]\<rparr>"
    using mem_shop.Reserve_run [of "at_700 200" w 7 1 0 "[]" second_res demo_svc 2 5] st demo_in64 second_res_stored
    by (auto simp: second_res_def)
  have "stage 0 1 [(demo_res, False), (second_res, False)] [] w'"
    using assms memory.run_db_ok [OF r ok] demo_in64 unfolding stage_def w'(1)
    by (simp add: w'(2) has_stock_def stock_at_def set_counters_def reserved_keys_def canonical.codec_keys)
  with r show ?thesis by blast
qed

lemma stage_confirm:
  assumes "stage a 1 rows os w" "(r, p) \<in> set rows" "res_Status r = Reserved" "res_SaleID r = 7" "in64 a"
    "x = new_order r key (shift (shift (shift (shift (at_700 u)))))" "key \<noteq> []" "varchar_fits 255 key" "res_UserID r \<in> {1, 2}"
    "ord_ID x \<notin> ord_ID ` set os" "key \<notin> ord_IdempotencyKey ` set os"
  shows "\<exists>w'. run mem_services (Confirm canonical_uuid (res_ID r) key) (at_700 u) w = (Returned (Inr x), w') \<and>
     stage a 0 (update_rows (\<lambda>r. r\<lparr>res_Status := Confirmed, res_ConfirmedAt := Some (700 * second)\<rparr>) (res_ID r) rows) (os @ [x]) w'"
proof -
  have st: "has_stock (redis_st w) (uuid_String canonical_uuid (res_SaleID r)) a 1" and ok: "db_ok (pg_st w)"
    and t: "t_reservations (pg_st w) = rows" "t_orders (pg_st w) = os" "t_sales (pg_st w) = [one_unit_sale]" "t_users (pg_st w) = [1, 2]"
    using assms(1,4) by (simp_all add: stage_def)
  have x: "ord_ReservationID x = res_ID r" "ord_UserID x = res_UserID r" "ord_SaleID x = 7" "ord_Status x = ''pending''"
    "ord_IdempotencyKey x = key" "ord_CreatedAt x = 700 * second" using assms(4) by (simp_all add: assms(6) new_order_def)
  have xs: "stored_order x = x" by (simp add: stored_order_def assms(6) new_order_def)
  have "res_ID r \<in> (res_ID \<circ> fst) ` set rows" using assms(2) by force
  then have "order_ok (pg_st w) x" using assms(8-11) by (auto simp: order_ok_def t x order_status_ok_def)
  then obtain w' where r: "run mem_services (Confirm canonical_uuid (res_ID r) key) (at_700 u) w = (Returned (Inr x), w')"
    and w': "redis_st w' = (redis_st w)(reservedKey (uuid_String canonical_uuid (res_SaleID r)) \<mapsto> cnt 0)"
      "pg_st w' = confirmed_db canonical_uuid (res_ID r) x (pg_st w)"
    using mem_shop.Confirm_run [of "at_700 u" w r p a 1 x key] ok st assms(2,3,6,7) t(1) by auto
  have "stage a 0 (update_rows (\<lambda>r. r\<lparr>res_Status := Confirmed, res_ConfirmedAt := Some (700 * second)\<rparr>) (res_ID r) rows) (os @ [x]) w'"
    using assms(1,4,5) memory.run_db_ok [OF r ok] demo_in64 unfolding stage_def w'(1)
    by (simp add: w'(2) has_stock_def stock_at_def confirmed_db_def t x xs)
  with r show ?thesis by blast
qed

definition confirmed_res :: Reservation where
  "confirmed_res = demo_res\<lparr>res_Status := Confirmed, res_ConfirmedAt := Some (700 * second)\<rparr>"

text \<open>
  C38: The reconciler oversells.  A sale has one unit, held by a reservation whose time is over and whose expiry was
  not processed.  The five calls below, one after the other and with no message lost, are a reconciliation round for the sale,
  a reservation by the second user, the first user's confirmation, another reconciliation round and the second user's
  confirmation; every one of them succeeds, and in the end the one unit has been sold twice.
\<close>

theorem reconciler_oversells:
  "sale_TotalStock one_unit_sale = 1 \<and> db_ok late_db \<and>
   (\<exists>w1 w2 w3 w4 w5.
      run mem_services (reconcileSingleSale canonical_uuid 7 (sale_TotalStock one_unit_sale)) (at_700 100) late_world = (Returned (Inr True), w1) \<and>
      run mem_services (Reserve canonical_uuid demo_svc 2 7 5 []) (at_700 200) w1 = (Returned (Inr second_res), w2) \<and>
      run mem_services (Confirm canonical_uuid (res_ID demo_res) ''k1'') (at_700 300) w2 = (Returned (Inr order_1), w3) \<and>
      run mem_services (reconcileSingleSale canonical_uuid 7 (sale_TotalStock one_unit_sale)) (at_700 350) w3 = (Returned (Inr True), w4) \<and>
      run mem_services (Confirm canonical_uuid (res_ID second_res) ''k2'') (at_700 400) w4 = (Returned (Inr order_2), w5) \<and>
      length (live_orders 7 (pg_st w5)) = 2)"
proof -
  have n: "held_at_700 [(demo_res, False)] = 0" "held_at_700 [(confirmed_res, False), (second_res, False)] = 1"
    "sold_of_7 [] = 0" "sold_of_7 [order_1] = 1"
    by (simp_all add: held_at_700_def sold_of_7_def second_def confirmed_res_def)
  have i: "in64 (- 1)" by (simp add: in64_def)
  have k: "varchar_fits 255 ''k1''" "varchar_fits 255 ''k2''" by (simp_all add: varchar_fits_def utf8_tail_def)
  obtain w1 where 1: "run mem_services (reconcileSingleSale canonical_uuid 7 1) (at_700 100) late_world = (Returned (Inr True), w1)"
    "stage 1 0 [(demo_res, False)] [] w1"
    using stage_reconcile [OF stage_start] demo_in64 by (auto simp: n)
  obtain w2 where 2: "run mem_services (Reserve canonical_uuid demo_svc 2 7 5 []) (at_700 200) w1 = (Returned (Inr second_res), w2)"
    "stage 0 1 [(demo_res, False), (second_res, False)] [] w2"
    using stage_reserve [OF 1(2)] by blast
  have u: "update_rows (\<lambda>r. r\<lparr>res_Status := Confirmed, res_ConfirmedAt := Some (700 * second)\<rparr>) 11 [(demo_res, False), (second_res, False)] =
      [(confirmed_res, False), (second_res, False)]" by (simp add: update_rows_def confirmed_res_def)
  obtain w3 where 3: "run mem_services (Confirm canonical_uuid (res_ID demo_res) ''k1'') (at_700 300) w2 = (Returned (Inr order_1), w3)"
    "stage 0 0 [(confirmed_res, False), (second_res, False)] [order_1] w3"
    using stage_confirm [OF 2(2), of demo_res False order_1 "''k1''" 300] demo_in64 k by (auto simp: order_1_def u)
  obtain w4 where 4: "run mem_services (reconcileSingleSale canonical_uuid 7 1) (at_700 350) w3 = (Returned (Inr True), w4)"
    "stage (-1) 1 [(confirmed_res, False), (second_res, False)] [order_1] w4"
    using stage_reconcile [OF 3(2), of 350] demo_in64 i by (auto simp: n)
  obtain w5 where 5: "run mem_services (Confirm canonical_uuid (res_ID second_res) ''k2'') (at_700 400) w4 = (Returned (Inr order_2), w5)"
    "t_orders (pg_st w5) = [order_1, order_2]"
    using stage_confirm [OF 4(2), of second_res False order_2 "''k2''" 400] i k order_simps by (auto simp: order_2_def stage_def)
  have "length (live_orders 7 (pg_st w5)) = 2" by (simp add: live_orders_def 5(2))
  with 1(1) 2(1) 3(1) 4(1) 5(1) late_db_ok show ?thesis by auto
qed

end
