(* ===== verification/Rate_Limiter_Progress.thy ===== *)
theory Rate_Limiter_Progress
  imports Rate_Limiter_Correct
begin

text \<open>
  The rate limiter lets nobody starve: a refused request costs nothing, and the bucket of a refused user holds a whole token again after a
  second, which is what the \<open>Retry-After: 1\<close> header of the middleware promises.
\<close>

section \<open>A second refills a token\<close>

context redis_server
begin

lemma round_ge_int:
  assumes "of_int i \<le> x" "0 \<le> i" "i \<le> 2 ^ 53" "x \<le> 2 ^ 90"
  shows "of_int i \<le> lua_round R x"
proof -
  have "0 \<le> (of_int i :: rat)" using assms(2) by simp
  with assms(1) have "0 \<le> x" by linarith
  then have "in_double (of_int i)" "in_double x"
    using assms by (simp_all add: in_double_of_int in_double_nonneg)
  from round_mono [OF this assms(1)] round_exact [of i] assms(2,3) show ?thesis by simp
qed

lemma round_le_twice:
  assumes "0 \<le> x" "x \<le> 2 ^ 90"
  shows "lua_round R x \<le> 2 * x + 1"
proof -
  have "x * unit_err \<le> x * 1" using assms(1) by (intro mult_left_mono) (simp_all add: unit_err_def)
  moreover have "tiny_err \<le> 1" by (simp add: tiny_err_def)
  ultimately show ?thesis using round_up(2) [OF assms] by linarith
qed

lemma refill_token:
  assumes tok: "0 \<le> tok" "tok \<le> 2 ^ 53" and rate: "1 \<le> rate" "rate \<le> 2 ^ 20" and d: "1000 \<le> d" "d \<le> 2 ^ 53"
  shows "1 \<le> lua_round R (tok + lua_round R (lua_round R (of_int d / 1000) * rate))"
proof -
  define D where "D = (of_int d / 1000 :: rat)"
  have "of_int 1000 \<le> (of_int d :: rat)" "of_int d \<le> (of_int (2 ^ 53) :: rat)" using d by (simp_all only: of_int_le_iff)
  then have D: "1 \<le> D" "D \<le> 2 ^ 53" by (simp_all add: D_def)
  define y where "y = lua_round R D"
  have y: "1 \<le> y" "y \<le> 2 ^ 55" using round_ge_int [of 1 D] round_le_twice [of D] D by (simp_all add: y_def)
  have p: "1 \<le> y * rate" "y * rate \<le> 2 ^ 55 * 2 ^ 20" using mult_mono [OF y(1) rate(1)] mult_mono [OF y(2) rate(2)] y rate by simp_all
  define z where "z = lua_round R (y * rate)"
  have z: "1 \<le> z" "z \<le> 2 ^ 77" using round_ge_int [of 1 "y * rate"] round_le_twice [of "y * rate"] p by (simp_all add: z_def)
  show ?thesis using round_ge_int [of 1 "tok + z"] tok z by (simp add: z_def y_def D_def)
qed

lemma refilled_after_second:
  assumes b: "bucket_ok C t b" and t: "0 \<le> t" "t + 1000 \<le> now" "now \<le> 2 ^ 53"
    and rate: "1 \<le> rate" "rate \<le> 2 ^ 20" and C: "1 \<le> C" "C \<le> 2 ^ 53"
  shows "1 \<le> refilled (lua_round R) (of_int C) rate (of_int now) b"
proof (cases b)
  case None
  then show ?thesis using C round_exact [of 0] round_exact [of C] by (simp add: refilled_def bucket_refill_def)
next
  case (Some p)
  obtain tok i where p: "p = (tok, of_int i)" "0 \<le> tok" "tok \<le> of_int C - 1" "0 \<le> i" "i \<le> t"
    using b Some by (cases p) (auto simp: bucket_ok_def)
  have e: "(of_int now - of_int i :: rat) = of_int (now - i)" by simp
  have "of_int C \<le> (2 ^ 53 :: rat)" using C by (metis of_int_le_iff of_int_numeral of_int_power)
  then have "1 \<le> lua_round R (tok + lua_round R (lua_round R (of_int (now - i) / 1000) * rate))"
    using p t rate by (intro refill_token) linarith+
  then show ?thesis using Some p C t round_exact [of "now - i"] by (simp add: refilled_def bucket_refill_def e Let_def del: of_int_diff)
qed

end

section \<open>Properties\<close>

text \<open>
  C31: \<open>Retry-After: 1\<close> is kept.  When \<open>Allow\<close> has refused a user and the limiter's rate is at least one token a second, the user's next request is admitted
  if it comes a second later or more, whatever other requests the server has handled in between: nobody is locked out.
\<close>

theorem refused_user_admitted:
  assumes "services S view tables" "limiter_ok S fmt l C" "1 \<le> ratePerSec l" "delivered orc" "delivered orc2"
    and "bucket_of (srv_redis S) (view (redis_st w) (ratelimitKey u)) = Some b" "bucket_ok C t b"
    and "t = unix_milli (ch_now (orc 0))" "0 \<le> t" "unix_milli (ch_now (orc2 0)) = t2" "t + 1000 \<le> t2" "t2 \<le> 2 ^ 53"
    and "run S (Allow fmt l u) orc w = (Returned (Inr (False, n)), w')"
    and "view (redis_st w2) (ratelimitKey u) = view (redis_st w') (ratelimitKey u)"
  shows "\<exists>remaining w''. run S (Allow fmt l u) orc2 w2 = (Returned (Inr (True, remaining)), w'') \<and> 0 \<le> remaining"
proof -
  have c: "capacity l = of_int C" "1 \<le> C" "C \<le> 2 ^ 53" "ratePerSec l \<le> 2 ^ 20"
    using assms(2) unfolding limiter_ok_def by metis+
  have redis: "redis_server (srv_redis S) view" using assms(1) by (rule services.axioms(1))
  have "\<bar>unix_milli (ch_now (orc 0))\<bar> \<le> 2 ^ 53" using assms(8,9,11,12) by simp
  from services.Allow_run [OF assms(1,2,6) this assms(4)] assms(13)
  have "view (redis_st w') = view (redis_st w)" by (auto split: if_splits)
  with assms(6,14) have b: "bucket_of (srv_redis S) (view (redis_st w2) (ratelimitKey u)) = Some b" by simp
  let ?q = "refilled (lua_round (srv_redis S)) (of_int C) (ratePerSec l) (of_int t2) b"
  have q: "1 \<le> ?q" using redis_server.refilled_after_second [OF redis assms(7,9,11,12,3) c(4,2,3)] .
  have "0 \<le> \<lfloor>lua_round (srv_redis S) (?q - 1)\<rfloor>"
    using redis_server.spent_tokens(1) [OF redis q refilled_le c(3)] by simp
  then have "fst (take_token (lua_round (srv_redis S)) (of_int C) (ratePerSec l) (of_int t2) b) \<noteq> - 1 \<and>
      0 \<le> fst (take_token (lua_round (srv_redis S)) (of_int C) (ratePerSec l) (of_int t2) b)"
    using q by (simp add: take_token_def Let_def) linarith
  moreover have "\<bar>unix_milli (ch_now (orc2 0))\<bar> \<le> 2 ^ 53" using assms(9-12) by simp
  ultimately show ?thesis using services.Allow_run [OF assms(1,2) b _ assms(5)] by (auto simp: c(1) assms(10))
qed

text \<open>An empty bucket of the deployed limiter, at second 1 and again at second 2.\<close>

definition drained :: "(keyspace, db) world" where
  "drained = demo_world\<lparr>redis_st := [ratelimitKey ''u'' \<mapsto>
     (Hash [''tokens'' \<mapsto> show_rat 0, ''last_refill'' \<mapsto> show_rat 1000], Some 60000)]\<rparr>"

lemma drained_bucket: "bucket_of (srv_redis mem_services) (redis_st drained (ratelimitKey ''u'')) = Some (Some (0, 1000))"
  by (simp add: bucket_of_def drained_def hash_number_def mem_services_def mem_redis_def read_rat_show)

theorem refused_user_admitted_witness:
  "\<exists>w' remaining w''. run mem_services (Allow show_rat demo_limiter ''u'') (request_at (1 * second)) drained = (Returned (Inr (False, 0)), w') \<and>
     run mem_services (Allow show_rat demo_limiter ''u'') (request_at (2 * second)) w' = (Returned (Inr (True, remaining)), w'')"
proof -
  have t: "unix_milli (ch_now (request_at (k * second) 0)) = k * 1000" for k
    by (simp add: request_at_def unix_milli_def second_def)
  have d: "delivered (request_at k)" for k by (simp add: request_at_def delivered_def)
  have b: "bucket_ok 10 1000 (Some (0, 1000))" by (simp add: bucket_ok_def)
  obtain w' where r: "run mem_services (Allow show_rat demo_limiter ''u'') (request_at (1 * second)) drained = (Returned (Inr (False, 0)), w')"
    using memory.Allow_run [OF demo_limiter_ok drained_bucket _ d, of "1 * second"] t [of 1]
    by (auto simp: take_token_def refilled_def bucket_refill_def demo_limiter_def mem_services_def mem_redis_def)
  have "\<exists>m w''. run mem_services (Allow show_rat demo_limiter ''u'') (request_at (2 * second)) w' = (Returned (Inr (True, m)), w'') \<and> 0 \<le> m"
    using refused_user_admitted [OF mem_services_ok demo_limiter_ok _ d d drained_bucket b _ _ refl _ _ r refl, of "2 * second"] t [of 1] t [of 2]
    by (simp add: demo_limiter_def)
  with r show ?thesis by blast
qed

end
