(* ===== verification/Expiry_Progress.thy ===== *)
theory Expiry_Progress
  imports Expiry_Correct
begin

text \<open>
  The warning job over many rounds: its ticker fires every 30 seconds and its window is 35 seconds wide, so no reservation that lives long enough
  slips through between two rounds, even when a round starts up to five seconds late.
\<close>

section \<open>Ticks and the window\<close>

fun ticks_within :: "int \<Rightarrow> time list \<Rightarrow> bool" where
  "ticks_within d (t # u # ts) \<longleftrightarrow> u \<le> t + d \<and> ticks_within d (u # ts)"
| "ticks_within d ts \<longleftrightarrow> True"

lemma tick_in_window:
  assumes "ticks_within d ts" "ts \<noteq> []" "hd ts \<le> lo + d" "lo \<le> last ts"
  shows "\<exists>t \<in> set ts. lo \<le> t \<and> t \<le> lo + d"
  using assms
proof (induction d ts rule: ticks_within.induct)
  case (1 d t u ts)
  show ?case
  proof (cases "lo \<le> t")
    case True
    with 1 show ?thesis by auto
  next
    case False
    then have "hd (u # ts) \<le> lo + d" using 1 by simp
    with 1 show ?thesis by auto
  qed
qed auto

section \<open>One round\<close>

lemma warnings_member:
  assumes "r \<in> set rows"
  shows "\<exists>secs. (userChannel (uuid_String L (res_UserID r)), reservation_expiring secs) \<in> set (warnings L orc rows)"
proof -
  obtain i where "i < length rows" "r = rows ! i" using assms by (metis in_set_conv_nth)
  then have "warnings L orc rows ! i \<in> set (warnings L orc rows)" by (simp add: warnings_nth(1))
  then show ?thesis using warnings_nth(2) [OF \<open>i < length rows\<close>, of L orc] \<open>r = rows ! i\<close> by auto
qed

section \<open>Properties\<close>

text \<open>
  C37: Every user is warned.  Consider rounds of the warning job whose clock readings are at most 35 seconds apart, in whatever states the rest
  of the server has brought the world between them, and a reservation that is still reserved in each of them.  If the first round comes
  at the latest 55 seconds before the reservation expires and the last one at most 90 seconds before, then some round publishes
  a warning on the channel of its user.
\<close>

theorem every_reservation_warned:
  assumes "shop S view tables L" "publisher h" "rounds \<noteq> []"
    and "\<And>orc w. (orc, w) \<in> set rounds \<Longrightarrow> delivered orc \<and> (r, p) \<in> set (t_reservations (tables (pg_st w)))"
    and "res_Status r = Reserved"
    and "ticks_within (35 * second) (map (\<lambda>(orc, w). ch_now (orc 0)) rounds)"
    and "ch_now (fst (hd rounds) 0) \<le> res_ExpiresAt r - 55 * second" "res_ExpiresAt r - 90 * second \<le> ch_now (fst (last rounds) 0)"
  shows "\<exists>(orc, w) \<in> set rounds. \<exists>w' evs secs. run S (notifyExpiringReservations L h) orc w = (Returned (), w') \<and>
     published w' = published w @ evs \<and> (userChannel (uuid_String L (res_UserID r)), reservation_expiring secs) \<in> set evs"
proof -
  let ?ts = "map (\<lambda>(orc, w). ch_now (orc 0)) rounds"
  have "hd ?ts \<le> (res_ExpiresAt r - 90 * second) + 35 * second" "res_ExpiresAt r - 90 * second \<le> last ?ts"
    using assms(3,7,8) by (simp_all add: hd_map last_map case_prod_beta)
  from tick_in_window [OF assms(6) _ this] assms(3) obtain orc w where m: "(orc, w) \<in> set rounds"
    and t: "res_ExpiresAt r - 90 * second \<le> ch_now (orc 0)" "ch_now (orc 0) \<le> res_ExpiresAt r - 90 * second + 35 * second"
    by auto
  have "r \<in> set (expiring_rows (ch_now (orc 0)) (tables (pg_st w)))"
    using assms(4) [OF m] assms(5) t by (force simp: expiring_rows_def)
  then obtain secs where "(userChannel (uuid_String L (res_UserID r)), reservation_expiring secs) \<in>
      set (warnings L (shift orc) (expiring_rows (ch_now (orc 0)) (tables (pg_st w))))"
    using warnings_member by blast
  with shop.notify_run [OF assms(1) _ assms(2), of orc w] assms(4) [OF m] m show ?thesis by blast
qed

text \<open>Rounds at the seconds 485 and 515 for the reservation that expires at second 600.\<close>

definition demo_round :: "int \<Rightarrow> schedule \<times> (keyspace, db) world" where
  "demo_round t = ((\<lambda>i. (demo_orc i)\<lparr>ch_now := t * second\<rparr>), demo_held)"

theorem every_reservation_warned_witness:
  "\<exists>(orc, w) \<in> set [demo_round 485, demo_round 515]. \<exists>w' evs secs.
     run mem_services (notifyExpiringReservations canonical_uuid demo_svc) orc w = (Returned (), w') \<and>
     published w' = published w @ evs \<and> (userChannel (uuid_String canonical_uuid (res_UserID demo_res)), reservation_expiring secs) \<in> set evs"
proof (rule every_reservation_warned [OF mem_shop_ok])
  show "publisher demo_svc" by (simp add: demo_svc_def)
  show "delivered orc \<and> (demo_res, False) \<in> set (t_reservations (pg_st w))" if "(orc, w) \<in> set [demo_round 485, demo_round 515]" for orc w
    using that by (auto simp: demo_round_def delivered_def demo_orc_def)
qed (simp_all add: demo_round_def second_def)

end
