(* ===== verification/Websocket_Pumps.thy ===== *)
theory Websocket_Pumps
  imports Hub_Correct
begin

text \<open>
  The two pumps of \<open>internal/websocket/client.go\<close> as loops over what they have seen so far.  The write pump joins all queued messages into one text frame,
  separated by newlines; \<open>split_lines\<close> is what a browser does with such a frame, and the theorem shows that it gets back
  the messages.  Deadlines and the texts of log messages are left out.
\<close>

section \<open>The read pump\<close>

text \<open>Results of \<open>ReadMessage\<close>: the loop goes on while they succeed, and the first failure ends it.\<close>

primrec StartReadPump :: "client \<Rightarrow> bool list \<Rightarrow> Hub \<Rightarrow> Hub" where
  "StartReadPump c [] h = h"
| "StartReadPump c (ok # reads) h = (if ok then StartReadPump c reads h else read_pump_exit c h)"

lemma StartReadPump_step:
  assumes "\<not> crashed h" "heap h c = Some cl" "cl_reading cl"
  shows "if list_all id reads then StartReadPump c reads h = h else hub_step h (StartReadPump c reads h)"
  using hub_step.read_end [OF assms] by (induction reads) auto

section \<open>The write pump\<close>

datatype frame = TextFrame string | CloseFrame | PingFrame

text \<open>
  One round of the select: a message with the others that are queued behind it (and whether \<open>NextWriter\<close> and \<open>Close\<close> succeed), the closed channel, or a tick
  (and whether the ping could be written).
\<close>

datatype write_event = Dequeued string "string list" bool bool | SendClosed | PingTick bool

primrec StartWritePump :: "write_event list \<Rightarrow> frame list" where
  "StartWritePump [] = []"
| "StartWritePump (e # es) = (case e of
       SendClosed \<Rightarrow> [CloseFrame]
     | Dequeued message queued writer_ok close_ok \<Rightarrow>
         if \<not> writer_ok then []
         else TextFrame (frame_of (message # queued)) # (if close_ok then StartWritePump es else [])
     | PingTick ok \<Rightarrow> PingFrame # (if ok then StartWritePump es else []))"

section \<open>What the browser sees\<close>

fun split_lines :: "string \<Rightarrow> string list" where
  "split_lines [] = [[]]"
| "split_lines (x # xs) =
     (if x = CHR 0x0A then [] # split_lines xs
      else case split_lines xs of [] \<Rightarrow> [[x]] | l # ls \<Rightarrow> (x # l) # ls)"

definition one_line :: "string \<Rightarrow> bool" where
  "one_line m \<longleftrightarrow> CHR 0x0A \<notin> set m"

lemma split_lines_line: "one_line m \<Longrightarrow> split_lines m = [m]"
  by (induction m) (auto simp: one_line_def)

lemma split_lines_append: "one_line m \<Longrightarrow> split_lines (m @ CHR 0x0A # s) = m # split_lines s"
  by (induction m) (auto simp: one_line_def)

lemma split_frame_of: "ms \<noteq> [] \<Longrightarrow> list_all one_line ms \<Longrightarrow> split_lines (frame_of ms) = ms"
  by (induction ms rule: frame_of.induct) (simp_all add: split_lines_line split_lines_append)

definition received_messages :: "frame list \<Rightarrow> string list" where
  "received_messages fs = concat (map (\<lambda>f. case f of TextFrame s \<Rightarrow> split_lines s | _ \<Rightarrow> []) fs)"

definition sent_messages :: "write_event list \<Rightarrow> string list" where
  "sent_messages es = concat (map (\<lambda>e. case e of Dequeued m ms _ _ \<Rightarrow> m # ms | _ \<Rightarrow> []) es)"

definition write_ok :: "write_event \<Rightarrow> bool" where
  "write_ok e = (case e of Dequeued _ _ a b \<Rightarrow> a \<and> b | PingTick ok \<Rightarrow> ok | SendClosed \<Rightarrow> False)"

section \<open>Properties\<close>

text \<open>
  C28: The browser gets the messages.  While the connection works, splitting the text frames of the write pump at newlines gives exactly the messages that were taken from the
  client's channel, in order, however they were batched; and when the channel is closed after them the last frame is a close frame.  The messages must
  not contain newlines, which encoded JSON does not.
\<close>

theorem frames_roundtrip:
  assumes "list_all write_ok es" "list_all one_line (sent_messages es)"
  shows "received_messages (StartWritePump es) = sent_messages es \<and>
     StartWritePump (es @ SendClosed # rest) = StartWritePump es @ [CloseFrame]"
  using assms
proof (induction es)
  case Nil
  show ?case by (simp add: received_messages_def sent_messages_def)
next
  case (Cons e es)
  then have IH: "received_messages (StartWritePump es) = sent_messages es"
    "StartWritePump (es @ SendClosed # rest) = StartWritePump es @ [CloseFrame]"
    by (simp_all add: sent_messages_def)
  show ?case
  proof (cases e)
    case (Dequeued m ms a b)
    with Cons.prems have "split_lines (frame_of (m # ms)) = m # ms"
      by (intro split_frame_of) (simp_all add: sent_messages_def)
    with Dequeued Cons.prems(1) IH show ?thesis by (simp add: write_ok_def received_messages_def sent_messages_def)
  qed (use Cons.prems(1) IH in \<open>simp_all add: write_ok_def received_messages_def sent_messages_def\<close>)
qed

theorem frames_roundtrip_witness:
  "received_messages (StartWritePump [Dequeued ''a'' [''b'', ''c''] True True, PingTick True, Dequeued ''d'' [] True True]) =
     [''a'', ''b'', ''c'', ''d'']"
  using frames_roundtrip [of "[Dequeued ''a'' [''b'', ''c''] True True, PingTick True, Dequeued ''d'' [] True True]" "[]"]
  by (simp add: write_ok_def sent_messages_def one_line_def)

end
