(* ===== verification/Confirm_Race.thy ===== *)
theory Confirm_Race
  imports Reservation_Correct
begin

text \<open>
  Two requests that confirm one reservation at the same time.  \<open>Confirm\<close> checks the status when it reads the row, and its
  \<open>UPDATE\<close> names only the identifier; a second request that read the row before the first one committed goes through as well.
\<close>

section \<open>Confirm after it has read the row\<close>

definition confirm_rest :: "uuid_lib \<Rightarrow> Reservation \<Rightarrow> string \<Rightarrow> Order res prog" where
  "confirm_rest L r key =
     bindP (Client_Confirm (uuid_String L (res_SaleID r))) (\<lambda>x. case x of
       Inl e \<Rightarrow> Ret (Inl (Wrapf ''redis confirm failed'' e))
     | Inr result \<Rightarrow>
     if result = - 1 then Ret (Inl (Errorf ''invalid reservation state''))
     else Call TxBegin (\<lambda>q.
       if q = NetErr then Ret (Inl (Wrapf ''failed to begin transaction'' NetworkErr))
       else confirm_tx L (res_ID r) r key))"

definition read_choice :: choice where
  "read_choice = \<lparr>ch_net = Delivered, ch_uuid = 0, ch_now = 0\<rparr>"

context shop
begin

lemma Confirm_reads:
  assumes ok: "db_ok (tb w)" and r: "(r, p) \<in> set (t_reservations (tb w))" "res_Status r = Reserved"
    and key: "key \<noteq> []" "key \<notin> ord_IdempotencyKey ` set (t_orders (tb w))"
    and i: "i < length ts" "ts ! i = void (Confirm L (res_ID r) key)" and re: "reachable S ex H w0 (w, ts)"
  shows "reachable S ex H w0 (w, ts[i := void (confirm_rest L r key)])"
proof -
  have "\<exists>k k'. ts ! i = Call (PgQuery (SelectOrderByKey key)) k \<and>
      k (Rows (OrderRows [])) = Call (PgQuery (SelectReservation (res_ID r))) k' \<and>
      k' (Rows (ReservationRows [r])) = void (confirm_rest L r key)"
    using key(1) r(2) i(2)
    by (simp add: Confirm_def getOrderByIdempotencyKey_def void_def scan_order_def scan_reservation_def first_row_def confirm_rest_def)
  then obtain k k' where k: "ts ! i = Call (PgQuery (SelectOrderByKey key)) k"
    "k (Rows (OrderRows [])) = Call (PgQuery (SelectReservation (res_ID r))) k'"
    "k' (Rows (ReservationRows [r])) = void (confirm_rest L r key)" by blast
  have "filter (\<lambda>x. ord_IdempotencyKey x = key) (t_orders (tb w)) = []" using key(2) by (auto simp: filter_empty_conv)
  then have e: "exec S read_choice (PgQuery (SelectOrderByKey key)) w = (Rows (OrderRows []), w)"
    "exec S read_choice (PgQuery (SelectReservation (res_ID r))) w = (Rows (ReservationRows [r]), w)"
    using select_reservation [OF ok r(1)] by (simp_all add: exec_def serve_def read_choice_def query)
  have "reachable S ex H w0 (w, ts[i := k (Rows (OrderRows []))])"
    by (rule reachable.step [OF re pool_step.act [OF i(1) k(1) e(1)]])
  moreover have "pool_step S ex H (w, ts[i := k (Rows (OrderRows []))]) (w, ts[i := k (Rows (OrderRows [])), i := void (confirm_rest L r key)])"
    using pool_step.act [where i = i and ts = "ts[i := k (Rows (OrderRows []))]", OF _ _ e(2), of k'] i(1) k(2,3) by simp
  ultimately show ?thesis by (simp add: reachable.step)
qed

lemma confirm_rest_run:
  assumes orc: "delivered orc" and st: "has_stock (ks w) (uuid_String L (res_SaleID r)) a b" "0 < b"
    and x: "x = new_order r key (shift (shift orc))" "order_ok (tb w) x"
  shows "\<exists>w'. run S (confirm_rest L r key) orc w = (Returned (Inr x), w') \<and>
     ks w' = (ks w)(reservedKey (uuid_String L (res_SaleID r)) \<mapsto> cnt (b - 1)) \<and> tb w' = confirmed_db L (res_ID r) x (tb w)"
proof -
  have "\<exists>w1. run S (confirm_rest L r key) orc w = run S (confirm_tx L (res_ID r) r key) (shift (shift orc)) w1 \<and>
      ks w1 = (ks w)(reservedKey (uuid_String L (res_SaleID r)) \<mapsto> cnt (b - 1)) \<and> pg_st w1 = pg_st w"
    using orc st(2) has_stockD [OF st(1)] by (simp add: confirm_rest_def shop_simps) (intro exI conjI, rule refl, simp_all)
  then obtain w1 where run: "run S (confirm_rest L r key) orc w = run S (confirm_tx L (res_ID r) r key) (shift (shift orc)) w1"
    and w1: "ks w1 = (ks w)(reservedKey (uuid_String L (res_SaleID r)) \<mapsto> cnt (b - 1))" "pg_st w1 = pg_st w" by blast
  from confirm_tx_run [of "shift (shift orc)" w1 r key] orc x show ?thesis by (auto simp: run w1)
qed

text \<open>A request that has read the row finishes as if nothing had happened since.\<close>

lemma confirm_rest_pool:
  assumes "delivered orc" "has_stock (ks w) (uuid_String L (res_SaleID r)) a b" "0 < b"
    and "x = new_order r key (shift (shift orc))" "order_ok (tb w) x" "i < length ts" "ts ! i = void (confirm_rest L r key)"
    and "reachable S ex H w0 (w, ts)"
  shows "\<exists>w'. reachable S ex H w0 (w', ts[i := Ret ()]) \<and>
     ks w' = (ks w)(reservedKey (uuid_String L (res_SaleID r)) \<mapsto> cnt (b - 1)) \<and> tb w' = confirmed_db L (res_ID r) x (tb w)"
proof -
  obtain w' where "run S (confirm_rest L r key) orc w = (Returned (Inr x), w')"
    and w': "ks w' = (ks w)(reservedKey (uuid_String L (res_SaleID r)) \<mapsto> cnt (b - 1))" "tb w' = confirmed_db L (res_ID r) x (tb w)"
    using confirm_rest_run [OF assms(1-5)] by blast
  then have "run S (void (confirm_rest L r key)) orc w = (Returned (), w')" by (simp add: run_void)
  from run_pool [OF this assms(6-8)] w' show ?thesis by auto
qed

lemma order_ok_confirmed:
  assumes "order_ok d x" "ord_ID x \<noteq> ord_ID y" "ord_IdempotencyKey x \<noteq> ord_IdempotencyKey y"
  shows "order_ok (confirmed_db L i y d) x"
proof -
  have "(res_ID \<circ> fst) ` set (update_rows (\<lambda>r. r\<lparr>res_Status := Confirmed, res_ConfirmedAt := t\<rparr>) i rows) = (res_ID \<circ> fst) ` set rows" for t rows
    by (rule update_rows_ids) (simp add: keeps_key_def row_key_def)
  with assms show ?thesis by (simp add: order_ok_def confirmed_db_def)
qed

end

section \<open>Properties\<close>

text \<open>
  C30: Two orders for one reservation.  Let a reservation be reserved, let the sale's reserved counter be at least two (someone else holds a unit too), and
  let two requests with different idempotency keys confirm this reservation at the same time.  Then there is an interleaving of the two, with no message lost, in
  which both finish with an order for the same reservation: both orders are stored and the reserved counter has lost two units.
\<close>

theorem confirm_race_two_orders:
  assumes "shop S view tables L" "delivered orc1" "delivered orc2" "db_ok (tables (pg_st w))"
    and "(r, p) \<in> set (t_reservations (tables (pg_st w)))" "res_Status r = Reserved"
    and "has_stock (view (redis_st w)) (uuid_String L (res_SaleID r)) a b" "2 \<le> b"
    and "x1 = new_order r k1 (shift (shift orc1))" "x2 = new_order r k2 (shift (shift orc2))" "ord_ID x1 \<noteq> ord_ID x2"
    and "order_ok (tables (pg_st w)) x1" "order_ok (tables (pg_st w)) x2" "k1 \<noteq> []" "k2 \<noteq> []" "k1 \<noteq> k2"
  shows "\<exists>w'. reachable S ex {void (Confirm L (res_ID r) k1), void (Confirm L (res_ID r) k2)} w (w', [Ret (), Ret ()]) \<and>
     t_orders (tables (pg_st w')) = t_orders (tables (pg_st w)) @ [stored_order x1, stored_order x2] \<and>
     ord_ReservationID x1 = res_ID r \<and> ord_ReservationID x2 = res_ID r \<and>
     view (redis_st w') (reservedKey (uuid_String L (res_SaleID r))) = Some (cnt (b - 2))"
proof -
  let ?p1 = "void (Confirm L (res_ID r) k1)" and ?p2 = "void (Confirm L (res_ID r) k2)"
  let ?q1 = "void (confirm_rest L r k1)" and ?q2 = "void (confirm_rest L r k2)"
  let ?R = "reachable S ex {?p1, ?p2} w" and ?K = "reservedKey (uuid_String L (res_SaleID r))"
  have x: "ord_IdempotencyKey x1 = k1" "ord_IdempotencyKey x2 = k2" "ord_ReservationID x1 = res_ID r" "ord_ReservationID x2 = res_ID r"
    by (simp_all add: assms(9,10) new_order_def)
  have new: "k1 \<notin> ord_IdempotencyKey ` set (t_orders (tables (pg_st w)))" "k2 \<notin> ord_IdempotencyKey ` set (t_orders (tables (pg_st w)))"
    using assms(12,13) x by (simp_all add: order_ok_def)
  have "?R (w, [?p1])" using reachable.step [OF reachable.start pool_step.spawn [of ?p1 "{?p1, ?p2}" S ex w "[]"]] by simp
  then have "?R (w, [?p1, ?p2])" using reachable.step [OF _ pool_step.spawn [of ?p2 "{?p1, ?p2}" S ex w "[?p1]"]] by simp
  then have "?R (w, [?q1, ?p2])" using shop.Confirm_reads [OF assms(1,4-6,14) new(1), of 0 "[?p1, ?p2]"] by simp
  then have r0: "?R (w, [?q1, ?q2])" using shop.Confirm_reads [OF assms(1,4-6,15) new(2), of 1 "[?q1, ?p2]"] by simp
  obtain w1 where w1: "?R (w1, [Ret (), ?q2])" "view (redis_st w1) = (view (redis_st w))(?K \<mapsto> cnt (b - 1))"
    "tables (pg_st w1) = confirmed_db L (res_ID r) x1 (tables (pg_st w))"
    using shop.confirm_rest_pool [OF assms(1,2,7) _ assms(9,12) _ _ r0, of 0] assms(8) by auto
  have ok2: "order_ok (tables (pg_st w1)) x2"
    unfolding w1(3) by (rule shop.order_ok_confirmed [OF assms(1,13)]) (use assms(11,16) x in auto)
  have st2: "has_stock (view (redis_st w1)) (uuid_String L (res_SaleID r)) a (b - 1)"
    using assms(7,8) by (auto simp: w1(2) has_stock_def stock_at_def in64_def)
  obtain w2 where w2: "?R (w2, [Ret (), Ret ()])" "view (redis_st w2) = (view (redis_st w1))(?K \<mapsto> cnt (b - 1 - 1))"
    "tables (pg_st w2) = confirmed_db L (res_ID r) x2 (tables (pg_st w1))"
    using shop.confirm_rest_pool [OF assms(1,3) st2 _ assms(10) ok2 _ _ w1(1), of 1] assms(8) by auto
  then show ?thesis by (intro exI [of _ w2]) (simp add: w2(2,3) w1(3) x confirmed_db_def)
qed

theorem confirm_race_two_orders_witness:
  "\<exists>w' x1 x2. reachable mem_services mem_expire {void (Confirm canonical_uuid 11 ''k''), void (Confirm canonical_uuid 11 ''l'')}
       (demo_held\<lparr>redis_st := demo_keys 0 2\<rparr>) (w', [Ret (), Ret ()]) \<and> t_orders (pg_st w') = [x1, x2]"
proof -
  let ?w = "demo_held\<lparr>redis_st := demo_keys 0 2\<rparr>"
  let ?o = "\<lambda>u i. (demo_orc i)\<lparr>ch_uuid := u\<rparr>"
  have o: "delivered (?o u)" for u using demo_orc_delivered by (simp add: delivered_def)
  have l: "varchar_fits 255 ''l''" by (simp add: varchar_fits_def utf8_tail_def)
  have st: "has_stock (redis_st ?w) (uuid_String canonical_uuid (res_SaleID demo_res)) 0 2" using demo_has_stock [of 0 2] by (simp add: demo_in64)
  have w: "db_ok (pg_st ?w)" "(demo_res, False) \<in> set (t_reservations (pg_st ?w))" "res_Status demo_res = Reserved"
    using demo_held_db_ok by (simp_all add: demo_held_db_def)
  have x: "order_ok (pg_st ?w) (new_order demo_res ''k'' (shift (shift (?o 1))))"
    "order_ok (pg_st ?w) (new_order demo_res ''l'' (shift (shift (?o 2))))"
    using demo_order_ok [OF demo_key(1)] demo_order_ok [OF l] by simp_all
  have n: "ord_ID (new_order demo_res ''k'' (shift (shift (?o 1)))) \<noteq> ord_ID (new_order demo_res ''l'' (shift (shift (?o 2))))"
    by (simp add: new_order_def)
  have "t_orders (pg_st ?w) = []" "res_ID demo_res = 11" by (simp_all add: demo_held_db_def demo_db_def)
  then show ?thesis
    using confirm_race_two_orders [OF mem_shop_ok o o w st _ refl refl n x, of mem_expire] by auto
qed

end
