(* ===== verification/Spec2Isabelle.thy ===== *)
theory Spec2Isabelle
  imports Expiry_Correct Waitlist_Correct Inventory_Correct Reconciler_Correct Failure_Safety Panic_Freedom
    Http_Correct Server_Correct Event_Stream Startup_Correct Reconciler_Oversell Rate_Limiter_Progress Expiry_Progress
    Websocket_Pumps Confirm_Race
begin

text \<open>
  \<^bold>\<open>A flash sale server.\<close>  The program sells a limited stock.  For every sale it keeps two counters in Redis (available, reserved), changed only by Lua
  scripts that Redis runs atomically, and it keeps the truth (sales, reservations, orders, an audit log) in PostgreSQL.  A client reserves a unit,
  then confirms it, which creates an order, or releases it; a reservation that is not confirmed expires through the expiry of a TTL key in Redis, and its unit
  goes to the first user of a waitlist.  Reconcilers recompute the counters from the tables, at start-up and periodically.  Services publish
  events on Redis channels, which the server fans out to browsers over WebSockets.  An HTTP API with rate limiting is in front.

  \<^bold>\<open>How programs are modelled\<close> (\<open>Prelude\<close>, \<open>Models\<close>, \<open>Uuid_Keys\<close>, \<open>Redis_Server\<close>, \<open>Lua_Scripts\<close>, \<open>Postgres\<close>, \<open>Program\<close>, \<open>Redis_Client\<close>).
  A Go function is a value of type \<open>prog\<close>: it returns, panics, or makes one call to Redis, the database, the clock, the identifier source, a channel or a metric and
  continues with the reply.  Errors are values of \<open>goerr\<close> in the sum type \<open>res\<close>.  \<open>run\<close> executes a program alone on a schedule, which decides for every call whether it is
  delivered, or the request or the reply is lost or breaks off, what the clock says and which identifier is new.  \<open>reachable\<close> interleaves any number of
  goroutines call by call and lets TTL keys expire.  Loops are structural recursions over the rows they read or a \<open>function\<close> with
  a measure, so no fuel is needed; programs are finite trees.  The endless loops of background goroutines (\<open>StartReconciliationWorker\<close>, \<open>runExpiryWarningTicker\<close>,
  \<open>subscription_loop\<close>, \<open>StartConsumer\<close>) are recursions over the finite list of wake-ups, messages or reads they have seen so far; a property of them holds for every such list.
  Redis, PostgreSQL and the UUID library are not part of the sources.  They are parameters: the locales \<open>redis_server\<close>, \<open>pg_server\<close>, \<open>services\<close>, \<open>expiring_services\<close>,
  \<open>uuid_codec\<close> and \<open>shop\<close> state their documented behaviour as laws, \<open>mem_services\<close>, \<open>mem_expire\<close> and \<open>canonical_uuid\<close> are concrete instances for which every law
  is proved, and \<open>Example_World\<close> is the deployment on which the witnesses run.  Lua numbers are rationals with a rounding function that is monotone, exact on integers
  up to \<open>2 ^ 53\<close> and has the relative error of a double.  Counters are 64-bit: the laws of the increments hold within \<open>in64\<close>.

  \<^bold>\<open>Components and sources\<close> (under \<open>src/internal\<close> unless said otherwise).
  \<^item> \<open>Lua_Scripts\<close>: the six scripts of \<open>redis/scripts\<close>; \<open>Redis_Client\<close>: the calls of \<open>redis/client.go\<close>, \<open>events/publisher.go\<close>, \<open>audit/logger.go\<close>.
  \<^item> \<open>Reservation_Service\<close>, \<open>Inventory_Service\<close>, \<open>Waitlist_Service\<close>: \<open>reservation\<close>, \<open>inventory\<close>, \<open>waitlist\<close> (\<open>service.go\<close> each).
  \<^item> \<open>Expiry_Handler\<close>: \<open>queue/expiry_handler.go\<close>; \<open>Reconciler\<close>: \<open>worker/reconciler.go\<close> and \<open>recovery/reconcile_startup.go\<close>.
  \<^item> \<open>Rate_Limiter\<close>: \<open>ratelimit/limiter.go\<close>; \<open>Http_Api\<close>: \<open>api\<close> with its handlers, and \<open>websocket/handler.go\<close>.
  \<^item> \<open>Websocket_Hub\<close>: \<open>websocket/hub.go\<close> and \<open>client.go\<close> as a step relation, \<open>Websocket_Pumps\<close>: the two pumps as loops; \<open>Event_Stream\<close>: \<open>streams/logger.go\<close>.
  \<^item> \<open>Server_Main\<close>: \<open>cmd/server/main.go\<close>, \<open>config/config.go\<close>, \<open>telemetry/tracer.go\<close> and the construction of the Redis client and the limiter.
  \<^item> \<open>Postgres\<close>: the tables and constraints of \<open>migrations\<close>.

  \<^bold>\<open>What is proved.\<close>
  \<^item> \<open>Stock_Ledger\<close>, \<open>No_Oversell\<close>: in every interleaving of HTTP requests, service calls and expiry handlers, with any losses, a sale never has more orders than its
    stock.  The argument is a ledger with a token for every unit that a goroutine has taken out of the counters and not yet sold.
  \<^item> \<open>Accounting\<close>: \<open>Reserve\<close>, \<open>Confirm\<close> and \<open>Release\<close> refine operations on an abstract shelf; in \<open>Lua_Scripts\<close> the scripts refine operations on a pair of counters.
  \<^item> \<open>Failure_Safety\<close>, \<open>Database_Invariants\<close>, \<open>Panic_Freedom\<close>: atomic confirmation under losses, orders backed by confirmed reservations, closed reservations that never reopen,
    a history that is only appended to, no panics.
  \<^item> \<open>Reservation_Correct\<close>, \<open>Inventory_Correct\<close>, \<open>Waitlist_Correct\<close>, \<open>Expiry_Correct\<close>, \<open>Reconciler_Correct\<close>, \<open>Startup_Correct\<close>: results and effects of the operations on their branches, round trips, replays,
    repair of the counters, and a start-up that ends with exact counters.
  \<^item> \<open>Rate_Limiter_Correct\<close>, \<open>Rate_Limiter_Progress\<close>: the bound on admitted requests with floating point rounding, and that no user is locked out.
  \<^item> \<open>Expiry_Progress\<close>: over many rounds the warning job misses no reservation.
  \<^item> \<open>Http_Correct\<close>: the reserve endpoint end to end, the statuses of every route, the replay cache, reading an order back.
  \<^item> \<open>Hub_Correct\<close>, \<open>Websocket_Pumps\<close>, \<open>Server_Correct\<close>, \<open>Event_Stream\<close>, \<open>Reconciler_Oversell\<close>, \<open>Confirm_Race\<close>: rooms and bounds of the hub, delivery of broadcasts, the messages
    a browser reads from the frames of its connection, which events reach which client; and
    executions in which the hub crashes, the stream consumer drops every event, the reconciler sells a unit twice, and two concurrent confirmations of one reservation both succeed.

  \<^bold>\<open>Decisions.\<close>  A script is called by its name: that the script cache of Redis is flushed (\<open>NOSCRIPT\<close>) is not modelled.  A pipeline is its commands one after the other.  The statements of a
  transaction take effect at its commit.  Tracing spans, the latency histogram and logging are left out, as are the request
  identifier and logging middleware.  The database keeps times in microseconds and cuts off the rest (\<open>stored_reservation\<close> and its like), so what is read back equals what
  was written up to that; \<open>VARCHAR\<close> columns count UTF-8 characters; the reservation time is a 64-bit duration with its overflow.  The rows of a query may break off.  The two reconcilers
  are translated separately, and proved to agree.  The WebSocket handler issues its calls to the hub in order (\<open>HubCall\<close>); what they do there is \<open>Websocket_Hub\<close>.  JSON is a parameter where its form does not matter, and structured where it does.

  \<^bold>\<open>Not modelled.\<close>  The accept loop of the HTTP server, signals and shutdown; deadlines of WebSocket connections;
  \<open>metrics\<close>, which only registers counters with a library; \<open>slo\<close>, three unused constants; tests, load scripts and dashboards.
\<close>

end
